(* ===== verification/Prelude.thy ===== *)
theory Prelude
  imports Main "HOL-Library.Word"
begin

text \<open>
  Shared vocabulary of the development: bytes and byte vectors, the 32-bit header fields of
  the wire formats, the heap of C allocations, and the collections of rewrite rules that the
  component proofs use.

  \<^item> \<open>byte\<close> is \<^verbatim>\<open>uint8_t\<close>, \<open>u16\<close>, \<open>u32\<close> and \<open>u64\<close> the wider unsigned integers, all kept at
    their width; \<open>bytes\<close> is \<^verbatim>\<open>std::vector<uint8_t>\<close>.
  \<^item> \<open>vec_resize\<close> is \<^verbatim>\<open>vector::resize\<close> (cut or padded with zeros) and \<open>vec_write\<close> a copy into a
    vector at an offset (\<^verbatim>\<open>std::copy\<close>, \<^verbatim>\<open>memcpy\<close>, \<^verbatim>\<open>recv\<close>).
  \<^item> \<open>heap\<close> records which \<^verbatim>\<open>malloc\<close> blocks are live and whether a block was ever freed while it
    was not live.
\<close>

unbundle bit_operations_syntax

type_synonym byte = "8 word"
type_synonym bytes = "8 word list"
type_synonym u16 = "16 word"
type_synonym u32 = "32 word"
type_synonym u64 = "64 word"

named_theorems frame_simps \<open>how the encoders and decoders of the wire formats compute\<close>
named_theorems io_simps \<open>how the socket operations compute\<close>
named_theorems heap_simps \<open>how the heap operations change the live blocks\<close>
named_theorems life_simps \<open>how the life-cycle operations of a transport compute\<close>

section \<open>Byte vectors\<close>

definition vec_resize :: "nat \<Rightarrow> bytes \<Rightarrow> bytes" where
  "vec_resize n xs = take n xs @ replicate (n - length xs) 0"

definition vec_write :: "nat \<Rightarrow> bytes \<Rightarrow> bytes \<Rightarrow> bytes" where
  "vec_write pos xs buf = take pos buf @ xs @ drop (pos + length xs) buf"

lemma length_vec_resize [simp]: "length (vec_resize n xs) = n"
  by (simp add: vec_resize_def)

lemma vec_resize_same [simp]: "vec_resize (length xs) xs = xs"
  by (simp add: vec_resize_def)

lemma vec_resize_Nil [simp]: "vec_resize n [] = replicate n 0"
  by (simp add: vec_resize_def)

lemma length_vec_write [simp]:
  "pos + length xs \<le> length buf \<Longrightarrow> length (vec_write pos xs buf) = length buf"
  by (simp add: vec_write_def)

lemma vec_write_all: "length xs = length buf \<Longrightarrow> vec_write 0 xs buf = xs"
  by (simp add: vec_write_def)

lemma vec_write_tail:
  "pos + length xs = length buf \<Longrightarrow> vec_write pos xs buf = take pos buf @ xs"
  by (simp add: vec_write_def)

section \<open>Thirty-two-bit fields in network byte order\<close>

text \<open>
  The four assignments \<^verbatim>\<open>buf[k] = (v >> 24) & 0xFF\<close>, \<^verbatim>\<open>... >> 16\<close>, \<^verbatim>\<open>... >> 8\<close>, \<^verbatim>\<open>... >> 0\<close>, and
  the expression \<^verbatim>\<open>(b0 << 24) | (b1 << 16) | (b2 << 8) | b3\<close> that reads them back.
\<close>

definition be32_bytes :: "u32 \<Rightarrow> bytes" where
  "be32_bytes v =
     [ucast (drop_bit 24 v AND 0xFF), ucast (drop_bit 16 v AND 0xFF),
      ucast (drop_bit 8 v AND 0xFF), ucast (v AND 0xFF)]"

definition be32_value :: "byte \<Rightarrow> byte \<Rightarrow> byte \<Rightarrow> byte \<Rightarrow> u32" where
  "be32_value b0 b1 b2 b3 =
     push_bit 24 (ucast b0) OR push_bit 16 (ucast b1) OR push_bit 8 (ucast b2) OR ucast b3"

text \<open>The field at offset \<open>k\<close> of a buffer.\<close>

definition be32_at :: "nat \<Rightarrow> bytes \<Rightarrow> u32" where
  "be32_at k buf = be32_value (buf ! k) (buf ! (k + 1)) (buf ! (k + 2)) (buf ! (k + 3))"

text \<open>The same field in the byte order of a little-endian host.\<close>

definition le32_bytes :: "u32 \<Rightarrow> bytes" where
  "le32_bytes v = rev (be32_bytes v)"

definition le32_at :: "nat \<Rightarrow> bytes \<Rightarrow> u32" where
  "le32_at k buf = be32_value (buf ! (k + 3)) (buf ! (k + 2)) (buf ! (k + 1)) (buf ! k)"

lemma length_be32_bytes [simp]: "length (be32_bytes v) = 4"
  by (simp add: be32_bytes_def)

lemma length_le32_bytes [simp]: "length (le32_bytes v) = 4"
  by (simp add: le32_bytes_def)

lemma ucast_and_255 [simp]: "(ucast ((x :: u32) AND 0xFF) :: byte) = ucast x"
proof -
  have "(ucast (x AND mask 8) :: byte) = ucast x"
    by (rule bit_word_eqI) (simp add: bit_simps)
  moreover have "(mask 8 :: u32) = 0xFF"
    by (simp add: mask_eq_exp_minus_1)
  ultimately show ?thesis
    by simp
qed

lemma be32_value_of_bytes:
  "be32_value (ucast (drop_bit 24 v)) (ucast (drop_bit 16 v)) (ucast (drop_bit 8 v)) (ucast v) = v"
proof (rule bit_word_eqI)
  fix n
  assume n: "n < LENGTH(32)"
  then consider "n < 8" | "8 \<le> n" "n < 16" | "16 \<le> n" "n < 24" | "24 \<le> n" "n < 32"
    by fastforce
  then show "bit (be32_value (ucast (drop_bit 24 v)) (ucast (drop_bit 16 v))
      (ucast (drop_bit 8 v)) (ucast v)) n = bit v n"
    by cases (auto simp: be32_value_def bit_simps)
qed

lemma be32_at_0 [simp]: "be32_at 0 (be32_bytes v @ post) = v"
  by (simp add: be32_at_def be32_bytes_def be32_value_of_bytes)

lemma be32_at_skip: "length pre \<le> k \<Longrightarrow> be32_at k (pre @ rest) = be32_at (k - length pre) rest"
  by (simp add: be32_at_def nth_append Suc_diff_le)

section \<open>The heap of C allocations\<close>

text \<open>
  \<open>live\<close> are the addresses \<^verbatim>\<open>malloc\<close> handed out that \<^verbatim>\<open>free\<close> has not taken back, \<open>brk\<close> is above
  all of them. Whether an allocation succeeds is the allocator's answer \<open>ok\<close>. A \<^verbatim>\<open>free\<close> of an
  address that is not live is undefined in C: it is recorded in \<open>bad_free\<close>.
\<close>

type_synonym ptr = nat

record heap =
  live :: "ptr set"
  brk :: ptr
  bad_free :: bool

definition heap_ok :: "heap \<Rightarrow> bool" where
  "heap_ok h \<longleftrightarrow> (\<forall>p \<in> live h. p < brk h) \<and> \<not> bad_free h"

definition empty_heap :: heap where
  "empty_heap = \<lparr>live = {}, brk = 0, bad_free = False\<rparr>"

definition malloc :: "bool \<Rightarrow> heap \<Rightarrow> ptr option \<times> heap" where
  "malloc ok h =
     (if ok then (Some (brk h), h\<lparr>live := insert (brk h) (live h), brk := Suc (brk h)\<rparr>)
      else (None, h))"

definition free :: "ptr \<Rightarrow> heap \<Rightarrow> heap" where
  "free p h =
     (if p \<in> live h then h\<lparr>live := live h - {p}\<rparr> else h\<lparr>bad_free := True\<rparr>)"

lemma heap_ok_empty [simp]: "heap_ok empty_heap"
  by (simp add: heap_ok_def empty_heap_def)

lemma malloc_fails [heap_simps, simp]: "malloc False h = (None, h)"
  by (simp add: malloc_def)

lemma malloc_works [heap_simps]:
  "malloc True h = (Some (brk h), h\<lparr>live := insert (brk h) (live h), brk := Suc (brk h)\<rparr>)"
  by (simp add: malloc_def)

lemma free_live [heap_simps]: "p \<in> live h \<Longrightarrow> free p h = h\<lparr>live := live h - {p}\<rparr>"
  by (simp add: free_def)

lemma brk_not_live [simp]: "heap_ok h \<Longrightarrow> brk h \<notin> live h"
  by (auto simp: heap_ok_def)

lemma malloc_heap_ok: "heap_ok h \<Longrightarrow> malloc ok h = (r, h') \<Longrightarrow> heap_ok h'"
  by (auto simp: malloc_def heap_ok_def less_Suc_eq split: if_splits)

lemma free_heap_ok: "heap_ok h \<Longrightarrow> p \<in> live h \<Longrightarrow> heap_ok (free p h)"
  by (auto simp: free_def heap_ok_def)

section \<open>Memory\<close>

text \<open>
  The answers of \<^verbatim>\<open>operator new\<close>: whether there is memory for a \<^verbatim>\<open>std::vector\<close> or a \<^verbatim>\<open>std::string\<close> to
  grow to \<open>n\<close> bytes. One that has to grow and cannot throws, \<open>Bad_alloc\<close>; a string also when it would
  outgrow what its size type can hold (\<^verbatim>\<open>std::length_error\<close>, which every handler of the program
  treats alike).
\<close>

type_synonym memory = "nat \<Rightarrow> bool"

datatype cpp_exception = Bad_alloc

definition plenty :: memory where
  "plenty n = True"

text \<open>Whether \<^verbatim>\<open>buf.resize(n)\<close> returns.\<close>

definition vec_fits :: "memory \<Rightarrow> bytes \<Rightarrow> nat \<Rightarrow> bool" where
  "vec_fits mem buf n \<longleftrightarrow> n \<le> length buf \<or> mem n"

definition string_max_size :: nat where
  "string_max_size = 2 ^ 63 - 1"

definition string_fits :: "memory \<Rightarrow> nat \<Rightarrow> bool" where
  "string_fits mem n \<longleftrightarrow> n \<le> string_max_size \<and> mem n"

lemma plenty_simps [simp]: "plenty n" "vec_fits plenty buf n"
  by (simp_all add: plenty_def vec_fits_def)

lemma vec_fits_0 [simp]: "vec_fits mem buf 0"
  by (simp add: vec_fits_def)

section \<open>Descriptors\<close>

text \<open>
  The descriptors the process holds open, and those of them in non-blocking mode. The sources
  compare the \<^verbatim>\<open>int\<close> that \<^verbatim>\<open>socket\<close> returns with zero, so descriptors are \<open>int\<close>.
\<close>

record kernel =
  open_fds :: "int set"
  nonblocking :: "int set"

definition fd_open :: "int \<Rightarrow> kernel \<Rightarrow> kernel" where
  "fd_open fd k = k\<lparr>open_fds := insert fd (open_fds k)\<rparr>"

definition fd_close :: "int \<Rightarrow> kernel \<Rightarrow> kernel" where
  "fd_close fd k =
     k\<lparr>open_fds := open_fds k - {fd}, nonblocking := nonblocking k - {fd}\<rparr>"

lemma fd_simps [io_simps, simp]:
  "open_fds (fd_open fd k) = insert fd (open_fds k)"
  "nonblocking (fd_open fd k) = nonblocking k"
  "open_fds (fd_close fd k) = open_fds k - {fd}"
  "nonblocking (fd_close fd k) = nonblocking k - {fd}"
  by (simp_all add: fd_open_def fd_close_def)

datatype errno = EINTR | EAGAIN | EWOULDBLOCK | EINPROGRESS | EOTHER

end
