(* ===== verification/Libspdm_Api.thy ===== *)
theory Libspdm_Api
  imports Prelude
begin

text \<open>
  What the program uses of libspdm. libspdm is not part of the repository, so nothing of it is
  defined here: its functions are the fields of a record that the models take as an argument,
  its context and everything behind it (the network, the responder) are an abstract world
  \<open>'w\<close> that the calls thread.

  \<^item> \<open>status\<close> is \<^verbatim>\<open>libspdm_return_t\<close>. The values are kept symbolic: one constructor for each
    \<^verbatim>\<open>LIBSPDM_STATUS_...\<close> constant the sources name, and two for the rest, those that
    \<^verbatim>\<open>LIBSPDM_STATUS_IS_ERROR\<close> accepts and those it does not (the warnings). The sources test a
    result both with \<^verbatim>\<open>IS_ERROR\<close> and with \<^verbatim>\<open>!= LIBSPDM_STATUS_SUCCESS\<close>, which differ on warnings.
  \<^item> \<open>'w libspdm\<close> holds the functions of libspdm, one field per function, with the in-out
    parameters returned.
  \<^item> \<open>spdm_consts\<close> holds the numbers of the SPDM headers (\<^verbatim>\<open>industry_standard/spdm.h\<close>) that the
    sources test or store; \<open>dsp0274\<close> are the values the SPDM specification gives them, used in
    examples only.
\<close>

section \<open>Return codes\<close>

datatype status =
    LIBSPDM_STATUS_SUCCESS
  | LIBSPDM_STATUS_INVALID_PARAMETER
  | LIBSPDM_STATUS_INVALID_STATE_LOCAL
  | LIBSPDM_STATUS_SEND_FAIL
  | LIBSPDM_STATUS_RECEIVE_FAIL
  | LIBSPDM_STATUS_BUFFER_TOO_SMALL
  | LIBSPDM_STATUS_BUFFER_FULL
  | LIBSPDM_STATUS_INVALID_MSG_FIELD
  | LIBSPDM_STATUS_ACQUIRE_FAIL
  | OTHER_ERROR u32
  | OTHER_NON_ERROR u32

fun IS_ERROR :: "status \<Rightarrow> bool" where
  "IS_ERROR LIBSPDM_STATUS_SUCCESS = False"
| "IS_ERROR (OTHER_NON_ERROR c) = False"
| "IS_ERROR _ = True"

lemma IS_ERROR_not_success: "IS_ERROR st \<Longrightarrow> st \<noteq> LIBSPDM_STATUS_SUCCESS"
  by auto

section \<open>Keys and values of libspdm_set_data\<close>

datatype data_key =
    LIBSPDM_DATA_SPDM_VERSION
  | LIBSPDM_DATA_CAPABILITY_FLAGS
  | LIBSPDM_DATA_CAPABILITY_CT_EXPONENT
  | LIBSPDM_DATA_MEASUREMENT_SPEC
  | LIBSPDM_DATA_BASE_ASYM_ALGO
  | LIBSPDM_DATA_BASE_HASH_ALGO
  | LIBSPDM_DATA_DHE_NAME_GROUP
  | LIBSPDM_DATA_AEAD_CIPHER_SUITE
  | LIBSPDM_DATA_REQ_BASE_ASYM_ALG
  | LIBSPDM_DATA_KEY_SCHEDULE
  | LIBSPDM_DATA_OTHER_PARAMS_SUPPORT
  | LIBSPDM_DATA_PEER_PUBLIC_ROOT_CERT

datatype data_location = LIBSPDM_DATA_LOCATION_LOCAL | LIBSPDM_DATA_LOCATION_CONNECTION

text \<open>The data argument is a pointer and a size: the value with its width.\<close>

datatype data_value = Data8 byte | Data16 u16 | Data32 u32 | DataBlob bytes

text \<open>Which pair of encode and decode functions of libspdm a transport registers.\<close>

datatype transport_codec = Libspdm_transport_mctp | Libspdm_transport_tcp

section \<open>The functions of libspdm\<close>

text \<open>
  The calls on an open session pass the context pointer on without testing it, so they take a
  pointer that may be null.
\<close>

record 'w libspdm =
  lib_get_context_size :: nat
  lib_init_context :: "ptr \<Rightarrow> 'w \<Rightarrow> status \<times> 'w"
  lib_deinit_context :: "ptr \<Rightarrow> 'w \<Rightarrow> 'w"
  lib_register_device_io :: "ptr \<Rightarrow> 'w \<Rightarrow> 'w"
  lib_register_transport_layer :: "ptr \<Rightarrow> nat \<Rightarrow> nat \<Rightarrow> nat \<Rightarrow> transport_codec \<Rightarrow> 'w \<Rightarrow> 'w"
  lib_register_device_buffer :: "ptr \<Rightarrow> nat \<Rightarrow> nat \<Rightarrow> 'w \<Rightarrow> 'w"
  lib_scratch_size :: "ptr \<Rightarrow> 'w \<Rightarrow> nat"
  lib_set_scratch_buffer :: "ptr \<Rightarrow> ptr \<Rightarrow> nat \<Rightarrow> 'w \<Rightarrow> 'w"
  lib_set_data :: "ptr \<Rightarrow> data_key \<Rightarrow> data_location \<Rightarrow> data_value \<Rightarrow> 'w \<Rightarrow> status \<times> 'w"
  lib_get_data32 :: "ptr \<Rightarrow> data_key \<Rightarrow> data_location \<Rightarrow> 'w \<Rightarrow> status \<times> u32"
  lib_check_context :: "ptr \<Rightarrow> 'w \<Rightarrow> bool"
  lib_init_connection :: "ptr \<Rightarrow> bool \<Rightarrow> 'w \<Rightarrow> status \<times> 'w"
  lib_get_digest :: "ptr \<Rightarrow> 'w \<Rightarrow> (status \<times> byte \<times> bytes) \<times> 'w"
  lib_get_certificate :: "ptr \<Rightarrow> byte \<Rightarrow> nat \<Rightarrow> 'w \<Rightarrow> (status \<times> bytes) \<times> 'w"
  lib_get_measurement ::
    "ptr \<Rightarrow> byte \<Rightarrow> byte \<Rightarrow> byte \<Rightarrow> u32 \<Rightarrow> 'w \<Rightarrow> (status \<times> byte \<times> bytes) \<times> 'w"
  lib_start_session ::
    "ptr \<Rightarrow> bool \<Rightarrow> byte \<Rightarrow> byte \<Rightarrow> byte \<Rightarrow> 'w \<Rightarrow> (status \<times> u32 \<times> byte) \<times> 'w"
  lib_stop_session :: "ptr option \<Rightarrow> u32 \<Rightarrow> byte \<Rightarrow> 'w \<Rightarrow> status \<times> 'w"
  lib_heartbeat :: "ptr option \<Rightarrow> u32 \<Rightarrow> 'w \<Rightarrow> status \<times> 'w"
  lib_key_update :: "ptr option \<Rightarrow> u32 \<Rightarrow> bool \<Rightarrow> 'w \<Rightarrow> status \<times> 'w"
  lib_send_receive_data :: "ptr option \<Rightarrow> u32 \<Rightarrow> bool \<Rightarrow> bytes \<Rightarrow> nat \<Rightarrow> 'w \<Rightarrow> (status \<times> bytes) \<times> 'w"
  lib_base_hash_algo :: "ptr \<Rightarrow> 'w \<Rightarrow> u32"
  lib_base_asym_algo :: "ptr \<Rightarrow> 'w \<Rightarrow> u32"
  lib_get_hash_size :: "u32 \<Rightarrow> nat"
  lib_x509_get_cert_from_cert_chain :: "bytes \<Rightarrow> nat \<Rightarrow> bytes option"

section \<open>Constants of the SPDM headers\<close>

record spdm_consts =
  SPDM_VERSION_NUMBER_SHIFT_BIT :: nat
  SPDM_MESSAGE_VERSION_11 :: byte
  BASE_HASH_SHA_256 :: u32
  BASE_HASH_SHA_384 :: u32
  BASE_HASH_SHA_512 :: u32
  BASE_ASYM_RSASSA_2048 :: u32
  BASE_ASYM_RSAPSS_2048 :: u32
  BASE_ASYM_RSASSA_3072 :: u32
  BASE_ASYM_RSAPSS_3072 :: u32
  BASE_ASYM_RSASSA_4096 :: u32
  BASE_ASYM_RSAPSS_4096 :: u32
  BASE_ASYM_ECDSA_P256 :: u32
  BASE_ASYM_ECDSA_P384 :: u32
  BASE_ASYM_ECDSA_P521 :: u32
  BASE_ASYM_SM2_P256 :: u32
  BASE_ASYM_EDDSA_ED25519 :: u32
  BASE_ASYM_EDDSA_ED448 :: u32
  MEASUREMENT_SPECIFICATION_DMTF :: byte
  REQ_CERT_CAP :: u32
  REQ_CHAL_CAP :: u32
  REQ_ENCRYPT_CAP :: u32
  REQ_MAC_CAP :: u32
  REQ_KEY_EX_CAP :: u32
  REQ_HBEAT_CAP :: u32
  REQ_KEY_UPD_CAP :: u32
  DHE_SECP_384_R1 :: u16
  AEAD_AES_256_GCM :: u16
  KEY_SCHEDULE_SPDM :: u16
  NO_MEASUREMENT_SUMMARY_HASH :: byte
  OPERATION_TOTAL_NUMBER_OF_MEASUREMENTS :: byte
  OPERATION_ALL_MEASUREMENTS :: byte

definition dsp0274 :: spdm_consts where
  "dsp0274 = \<lparr>
     SPDM_VERSION_NUMBER_SHIFT_BIT = 8, SPDM_MESSAGE_VERSION_11 = 0x11,
     BASE_HASH_SHA_256 = 0x1, BASE_HASH_SHA_384 = 0x2, BASE_HASH_SHA_512 = 0x4,
     BASE_ASYM_RSASSA_2048 = 0x1, BASE_ASYM_RSAPSS_2048 = 0x2,
     BASE_ASYM_RSASSA_3072 = 0x4, BASE_ASYM_RSAPSS_3072 = 0x8,
     BASE_ASYM_RSASSA_4096 = 0x20, BASE_ASYM_RSAPSS_4096 = 0x40,
     BASE_ASYM_ECDSA_P256 = 0x10, BASE_ASYM_ECDSA_P384 = 0x80, BASE_ASYM_ECDSA_P521 = 0x100,
     BASE_ASYM_SM2_P256 = 0x200, BASE_ASYM_EDDSA_ED25519 = 0x400, BASE_ASYM_EDDSA_ED448 = 0x800,
     MEASUREMENT_SPECIFICATION_DMTF = 1,
     REQ_CERT_CAP = 0x2, REQ_CHAL_CAP = 0x4, REQ_ENCRYPT_CAP = 0x40, REQ_MAC_CAP = 0x80,
     REQ_KEY_EX_CAP = 0x200, REQ_HBEAT_CAP = 0x2000, REQ_KEY_UPD_CAP = 0x4000,
     DHE_SECP_384_R1 = 0x10, AEAD_AES_256_GCM = 0x2, KEY_SCHEDULE_SPDM = 0x1,
     NO_MEASUREMENT_SUMMARY_HASH = 0,
     OPERATION_TOTAL_NUMBER_OF_MEASUREMENTS = 0, OPERATION_ALL_MEASUREMENTS = 0xFF\<rparr>"

section \<open>An example\<close>

text \<open>
  A libspdm whose calls all succeed, in front of a device with one certificate in slot 0. It is
  used in examples only.
\<close>

definition example_libspdm :: "unit libspdm" where
  "example_libspdm = \<lparr>
     lib_get_context_size = 64,
     lib_init_context = (\<lambda>c w. (LIBSPDM_STATUS_SUCCESS, w)),
     lib_deinit_context = (\<lambda>c w. w),
     lib_register_device_io = (\<lambda>c w. w),
     lib_register_transport_layer = (\<lambda>c m h t codec w. w),
     lib_register_device_buffer = (\<lambda>c s r w. w),
     lib_scratch_size = (\<lambda>c w. 64),
     lib_set_scratch_buffer = (\<lambda>c p n w. w),
     lib_set_data = (\<lambda>c k loc v w. (LIBSPDM_STATUS_SUCCESS, w)),
     lib_get_data32 = (\<lambda>c k loc w. (LIBSPDM_STATUS_SUCCESS, 0x10)),
     lib_check_context = (\<lambda>c w. True),
     lib_init_connection = (\<lambda>c caps w. (LIBSPDM_STATUS_SUCCESS, w)),
     lib_get_digest = (\<lambda>c w. ((LIBSPDM_STATUS_SUCCESS, 1, replicate 48 0), w)),
     lib_get_certificate =
       (\<lambda>c slot n w. ((LIBSPDM_STATUS_SUCCESS, replicate 36 0 @ [0x30, 0x01, 0x00]), w)),
     lib_get_measurement =
       (\<lambda>c attr op slot n w. ((LIBSPDM_STATUS_SUCCESS, 1, [op, 0xAA]), w)),
     lib_start_session = (\<lambda>c psk hash slot pol w. ((LIBSPDM_STATUS_SUCCESS, 0xFFFFFFFF, 0), w)),
     lib_stop_session = (\<lambda>c i attrs w. (LIBSPDM_STATUS_SUCCESS, w)),
     lib_heartbeat = (\<lambda>c i w. (LIBSPDM_STATUS_SUCCESS, w)),
     lib_key_update = (\<lambda>c i single w. (LIBSPDM_STATUS_SUCCESS, w)),
     lib_send_receive_data = (\<lambda>c i app req n w. ((LIBSPDM_STATUS_SUCCESS, req), w)),
     lib_base_hash_algo = (\<lambda>c w. 1),
     lib_base_asym_algo = (\<lambda>c w. 0x10),
     lib_get_hash_size = (\<lambda>a. 32),
     lib_x509_get_cert_from_cert_chain =
       (\<lambda>chain i. if i = 0 \<and> chain \<noteq> [] then Some chain else None)\<rparr>"

end
