(* ===== verification/Mctp_Helper.thy ===== *)
theory Mctp_Helper
  imports Libspdm_Api
begin

text \<open>
  \<^verbatim>\<open>requester/mctp_helper.hpp\<close>: the two-byte MCTP header (\<open>HeaderType\<close>), the framing of a message
  (\<open>MctpMessageTransport::encode\<close>, \<open>decode\<close>) and the socket (\<open>MctpIoClass\<close>). The answers of the
  system calls are arguments. The interface \<open>message_framing\<close> states what a transport
  promises about its frames; the TCP framing provides it too.
\<close>

section \<open>The header byte\<close>

text \<open>The accessors of \<open>HeaderType\<close>. \<^verbatim>\<open>MCTP_TAG_OWNER\<close> of \<^verbatim>\<open>linux/mctp.h\<close> is \<open>0x08\<close>.\<close>

definition MCTP_TAG_OWNER :: byte where
  "MCTP_TAG_OWNER = 0x08"

definition MCTP_TYPE_SPDM :: byte where
  "MCTP_TYPE_SPDM = 5"

definition mctpTag :: "byte \<Rightarrow> byte" where
  "mctpTag mctpHeader = mctpHeader AND 0x07"

definition set_mctpTag :: "byte \<Rightarrow> byte" where
  "set_mctpTag tag = tag OR 0x08"

definition mctpTO :: "byte \<Rightarrow> bool" where
  "mctpTO mctpHeader \<longleftrightarrow> mctpHeader AND 0x08 \<noteq> 0"

lemma mctpTO_set: "mctpTO (set_mctpTag tag)"
proof -
  have "bit ((tag OR 0x08) AND 0x08 :: byte) 3"
    by (simp add: bit_simps)
  then show ?thesis
    by (metis bit_0_eq bot_apply bot_bool_def mctpTO_def set_mctpTag_def)
qed

lemma mctpTag_set: "mctpTag (set_mctpTag tag) = tag AND 0x07"
  by (simp add: mctpTag_def set_mctpTag_def bit.conj_disj_distrib2)

section \<open>Framing\<close>

locale message_framing =
  fixes enc :: "bytes \<Rightarrow> bytes"
    and dec :: "bytes \<Rightarrow> status \<times> bytes option"
    and fits :: "bytes \<Rightarrow> bool"
    and header_len :: nat
  assumes dec_enc: "fits m \<Longrightarrow> dec (enc m) = (LIBSPDM_STATUS_SUCCESS, Some m)"
    and length_enc: "length (enc m) = header_len + length m"
    and dec_short: "length buf < header_len \<Longrightarrow> dec buf = (LIBSPDM_STATUS_BUFFER_TOO_SMALL, None)"
    and dec_message: "snd (dec buf) = Some m \<Longrightarrow> fst (dec buf) = LIBSPDM_STATUS_SUCCESS \<and>
           header_len + length m \<le> length buf"
begin

lemma enc_inject: "fits m \<Longrightarrow> fits m' \<Longrightarrow> enc m = enc m' \<longleftrightarrow> m = m'"
  by (metis dec_enc option.inject snd_conv)

lemma dec_cases:
  obtains (message) m where "dec buf = (LIBSPDM_STATUS_SUCCESS, Some m)"
      and "header_len + length m \<le> length buf"
  | (nothing) "snd (dec buf) = None"
  using dec_message by (metis not_Some_eq prod.collapse)

lemma dec_enc_header: "header_len \<le> length (enc m)"
  by (simp add: length_enc)

end

definition mctp_header_size :: nat where
  "mctp_header_size = 2"

definition mctp_encode ::
    "memory \<Rightarrow> byte \<Rightarrow> bytes \<Rightarrow> bytes \<Rightarrow> cpp_exception + (status \<times> bytes)" where
  "mctp_encode mem eid buf msg =
     (if \<not> vec_fits mem buf (mctp_header_size + length msg) then Inl Bad_alloc
      else
        (let buf = vec_resize (mctp_header_size + length msg) buf;
             buf = buf[0 := set_mctpTag MCTP_TAG_OWNER];
             buf = buf[1 := eid];
             buf = vec_write mctp_header_size msg buf
         in Inr (LIBSPDM_STATUS_SUCCESS, buf)))"

text \<open>
  \<open>decode\<close> returns the status and, when it stores one, the message behind \<^verbatim>\<open>*message\<close>, which is a new
  block of the heap; \<open>malloc_ok\<close> is the answer of \<^verbatim>\<open>malloc\<close>.
\<close>

definition mctp_decode :: "byte \<Rightarrow> bytes \<Rightarrow> bool \<Rightarrow> heap \<Rightarrow> (status \<times> bytes option) \<times> heap" where
  "mctp_decode eid buf malloc_ok h =
     (if length buf < mctp_header_size then ((LIBSPDM_STATUS_BUFFER_TOO_SMALL, None), h)
      else if buf ! 1 \<noteq> eid then ((LIBSPDM_STATUS_INVALID_MSG_FIELD, None), h)
      else
        (case malloc malloc_ok h of
           (None, h) \<Rightarrow> ((LIBSPDM_STATUS_BUFFER_FULL, None), h)
         | (Some p, h) \<Rightarrow> ((LIBSPDM_STATUS_SUCCESS, Some (drop mctp_header_size buf)), h)))"

lemma mctp_encode_bytes [frame_simps]:
  "mctp_encode mem eid buf msg =
     (if vec_fits mem buf (2 + length msg) then Inr (LIBSPDM_STATUS_SUCCESS, [0x08, eid] @ msg)
      else Inl Bad_alloc)"
proof -
  define b where "b = vec_resize (2 + length msg) buf"
  have "length b = 2 + length msg"
    by (simp add: b_def)
  then obtain x y zs where b: "b = x # y # zs" and zs: "length zs = length msg"
    by (cases b; cases "tl b") auto
  show ?thesis
    unfolding mctp_encode_def mctp_header_size_def Let_def b_def [symmetric]
    by (simp add: b zs vec_write_def set_mctpTag_def MCTP_TAG_OWNER_def)
qed

interpretation mctp_frame: message_framing
  "\<lambda>m. snd (projr (mctp_encode plenty eid [] m))" "\<lambda>buf. fst (mctp_decode eid buf True h)" "\<lambda>m. True" 2
  for eid h
  by unfold_locales
    (auto simp: frame_simps mctp_decode_def mctp_header_size_def malloc_works split: if_splits)

section \<open>The socket\<close>

text \<open>
  \<open>MctpIoClass\<close> holds one descriptor, \<open>-1\<close> when closed. \<open>createSocket\<close> takes the answers of
  \<^verbatim>\<open>socket\<close> and \<^verbatim>\<open>bind\<close>.
\<close>

record mctp_io =
  mctpSocketFd :: int

definition mctp_io_init :: mctp_io where
  "mctp_io_init = \<lparr>mctpSocketFd = -1\<rparr>"

definition mctp_isSocketOpen :: "mctp_io \<Rightarrow> bool" where
  "mctp_isSocketOpen io \<longleftrightarrow> 0 \<le> mctpSocketFd io"

definition mctp_createSocket ::
    "int \<Rightarrow> int \<Rightarrow> mctp_io \<Rightarrow> kernel \<Rightarrow> bool \<times> mctp_io \<times> kernel" where
  "mctp_createSocket socket_ret bind_ret io k =
     (if mctp_isSocketOpen io then (True, io, k)
      else
        (let io = io\<lparr>mctpSocketFd := socket_ret\<rparr> in
         if socket_ret < 0 then (False, io, k)
         else
           (let k = fd_open socket_ret k in
            if bind_ret < 0 then (False, io\<lparr>mctpSocketFd := -1\<rparr>, fd_close socket_ret k)
            else (True, io, k))))"

definition mctp_deleteSocket :: "mctp_io \<Rightarrow> kernel \<Rightarrow> mctp_io \<times> kernel" where
  "mctp_deleteSocket io k =
     (if 0 \<le> mctpSocketFd io then (io\<lparr>mctpSocketFd := -1\<rparr>, fd_close (mctpSocketFd io) k)
      else (io, k))"

text \<open>The destructor.\<close>

definition mctp_io_destroy :: "mctp_io \<Rightarrow> kernel \<Rightarrow> mctp_io \<times> kernel" where
  "mctp_io_destroy io k = (if mctp_isSocketOpen io then mctp_deleteSocket io k else (io, k))"

text \<open>
  \<open>writeToSocket\<close> hands \<^verbatim>\<open>sendto\<close> the range of \<^verbatim>\<open>buf.size() - 3\<close> bytes at \<^verbatim>\<open>buf.data() + 3\<close>. The
  subtraction is on \<^verbatim>\<open>size_t\<close>, so it wraps below three bytes, and the range then leaves the
  buffer: \<open>OutOfBounds\<close>. Otherwise the datagram goes out, unless \<^verbatim>\<open>sendto\<close> fails.
\<close>

datatype mem_error = OutOfBounds

record mctp_datagram =
  dg_eid :: byte
  dg_type :: byte
  dg_tag :: byte
  dg_payload :: bytes

definition mctp_sendto_len :: "bytes \<Rightarrow> u64" where
  "mctp_sendto_len buf = word_of_nat (length buf) - 3"

definition mctp_writeToSocket ::
    "int \<Rightarrow> mctp_io \<Rightarrow> bytes \<Rightarrow> mem_error + (status \<times> mctp_datagram option)" where
  "mctp_writeToSocket sendto_ret io buf =
     (if \<not> mctp_isSocketOpen io then Inr (LIBSPDM_STATUS_SEND_FAIL, None)
      else
        (let eid = (if length buf > 1 then buf ! 1 else 0);
             len = unat (mctp_sendto_len buf) in
         if length buf < 3 + len then Inl OutOfBounds
         else if sendto_ret < 0 then Inr (LIBSPDM_STATUS_SEND_FAIL, None)
         else Inr (LIBSPDM_STATUS_SUCCESS,
                Some \<lparr>dg_eid = eid, dg_type = MCTP_TYPE_SPDM, dg_tag = MCTP_TAG_OWNER,
                      dg_payload = take len (drop 3 buf)\<rparr>)))"

text \<open>
  \<open>readFromSocket\<close> peeks for the length, resizes the buffer and receives into it; then it puts
  three bytes in front: a header byte, the sender's endpoint and the message type, from a vector of
  three \<^verbatim>\<open>int\<close>. The answers, one record for each datagram the peek finds: the peeked length, the result
  of \<^verbatim>\<open>recvfrom\<close>, the datagram it took from the queue and the address of its sender. A peek alone takes
  nothing from the queue. The socket is a blocking one: with no answer left the peek is still
  waiting, \<open>None\<close>.
\<close>

record mctp_recv =
  peek_ret :: int
  recvfrom_ret :: int
  recvfrom_data :: bytes
  recvfrom_addr :: byte

definition mctp_readFromSocket ::
    "memory \<Rightarrow> mctp_io \<Rightarrow> bytes \<Rightarrow> mctp_recv list
     \<Rightarrow> ((cpp_exception + status) \<times> bytes \<times> mctp_recv list) option"
where
  "mctp_readFromSocket mem io buf rs =
     (if \<not> mctp_isSocketOpen io then Some (Inr LIBSPDM_STATUS_RECEIVE_FAIL, buf, rs)
      else
        (case rs of
           [] \<Rightarrow> None
         | r # rs' \<Rightarrow>
             if peek_ret r < 0 then Some (Inr LIBSPDM_STATUS_RECEIVE_FAIL, buf, rs')
             else if \<not> vec_fits mem buf (nat (peek_ret r)) then Some (Inl Bad_alloc, buf, rs)
             else
               (let buf = vec_resize (nat (peek_ret r)) buf;
                    failed = (recvfrom_ret r = -1);
                    buf = (if failed then buf
                           else vec_write 0 (take (length buf) (recvfrom_data r)) buf);
                    addr = (if failed then 0 else recvfrom_addr r) in
                if \<not> mem 12 \<or> \<not> vec_fits mem buf (length buf + 3)
                then Some (Inl Bad_alloc, buf, rs')
                else
                  (let buf = [1, addr, MCTP_TYPE_SPDM] @ buf in
                   if failed then Some (Inr LIBSPDM_STATUS_RECEIVE_FAIL, buf, rs')
                   else Some (Inr LIBSPDM_STATUS_SUCCESS, buf, rs')))))"

text \<open>The interface of \<open>IOClass\<close>: both ignore the timeout they are given.\<close>

definition mctp_write ::
    "int \<Rightarrow> u64 \<Rightarrow> mctp_io \<Rightarrow> bytes \<Rightarrow> mem_error + (status \<times> mctp_datagram option)" where
  "mctp_write sendto_ret timeout io buf = mctp_writeToSocket sendto_ret io buf"

definition mctp_read ::
    "memory \<Rightarrow> u64 \<Rightarrow> mctp_io \<Rightarrow> bytes \<Rightarrow> mctp_recv list
     \<Rightarrow> ((cpp_exception + status) \<times> bytes \<times> mctp_recv list) option"
where
  "mctp_read mem timeout io buf rs = mctp_readFromSocket mem io buf rs"

text \<open>What Linux promises of a datagram socket: both calls answer with the length of the
  datagram at the head of the queue.\<close>

definition mctp_recv_ok :: "mctp_recv \<Rightarrow> bool" where
  "mctp_recv_ok r \<longleftrightarrow>
     peek_ret r = int (length (recvfrom_data r)) \<and> recvfrom_ret r = int (length (recvfrom_data r))"

lemma mctp_sendto_len_fits:
  "3 \<le> length buf \<Longrightarrow> length buf < 2 ^ 64 \<Longrightarrow> unat (mctp_sendto_len buf) = length buf - 3"
  unfolding mctp_sendto_len_def
  by (subst unat_sub) (simp_all add: word_le_nat_alt unat_of_nat)

lemma mctp_sendto_len_wraps:
  assumes "length buf < 3"
  shows "length buf < 3 + unat (mctp_sendto_len buf)"
proof -
  from assms consider "length buf = 0" | "length buf = 1" | "length buf = 2"
    by linarith
  then show ?thesis
    by cases (simp_all add: mctp_sendto_len_def)
qed

end
