(* ===== verification/Tcp_Helper.thy ===== *)
theory Tcp_Helper
  imports Mctp_Helper
begin

text \<open>
  \<^verbatim>\<open>requester/tcp_helper.hpp\<close>: the platform header of spdm-emu (three 32-bit fields in network
  byte order), \<open>TcpMessageTransport::encode\<close> and \<open>decode\<close>, and \<open>TcpIoClass\<close>: connecting with a
  timeout, the socket timeouts, the sending loop and the two receiving loops. What the system
  calls answer is an argument: one record for \<open>createSocket\<close>, a list of events, in the order
  in which the calls return them, for the loops. A loop that is still waiting when the list ends
  has the result \<open>None\<close>.
\<close>

section \<open>The platform header\<close>

datatype PlatformCommand = Normal | Stop | Shutdown

fun PlatformCommand_value :: "PlatformCommand \<Rightarrow> u32" where
  "PlatformCommand_value Normal = 0x0001"
| "PlatformCommand_value Stop = 0xFFFE"
| "PlatformCommand_value Shutdown = 0xFFFF"

datatype PlatformTransportType = Transport_None | Transport_MCTP | Transport_PCI_DOE | Transport_TCP

fun PlatformTransportType_value :: "PlatformTransportType \<Rightarrow> u32" where
  "PlatformTransportType_value Transport_None = 0x00"
| "PlatformTransportType_value Transport_MCTP = 0x01"
| "PlatformTransportType_value Transport_PCI_DOE = 0x02"
| "PlatformTransportType_value Transport_TCP = 0x03"

definition tcpMaxMessageSize :: nat where
  "tcpMaxMessageSize = 65536"

definition platformHeaderSize :: nat where
  "platformHeaderSize = 12"

definition tcp_encode :: "memory \<Rightarrow> bytes \<Rightarrow> bytes \<Rightarrow> cpp_exception + (status \<times> bytes)" where
  "tcp_encode mem buf msg =
     (if \<not> vec_fits mem buf (platformHeaderSize + length msg) then Inl Bad_alloc
      else
        (let buf = vec_resize (platformHeaderSize + length msg) buf;
             command = PlatformCommand_value Normal;
             transportType = PlatformTransportType_value Transport_TCP;
             size = word_of_nat (length msg) :: u32;
             buf = vec_write 0 (be32_bytes command) buf;
             buf = vec_write 4 (be32_bytes transportType) buf;
             buf = vec_write 8 (be32_bytes size) buf;
             buf = vec_write platformHeaderSize msg buf
         in Inr (LIBSPDM_STATUS_SUCCESS, buf)))"

definition tcp_decode :: "bytes \<Rightarrow> bool \<Rightarrow> heap \<Rightarrow> (status \<times> bytes option) \<times> heap" where
  "tcp_decode buf malloc_ok h =
     (if length buf < platformHeaderSize then ((LIBSPDM_STATUS_BUFFER_TOO_SMALL, None), h)
      else
        (let headerTransportType = be32_at 4 buf;
             headerSize = be32_at 8 buf in
         if headerTransportType \<noteq> PlatformTransportType_value Transport_TCP
         then ((LIBSPDM_STATUS_INVALID_MSG_FIELD, None), h)
         else if length buf < platformHeaderSize + unat headerSize
         then ((LIBSPDM_STATUS_BUFFER_TOO_SMALL, None), h)
         else
           (case malloc malloc_ok h of
              (None, h) \<Rightarrow> ((LIBSPDM_STATUS_BUFFER_FULL, None), h)
            | (Some p, h) \<Rightarrow>
                ((LIBSPDM_STATUS_SUCCESS,
                  Some (take (unat headerSize) (drop platformHeaderSize buf))), h))))"

text \<open>The frame of a message: what \<open>tcp_encode\<close> leaves in the buffer.\<close>

definition tcp_frame_of :: "bytes \<Rightarrow> bytes" where
  "tcp_frame_of msg =
     be32_bytes (PlatformCommand_value Normal) @
     be32_bytes (PlatformTransportType_value Transport_TCP) @
     be32_bytes (word_of_nat (length msg)) @ msg"

lemma vec_write_next:
  "length pre = pos \<Longrightarrow> pos + length xs \<le> length (pre @ rest) \<Longrightarrow>
   vec_write pos xs (pre @ rest) = (pre @ xs) @ drop (length xs) rest"
  by (simp add: vec_write_def)

lemma tcp_encode_bytes [frame_simps]:
  "tcp_encode mem buf msg =
     (if vec_fits mem buf (12 + length msg) then Inr (LIBSPDM_STATUS_SUCCESS, tcp_frame_of msg)
      else Inl Bad_alloc)"
proof -
  define b where "b = vec_resize (platformHeaderSize + length msg) buf"
  have len: "length b = 12 + length msg"
    by (simp add: b_def platformHeaderSize_def)
  let ?c = "be32_bytes (PlatformCommand_value Normal)"
  let ?t = "be32_bytes (PlatformTransportType_value Transport_TCP)"
  let ?s = "be32_bytes (word_of_nat (length msg))"
  have 1: "vec_write 0 ?c b = ?c @ drop 4 b"
    using len by (simp add: vec_write_def)
  have 2: "vec_write 4 ?t (?c @ drop 4 b) = (?c @ ?t) @ drop 8 b"
    using len by (subst vec_write_next) simp_all
  have 3: "vec_write 8 ?s ((?c @ ?t) @ drop 8 b) = ((?c @ ?t) @ ?s) @ drop 12 b"
    using len by (subst vec_write_next) simp_all
  have 4: "vec_write 12 msg (((?c @ ?t) @ ?s) @ drop 12 b) = (((?c @ ?t) @ ?s) @ msg) @ []"
    using len by (subst vec_write_next) simp_all
  show ?thesis
    unfolding tcp_encode_def Let_def b_def [symmetric] 1 2 3
    by (simp add: platformHeaderSize_def tcp_frame_of_def 4 [simplified])
qed

lemma tcp_frame_fields:
  "length (tcp_frame_of msg) = 12 + length msg"
  "be32_at 0 (tcp_frame_of msg @ rest) = PlatformCommand_value Normal"
  "be32_at 4 (tcp_frame_of msg @ rest) = PlatformTransportType_value Transport_TCP"
  "be32_at 8 (tcp_frame_of msg @ rest) = word_of_nat (length msg)"
  "drop 12 (tcp_frame_of msg) = msg"
  by (simp_all add: tcp_frame_of_def be32_at_skip del: PlatformCommand_value.simps
        PlatformTransportType_value.simps)

lemma tcp_decode_frame [frame_simps]:
  "length msg < 2 ^ 32 \<Longrightarrow>
   tcp_decode (tcp_frame_of msg @ rest) True h =
     ((LIBSPDM_STATUS_SUCCESS, Some msg), snd (malloc True h))"
  by (simp add: tcp_decode_def malloc_works tcp_frame_fields platformHeaderSize_def unat_of_nat Let_def)

interpretation tcp_frame: message_framing
  "\<lambda>m. snd (projr (tcp_encode plenty [] m))" "\<lambda>buf. fst (tcp_decode buf True h)" "\<lambda>m. length m < 2 ^ 32" 12
  for h
proof unfold_locales
  fix m :: bytes
  assume "length m < 2 ^ 32"
  then show "fst (tcp_decode (snd (projr (tcp_encode plenty [] m))) True h) = (LIBSPDM_STATUS_SUCCESS, Some m)"
    using tcp_decode_frame [of m "[]" h] by (simp add: frame_simps)
next
  fix buf m
  assume "snd (fst (tcp_decode buf True h)) = Some m"
  then show "fst (fst (tcp_decode buf True h)) = LIBSPDM_STATUS_SUCCESS \<and> 12 + length m \<le> length buf"
    by (auto simp: tcp_decode_def platformHeaderSize_def malloc_works Let_def split: if_splits)
qed (simp_all add: frame_simps tcp_frame_fields tcp_decode_def platformHeaderSize_def)

end
