(* ===== verification/Tcp_Io.thy ===== *)
theory Tcp_Io
  imports Tcp_Helper
begin

text \<open>
  \<open>TcpIoClass\<close> of \<^verbatim>\<open>requester/tcp_helper.hpp\<close>: connecting, timeouts, the sending loop, the two
  receiving loops, and what they guarantee of the byte stream: the peer gets a prefix of the
  buffer, all of it on success; a read returns exactly one frame, however the kernel cut the
  stream, and leaves the rest for the next read.
\<close>

section \<open>Connecting\<close>

record tcp_io =
  tcpIpAddr :: string
  tcpPort :: u16
  tcpSocketFd :: int

definition tcp_io_init :: "string \<Rightarrow> u16 \<Rightarrow> tcp_io" where
  "tcp_io_init ip p = \<lparr>tcpIpAddr = ip, tcpPort = p, tcpSocketFd = -1\<rparr>"

definition tcp_isSocketOpen :: "tcp_io \<Rightarrow> bool" where
  "tcp_isSocketOpen io \<longleftrightarrow> 0 \<le> tcpSocketFd io"

text \<open>
  The answers of the system calls of \<open>createSocket\<close>, in its order: \<^verbatim>\<open>socket\<close>, \<^verbatim>\<open>fcntl(F_GETFL)\<close>,
  \<^verbatim>\<open>inet_pton\<close>, \<^verbatim>\<open>connect\<close> with its \<^verbatim>\<open>errno\<close>, \<^verbatim>\<open>poll\<close>, \<^verbatim>\<open>getsockopt(SO_ERROR)\<close> with the error it
  stores. (That of \<^verbatim>\<open>setsockopt(TCP_NODELAY)\<close> only decides about a log line.)
\<close>

record tcp_connect =
  socket_ret :: int
  getfl_ret :: int
  pton_ret :: int
  connect_ret :: int
  connect_errno :: errno
  poll_ret :: int
  getsockopt_ret :: int
  so_error :: int

definition fd_set_nonblocking :: "bool \<Rightarrow> int \<Rightarrow> kernel \<Rightarrow> kernel" where
  "fd_set_nonblocking b fd k =
     (if b then k\<lparr>nonblocking := insert fd (nonblocking k)\<rparr>
      else k\<lparr>nonblocking := nonblocking k - {fd}\<rparr>)"

definition tcp_closeSocket :: "tcp_io \<Rightarrow> kernel \<Rightarrow> tcp_io \<times> kernel" where
  "tcp_closeSocket io k =
     (if 0 \<le> tcpSocketFd io then (io\<lparr>tcpSocketFd := -1\<rparr>, fd_close (tcpSocketFd io) k)
      else (io, k))"

text \<open>The destructor.\<close>

definition tcp_io_destroy :: "tcp_io \<Rightarrow> kernel \<Rightarrow> tcp_io \<times> kernel" where
  "tcp_io_destroy io k = (if tcp_isSocketOpen io then tcp_closeSocket io k else (io, k))"

definition tcp_createSocket :: "tcp_connect \<Rightarrow> tcp_io \<Rightarrow> kernel \<Rightarrow> bool \<times> tcp_io \<times> kernel" where
  "tcp_createSocket e io k =
     (if tcp_isSocketOpen io then (True, io, k)
      else
        (let fd = socket_ret e; io = io\<lparr>tcpSocketFd := fd\<rparr> in
         if fd < 0 then (False, io, k)
         else
           (let k = fd_open fd k;
                k = (if 0 \<le> getfl_ret e then fd_set_nonblocking True fd k else k);
                failed = (False, io\<lparr>tcpSocketFd := -1\<rparr>, fd_close fd k);
                connected =
                  (True, io, if 0 \<le> getfl_ret e then fd_set_nonblocking False fd k else k) in
            if pton_ret e \<le> 0 then failed
            else if connect_ret e < 0 then
              (if connect_errno e = EINPROGRESS then
                 (if poll_ret e \<le> 0 then failed
                  else if getsockopt_ret e < 0 \<or> so_error e \<noteq> 0 then failed
                  else connected)
               else failed)
            else connected)))"

section \<open>Timeouts\<close>

definition timeoutUsInfinite :: u64 where
  "timeoutUsInfinite = - 1"

definition minSocketTimeoutUs :: u64 where
  "minSocketTimeoutUs = 5000000"

record timeval =
  tv_sec :: u64
  tv_usec :: u64

definition socket_timeval :: "u64 \<Rightarrow> timeval" where
  "socket_timeval timeout =
     (let timeout =
        (if timeout = timeoutUsInfinite then 0
         else if 0 < timeout \<and> timeout < minSocketTimeoutUs then minSocketTimeoutUs
         else timeout)
      in \<lparr>tv_sec = timeout div 1000000, tv_usec = timeout mod 1000000\<rparr>)"

text \<open>
  What the kernel keeps of the connection for waiting, \<^verbatim>\<open>SO_RCVTIMEO\<close> and \<^verbatim>\<open>SO_SNDTIMEO\<close>, and what its two
  calls of \<^verbatim>\<open>setsockopt\<close> answer. The second is made only after the first succeeded.
\<close>

record sock_opts =
  so_rcvtimeo :: timeval
  so_sndtimeo :: timeval

record timeout_calls =
  rcvtimeo_ret :: int
  sndtimeo_ret :: int

text \<open>A new socket waits for ever.\<close>

definition no_timeouts :: sock_opts where
  "no_timeouts =
     \<lparr>so_rcvtimeo = \<lparr>tv_sec = 0, tv_usec = 0\<rparr>, so_sndtimeo = \<lparr>tv_sec = 0, tv_usec = 0\<rparr>\<rparr>"

definition tcp_setSocketTimeout ::
    "timeout_calls \<Rightarrow> tcp_io \<Rightarrow> u64 \<Rightarrow> 'a sock_opts_scheme \<Rightarrow> bool \<times> 'a sock_opts_scheme" where
  "tcp_setSocketTimeout c io timeout so =
     (if \<not> tcp_isSocketOpen io then (False, so)
      else
        (let tv = socket_timeval timeout in
         if rcvtimeo_ret c < 0 then (False, so)
         else
           (let so = so\<lparr>so_rcvtimeo := tv\<rparr> in
            if sndtimeo_ret c < 0 then (False, so)
            else (True, so\<lparr>so_sndtimeo := tv\<rparr>))))"

section \<open>Sending\<close>

text \<open>One event per return of \<^verbatim>\<open>send\<close>.\<close>

datatype send_event = Sent nat | SendErr errno

fun tcp_send_loop ::
    "bytes \<Rightarrow> nat \<Rightarrow> bytes \<Rightarrow> send_event list \<Rightarrow> (status \<times> bytes \<times> send_event list) option" where
  "tcp_send_loop buf totalSent wire [] =
     (if totalSent < length buf then None else Some (LIBSPDM_STATUS_SUCCESS, wire, []))"
| "tcp_send_loop buf totalSent wire (e # es) =
     (if totalSent < length buf then
        (case e of
           SendErr err \<Rightarrow>
             if err = EINTR then tcp_send_loop buf totalSent wire es
             else Some (LIBSPDM_STATUS_SEND_FAIL, wire, es)
         | Sent n \<Rightarrow>
             if n = 0 then Some (LIBSPDM_STATUS_SEND_FAIL, wire, es)
             else tcp_send_loop buf (totalSent + n) (wire @ take n (drop totalSent buf)) es)
      else Some (LIBSPDM_STATUS_SUCCESS, wire, e # es))"

text \<open>
  \<open>write\<close> and \<open>read\<close> set the timeouts first and go on whatever comes of it. They give the options of
  the socket and, once they have returned, their result.
\<close>

definition tcp_write ::
    "timeout_calls \<Rightarrow> u64 \<Rightarrow> tcp_io \<Rightarrow> bytes \<Rightarrow> 'a sock_opts_scheme \<Rightarrow> send_event list
     \<Rightarrow> 'a sock_opts_scheme \<times> (status \<times> bytes \<times> send_event list) option"
where
  "tcp_write c timeout io buf so es =
     (if \<not> tcp_isSocketOpen io then (so, Some (LIBSPDM_STATUS_SEND_FAIL, [], es))
      else
        (let (_, so) = tcp_setSocketTimeout c io timeout so
         in (so, tcp_send_loop buf 0 [] es)))"

section \<open>Receiving\<close>

text \<open>
  One event per return of \<^verbatim>\<open>recv\<close>: a run of bytes of the stream, an error, or the end of the
  connection. A run longer than the call asked for is delivered in part; the rest stays queued.
  (A timeout, \<^verbatim>\<open>EAGAIN\<close> or \<^verbatim>\<open>EWOULDBLOCK\<close>, and any other error end the loop the same way; they
  differ in the log only.)
\<close>

datatype recv_event = RecvData bytes | RecvErr errno | RecvClosed

fun tcp_recv_loop ::
    "nat \<Rightarrow> bytes \<Rightarrow> recv_event list \<Rightarrow> (bool \<times> bytes \<times> recv_event list) option" where
  "tcp_recv_loop want got [] =
     (if length got < want then None else Some (True, got, []))"
| "tcp_recv_loop want got (e # es) =
     (if length got < want then
        (case e of
           RecvErr err \<Rightarrow>
             if err = EINTR then tcp_recv_loop want got es
             else Some (False, got, es)
         | RecvClosed \<Rightarrow> Some (False, got, es)
         | RecvData bs \<Rightarrow>
             if bs = [] then Some (False, got, es)
             else if length bs \<le> want - length got then tcp_recv_loop want (got @ bs) es
             else Some (True, got @ take (want - length got) bs,
                        RecvData (drop (want - length got) bs) # es))
      else Some (True, got, e # es))"

text \<open>
  \<open>read\<close> after the timeouts are set: the header, the length check, the buffer for the whole message,
  the payload.
\<close>

definition tcp_read_frame_bytes ::
    "memory \<Rightarrow> bytes \<Rightarrow> recv_event list \<Rightarrow> ((cpp_exception + status) \<times> bytes \<times> recv_event list) option"
where
  "tcp_read_frame_bytes mem buf es =
     (case tcp_recv_loop platformHeaderSize [] es of
        None \<Rightarrow> None
      | Some (False, headerBuf, es) \<Rightarrow> Some (Inr LIBSPDM_STATUS_RECEIVE_FAIL, buf, es)
      | Some (True, headerBuf, es) \<Rightarrow>
          (let msgLen = unat (be32_at 8 headerBuf) in
           if tcpMaxMessageSize < msgLen then Some (Inr LIBSPDM_STATUS_RECEIVE_FAIL, buf, es)
           else if \<not> vec_fits mem buf (platformHeaderSize + msgLen) then Some (Inl Bad_alloc, buf, es)
           else
             (let buf = vec_resize (platformHeaderSize + msgLen) buf;
                  buf = vec_write 0 headerBuf buf in
              case tcp_recv_loop msgLen [] es of
                None \<Rightarrow> None
              | Some (ok, payload, es) \<Rightarrow>
                  (let buf = vec_write platformHeaderSize payload buf in
                   Some (Inr (if ok then LIBSPDM_STATUS_SUCCESS else LIBSPDM_STATUS_RECEIVE_FAIL),
                         buf, es)))))"

definition tcp_read ::
    "memory \<Rightarrow> timeout_calls \<Rightarrow> u64 \<Rightarrow> tcp_io \<Rightarrow> bytes \<Rightarrow> 'a sock_opts_scheme \<Rightarrow> recv_event list
     \<Rightarrow> 'a sock_opts_scheme \<times> ((cpp_exception + status) \<times> bytes \<times> recv_event list) option"
where
  "tcp_read mem c timeout io buf so es =
     (if \<not> tcp_isSocketOpen io then (so, Some (Inr LIBSPDM_STATUS_RECEIVE_FAIL, buf, es))
      else
        (let (_, so) = tcp_setSocketTimeout c io timeout so
         in (so, tcp_read_frame_bytes mem buf es)))"

lemma tcp_write_result [simp]:
  "snd (tcp_write c timeout io buf so es) =
     (if tcp_isSocketOpen io then tcp_send_loop buf 0 [] es
      else Some (LIBSPDM_STATUS_SEND_FAIL, [], es))"
  by (simp add: tcp_write_def split_beta)

lemma tcp_read_result [simp]:
  "snd (tcp_read mem c timeout io buf so es) =
     (if tcp_isSocketOpen io then tcp_read_frame_bytes mem buf es
      else Some (Inr LIBSPDM_STATUS_RECEIVE_FAIL, buf, es))"
  by (simp add: tcp_read_def split_beta)

lemma tcp_timeouts_result [simp]:
  "fst (tcp_write c timeout io buf so es) = snd (tcp_setSocketTimeout c io timeout so)"
  "fst (tcp_read mem c timeout io buf so rs) = snd (tcp_setSocketTimeout c io timeout so)"
  by (simp_all add: tcp_write_def tcp_read_def tcp_setSocketTimeout_def split_beta)

section \<open>What the sending loop guarantees\<close>

lemma tcp_send_loop_prefix:
  "tcp_send_loop buf n (take n buf) es = Some (st, wire, es') \<Longrightarrow>
   (st = LIBSPDM_STATUS_SUCCESS \<and> wire = buf) \<or>
   (st = LIBSPDM_STATUS_SEND_FAIL \<and> (\<exists>k < length buf. wire = take k buf))"
proof (induction es arbitrary: n)
  case Nil
  then show ?case
    by (auto split: if_splits)
next
  case (Cons e es)
  show ?case
  proof (cases e)
    case (SendErr err)
    with Cons show ?thesis
      by (auto split: if_splits)
  next
    case (Sent m)
    have "take n buf @ take m (drop n buf) = take (n + m) buf"
      by (simp add: take_add)
    with Cons Sent show ?thesis
      by (auto split: if_splits)
  qed
qed

text \<open>
  Progress: every successful \<^verbatim>\<open>send\<close> takes at least one byte, so the loop returns once the kernel
  answered as often as the buffer has bytes, interruptions not counted.
\<close>

definition send_answers :: "send_event list \<Rightarrow> nat" where
  "send_answers es = length (filter (\<lambda>e. e \<noteq> SendErr EINTR) es)"

lemma tcp_send_loop_returns:
  "length buf \<le> n + send_answers es \<Longrightarrow> tcp_send_loop buf n wire es \<noteq> None"
proof (induction es arbitrary: n wire)
  case (Cons e es)
  then show ?case
    by (cases e) (auto simp: send_answers_def split: if_splits)
qed (simp add: send_answers_def)

section \<open>What the receiving loop guarantees\<close>

text \<open>The bytes still to come, and the events of an undisturbed stream.\<close>

fun stream_of :: "recv_event list \<Rightarrow> bytes" where
  "stream_of [] = []"
| "stream_of (RecvData bs # es) = bs @ stream_of es"
| "stream_of (e # es) = stream_of es"

fun undisturbed :: "recv_event \<Rightarrow> bool" where
  "undisturbed (RecvData bs) = (bs \<noteq> [])"
| "undisturbed (RecvErr err) = (err = EINTR)"
| "undisturbed RecvClosed = False"

lemma stream_of_append [simp]: "stream_of (es @ es') = stream_of es @ stream_of es'"
  by (induction es rule: stream_of.induct) simp_all

lemma tcp_recv_loop_length:
  "tcp_recv_loop want got es = Some (ok, got', es') \<Longrightarrow> length got \<le> want \<Longrightarrow>
   length got' \<le> want \<and> (ok \<longleftrightarrow> length got' = want)"
proof (induction es arbitrary: got)
  case (Cons e es)
  then show ?case
    by (cases e) (auto split: if_splits)
qed (auto split: if_splits)

lemma tcp_recv_loop_stream:
  "\<lbrakk>list_all undisturbed es; length got \<le> want; want \<le> length got + length (stream_of es)\<rbrakk> \<Longrightarrow>
   \<exists>es'. tcp_recv_loop want got es = Some (True, got @ take (want - length got) (stream_of es), es') \<and>
         list_all undisturbed es' \<and> stream_of es' = drop (want - length got) (stream_of es)"
proof (induction es arbitrary: got)
  case (Cons e es)
  show ?case
  proof (cases e)
    case (RecvData bs)
    show ?thesis
    proof (cases "length got < want \<and> length bs \<le> want - length got")
      case True
      then have "length (got @ bs) \<le> want"
        by auto
      with Cons.prems RecvData obtain es' where
        "tcp_recv_loop want (got @ bs) es =
           Some (True, (got @ bs) @ take (want - length (got @ bs)) (stream_of es), es')"
        "list_all undisturbed es'" "stream_of es' = drop (want - length (got @ bs)) (stream_of es)"
        using Cons.IH [of "got @ bs"] by auto
      with True Cons.prems RecvData show ?thesis
        by auto
    next
      case False
      with Cons.prems RecvData show ?thesis
        by auto
    qed
  next
    case (RecvErr err)
    with Cons show ?thesis
      by auto
  qed (use Cons.prems in auto)
qed auto

text \<open>Whatever the events, the loop takes from the front of the stream and loses nothing.\<close>

lemma tcp_recv_loop_conserves:
  "tcp_recv_loop want got es = Some (ok, got', es') \<Longrightarrow>
   got' @ stream_of es' = got @ stream_of es"
proof (induction es arbitrary: got)
  case (Cons e es)
  then show ?case
    by (cases e) (auto split: if_splits)
qed (auto split: if_splits)

text \<open>A complete run does not look at later events; a run that an error cuts short leaves them all.\<close>

lemma tcp_recv_loop_append:
  "tcp_recv_loop want got es = Some (True, got', es') \<Longrightarrow>
   tcp_recv_loop want got (es @ later) = Some (True, got', es' @ later)"
proof (induction es arbitrary: got)
  case Nil
  then show ?case
    by (cases later) (auto split: if_splits)
next
  case (Cons e es)
  then show ?case
    by (cases e) (auto split: if_splits)
qed

lemma tcp_recv_loop_cut:
  "list_all undisturbed es \<Longrightarrow> length got + length (stream_of es) < want \<Longrightarrow> err \<noteq> EINTR \<Longrightarrow>
   tcp_recv_loop want got (es @ RecvErr err # later) = Some (False, got @ stream_of es, later)"
proof (induction es arbitrary: got)
  case (Cons e es)
  then show ?case
    by (cases e) auto
qed simp

lemma tcp_read_frame_cut:
  assumes "list_all undisturbed es" and part: "stream_of es = take k frame" "k < length frame"
    and frame: "length frame = platformHeaderSize + unat (be32_at 8 frame)"
      "unat (be32_at 8 frame) \<le> tcpMaxMessageSize" and "err \<noteq> EINTR"
  shows "\<exists>buf'. tcp_read_frame_bytes plenty buf (es @ RecvErr err # later) =
    Some (Inr LIBSPDM_STATUS_RECEIVE_FAIL, buf', later)"
proof (cases "k < platformHeaderSize")
  case True
  with part have "length (stream_of es) < platformHeaderSize"
    by simp
  with tcp_recv_loop_cut [OF assms(1) _ assms(6), of "[]" platformHeaderSize later] show ?thesis
    by (simp add: tcp_read_frame_bytes_def)
next
  case False
  with part have long: "platformHeaderSize \<le> length (stream_of es)" "length (stream_of es) = k"
    by simp_all
  from tcp_recv_loop_stream [OF assms(1), of "[]" platformHeaderSize] long obtain es1 where
    head: "tcp_recv_loop platformHeaderSize [] es = Some (True, take platformHeaderSize (stream_of es), es1)"
    and es1: "list_all undisturbed es1" "stream_of es1 = drop platformHeaderSize (stream_of es)"
    by auto
  have size: "be32_at 8 (take platformHeaderSize (stream_of es)) = be32_at 8 frame"
    using False part by (simp add: be32_at_def platformHeaderSize_def min_def)
  have "length (stream_of es1) < unat (be32_at 8 frame)"
    using es1(2) long part(2) frame(1) False by simp
  with tcp_recv_loop_cut [OF es1(1) _ assms(6), of "[]" "unat (be32_at 8 frame)" later] tcp_recv_loop_append [OF head]
  show ?thesis
    using frame(2) by (simp add: tcp_read_frame_bytes_def size Let_def)
qed

section \<open>What a read returns\<close>

lemma tcp_read_success:
  assumes "snd (tcp_read mem c timeout io buf so es) = Some (Inr LIBSPDM_STATUS_SUCCESS, buf', es')"
  shows "length buf' = platformHeaderSize + unat (be32_at 8 buf') \<and>
         unat (be32_at 8 buf') \<le> tcpMaxMessageSize \<and> stream_of es = buf' @ stream_of es'"
proof -
  from assms obtain h es1 p where
    h: "tcp_recv_loop platformHeaderSize [] es = Some (True, h, es1)"
    and small: "unat (be32_at 8 h) \<le> tcpMaxMessageSize"
    and p: "tcp_recv_loop (unat (be32_at 8 h)) [] es1 = Some (True, p, es')"
    and buf': "buf' = vec_write platformHeaderSize p
                 (vec_write 0 h (vec_resize (platformHeaderSize + unat (be32_at 8 h)) buf))"
    by (auto simp: tcp_read_frame_bytes_def Let_def split: if_splits option.splits prod.splits bool.splits)
  have lh: "length h = platformHeaderSize"
    using tcp_recv_loop_length [OF h] by simp
  have lp: "length p = unat (be32_at 8 h)"
    using tcp_recv_loop_length [OF p] by simp
  have frame: "buf' = h @ p"
    using lh lp by (simp add: buf' vec_write_def)
  moreover have "be32_at 8 buf' = be32_at 8 h"
    using lh by (simp add: frame be32_at_def nth_append platformHeaderSize_def)
  moreover have "stream_of es = buf' @ stream_of es'"
    using tcp_recv_loop_conserves [OF h] tcp_recv_loop_conserves [OF p] by (simp add: frame)
  ultimately show ?thesis
    using small lh lp by simp
qed

text \<open>The header of a frame at the front of the stream.\<close>

lemma tcp_frame_header_size:
  "length msg \<le> tcpMaxMessageSize \<Longrightarrow> unat (be32_at 8 (take 12 (tcp_frame_of msg))) = length msg"
  by (simp add: tcp_frame_of_def be32_at_skip be32_at_0 [of _ "[]", simplified] unat_of_nat
      tcpMaxMessageSize_def)

lemma tcp_recv_header:
  assumes "list_all undisturbed es" and "stream_of es = tcp_frame_of msg @ rest"
  shows "\<exists>es'. tcp_recv_loop platformHeaderSize [] es = Some (True, take 12 (tcp_frame_of msg), es') \<and>
               list_all undisturbed es' \<and> stream_of es' = msg @ rest"
  using tcp_recv_loop_stream [OF assms(1), of "[]" 12] assms(2)
  by (auto simp: platformHeaderSize_def tcp_frame_fields)

lemma tcp_read_frame:
  assumes "tcp_isSocketOpen io" and "list_all undisturbed es"
    and stream: "stream_of es = tcp_frame_of msg @ rest"
    and len: "length msg \<le> tcpMaxMessageSize"
  shows "\<exists>es'. snd (tcp_read plenty c timeout io buf so es) =
                Some (Inr LIBSPDM_STATUS_SUCCESS, tcp_frame_of msg, es') \<and>
               list_all undisturbed es' \<and> stream_of es' = rest"
proof -
  let ?h = "take 12 (tcp_frame_of msg)"
  obtain es1 where h: "tcp_recv_loop platformHeaderSize [] es = Some (True, ?h, es1)"
    and u1: "list_all undisturbed es1" and s1: "stream_of es1 = msg @ rest"
    using tcp_recv_header [OF assms(2) stream] by blast
  obtain es' where p: "tcp_recv_loop (length msg) [] es1 = Some (True, msg, es')"
    and u': "list_all undisturbed es'" and s': "stream_of es' = rest"
    using tcp_recv_loop_stream [OF u1, of "[]" "length msg"] s1 by auto
  have "vec_write platformHeaderSize msg
          (vec_write 0 ?h (vec_resize (platformHeaderSize + length msg) buf)) = tcp_frame_of msg"
    using append_take_drop_id [of 12 "tcp_frame_of msg"]
    by (simp add: vec_write_def platformHeaderSize_def tcp_frame_fields)
  with assms(1) h p u' s' len show ?thesis
    by (simp add: tcp_read_frame_bytes_def tcp_frame_header_size Let_def)
qed

text \<open>Without memory for the message the read ends after the header, which is gone.\<close>

lemma tcp_read_no_memory:
  assumes "tcp_isSocketOpen io" and "list_all undisturbed es"
    and stream: "stream_of es = tcp_frame_of msg @ rest"
    and len: "length msg \<le> tcpMaxMessageSize"
    and full: "\<not> vec_fits mem buf (platformHeaderSize + length msg)"
  shows "\<exists>es'. snd (tcp_read mem c timeout io buf so es) = Some (Inl Bad_alloc, buf, es') \<and>
               list_all undisturbed es' \<and> stream_of es' = msg @ rest"
proof -
  obtain es1 where "tcp_recv_loop platformHeaderSize [] es =
      Some (True, take 12 (tcp_frame_of msg), es1)"
    and "list_all undisturbed es1" "stream_of es1 = msg @ rest"
    using tcp_recv_header [OF assms(2) stream] by blast
  with assms(1) len full show ?thesis
    by (simp add: tcp_read_frame_bytes_def tcp_frame_header_size Let_def)
qed

section \<open>What a timeout becomes\<close>

lemma timeval_value:
  "unat (tv_sec (socket_timeval t)) * 1000000 + unat (tv_usec (socket_timeval t)) =
     (if t = timeoutUsInfinite then 0 else if t = 0 then 0 else max 5000000 (unat t)) \<and>
   unat (tv_usec (socket_timeval t)) < 1000000"
proof -
  have split: "unat (t' div 1000000) * 1000000 + unat (t' mod 1000000) = unat t' \<and>
      unat (t' mod 1000000) < 1000000" for t' :: u64
    by (simp add: unat_div unat_mod)
  have max: "max 5000000 (unat t) = (if t < 5000000 then 5000000 else unat t)"
    by (simp add: word_less_nat_alt max_def)
  consider "t = timeoutUsInfinite" | "t \<noteq> timeoutUsInfinite" "t = 0"
    | "t \<noteq> timeoutUsInfinite" "t \<noteq> 0" "t < 5000000" | "t \<noteq> timeoutUsInfinite" "t \<noteq> 0" "\<not> t < 5000000"
    by blast
  then show ?thesis
    by cases (simp_all add: socket_timeval_def minSocketTimeoutUs_def Let_def split max word_neq_0_conv)
qed

section \<open>Properties\<close>

text \<open>
  Connecting either succeeds with the new descriptor open and back in blocking mode or fails
  with no descriptor left open: when \<open>createSocket\<close> opens a socket of its own, whatever the system
  calls answer, the open and the non-blocking descriptors afterwards are those from before and, after
  a success only, the new one, in blocking mode.
\<close>

lemma tcp_createSocket_descriptors:
  assumes "\<not> tcp_isSocketOpen io" and "socket_ret e \<notin> open_fds k" and "socket_ret e \<notin> nonblocking k"
    and "tcp_createSocket e io k = (ok, io', k')"
  shows "(ok = tcp_isSocketOpen io') \<and> nonblocking k' = nonblocking k \<and>
    open_fds k' = (if ok then insert (socket_ret e) (open_fds k) else open_fds k) \<and>
    tcpSocketFd io' = (if ok then socket_ret e else if socket_ret e < 0 then socket_ret e else -1)"
  using assms
  by (auto simp: tcp_createSocket_def tcp_isSocketOpen_def fd_set_nonblocking_def Let_def
      split: if_splits)

lemma tcp_createSocket_descriptors_example:
  "\<exists>io' k'. tcp_createSocket
      \<lparr>socket_ret = 5, getfl_ret = 0, pton_ret = 1, connect_ret = -1, connect_errno = EINPROGRESS,
       poll_ret = 1, getsockopt_ret = 0, so_error = 111\<rparr>
      (tcp_io_init ''h'' 1) \<lparr>open_fds = {0}, nonblocking = {}\<rparr> = (False, io', k') \<and>
    open_fds k' = {0} \<and> tcpSocketFd io' = -1"
proof -
  let ?e = "\<lparr>socket_ret = 5, getfl_ret = 0, pton_ret = 1, connect_ret = -1, connect_errno = EINPROGRESS,
    poll_ret = 1, getsockopt_ret = 0, so_error = 111\<rparr>"
  obtain ok io' k' where run: "tcp_createSocket ?e (tcp_io_init ''h'' 1) \<lparr>open_fds = {0}, nonblocking = {}\<rparr> =
      (ok, io', k')"
    by (metis prod_cases3)
  then have "\<not> ok"
    by (simp add: tcp_createSocket_def tcp_isSocketOpen_def tcp_io_init_def fd_set_nonblocking_def)
  with run tcp_createSocket_descriptors [OF _ _ _ run] show ?thesis
    by (simp add: tcp_isSocketOpen_def tcp_io_init_def)
qed

text \<open>
  Sending a buffer puts the whole buffer on the wire or, on failure, a proper prefix of it, in
  order and without repetition; and the loop ends: once the kernel has answered as often as the
  buffer has bytes, interrupted calls not counted, it has returned.
\<close>

lemma tcp_write_prefix_and_returns:
  assumes "tcp_isSocketOpen io"
  shows "(length buf > send_answers es \<or> snd (tcp_write c timeout io buf so es) \<noteq> None) \<and>
    (snd (tcp_write c timeout io buf so es) \<noteq> Some (st, wire, es') \<or>
     st = LIBSPDM_STATUS_SUCCESS \<and> wire = buf \<or>
     st = LIBSPDM_STATUS_SEND_FAIL \<and> (\<exists>k < length buf. wire = take k buf))"
  using assms tcp_send_loop_returns [of buf 0 es "[]"] tcp_send_loop_prefix [of buf 0 es st wire es']
  by (cases "length buf \<le> send_answers es") auto

lemma tcp_write_prefix_and_returns_witness:
  "snd (tcp_write \<lparr>rcvtimeo_ret = 0, sndtimeo_ret = 0\<rparr> 0 \<lparr>tcpIpAddr = ''h'', tcpPort = 1, tcpSocketFd = 3\<rparr>
     [1, 2, 3] no_timeouts [SendErr EINTR, Sent 2, Sent 1, Sent 1]) \<noteq> None"
  using tcp_write_prefix_and_returns [of "\<lparr>tcpIpAddr = ''h'', tcpPort = 1, tcpSocketFd = 3\<rparr>"
      "[SendErr EINTR, Sent 2, Sent 1, Sent 1]" "[1, 2, 3]" "\<lparr>rcvtimeo_ret = 0, sndtimeo_ret = 0\<rparr>" 0 no_timeouts]
  by (simp add: tcp_isSocketOpen_def send_answers_def)

end
