(* ===== verification/Transport.thy ===== *)
theory Transport
  imports Tcp_Io
begin

text \<open>
  \<^verbatim>\<open>requester/libspdm_transport.hpp\<close> (the base class \<open>SpdmTransport\<close>) and what the two transports
  \<^verbatim>\<open>libspdm_mctp_transport.cpp\<close> and \<^verbatim>\<open>libspdm_tcp_transport.cpp\<close> have in common: the steps of
  \<open>initialize\<close> that are written twice with the same text, and the protocol of the one
  send-and-receive buffer, stated as the interface \<open>buffer_lock\<close>.

  The operations thread a \<open>machine\<close>: the heap, the open descriptors, and the world behind
  libspdm and the system calls. Its heap holds the contexts and the scratch buffers. The blocks of
  received messages, which the callbacks allocate while libspdm runs, are on the heap the callbacks
  are given (\<open>Message_Blocks\<close>).
\<close>

section \<open>The state\<close>

record 'w machine =
  mheap :: heap
  mkernel :: kernel
  world :: 'w

text \<open>The answers of the operating system that the transports depend on.\<close>

record 'w os =
  os_malloc :: "nat \<Rightarrow> 'w \<Rightarrow> bool \<times> 'w"
  os_mctp_socket :: "'w \<Rightarrow> (int \<times> int) \<times> 'w"
  os_read_file :: "string \<Rightarrow> 'w \<Rightarrow> bytes option"
  os_tcp_connect :: "string \<Rightarrow> u16 \<Rightarrow> 'w \<Rightarrow> tcp_connect \<times> 'w"

definition LIBSPDM_MAX_SPDM_MSG_SIZE :: nat where
  "LIBSPDM_MAX_SPDM_MSG_SIZE = 0x1200"

definition LIBSPDM_TRANSPORT_HEADER_SIZE :: nat where
  "LIBSPDM_TRANSPORT_HEADER_SIZE = 64"

definition LIBSPDM_TRANSPORT_TAIL_SIZE :: nat where
  "LIBSPDM_TRANSPORT_TAIL_SIZE = 64"

definition LIBSPDM_SENDER_BUFFER_SIZE :: nat where
  "LIBSPDM_SENDER_BUFFER_SIZE =
     LIBSPDM_MAX_SPDM_MSG_SIZE + (LIBSPDM_TRANSPORT_HEADER_SIZE + LIBSPDM_TRANSPORT_TAIL_SIZE)"

definition LIBSPDM_RECEIVER_BUFFER_SIZE :: nat where
  "LIBSPDM_RECEIVER_BUFFER_SIZE =
     LIBSPDM_MAX_SPDM_MSG_SIZE + (LIBSPDM_TRANSPORT_HEADER_SIZE + LIBSPDM_TRANSPORT_TAIL_SIZE)"

definition LIBSPDM_MAX_SENDER_RECEIVER_BUFFER_SIZE :: nat where
  "LIBSPDM_MAX_SENDER_RECEIVER_BUFFER_SIZE =
     (if LIBSPDM_SENDER_BUFFER_SIZE > LIBSPDM_RECEIVER_BUFFER_SIZE
      then LIBSPDM_SENDER_BUFFER_SIZE else LIBSPDM_RECEIVER_BUFFER_SIZE)"

text \<open>
  The members of \<open>SpdmTransport\<close> that some code reads or writes; the other \<open>use...\<close> and
  \<open>support...\<close> members are set by the constructor and never used.
\<close>

record spdm_transport =
  sendReceiveBuffer :: bytes
  sendReceiveBufferAcquired :: bool
  useVersion :: byte
  useRequesterCapabilityFlags :: u32
  supportMeasurementSpec :: byte
  supportHashAlgo :: u32
  supportAsymAlgo :: u32
  spdmContext :: "ptr option"
  scratchBuffer :: "ptr option"

definition spdm_transport_init :: "spdm_consts \<Rightarrow> spdm_transport" where
  "spdm_transport_init C =
     \<lparr>sendReceiveBuffer = replicate LIBSPDM_MAX_SENDER_RECEIVER_BUFFER_SIZE 0,
      sendReceiveBufferAcquired = False,
      useVersion = SPDM_MESSAGE_VERSION_11 C,
      useRequesterCapabilityFlags = 0,
      supportMeasurementSpec = MEASUREMENT_SPECIFICATION_DMTF C,
      supportHashAlgo = BASE_HASH_SHA_256 C OR BASE_HASH_SHA_384 C OR BASE_HASH_SHA_512 C,
      supportAsymAlgo =
        BASE_ASYM_ECDSA_P256 C OR BASE_ASYM_ECDSA_P384 C OR BASE_ASYM_ECDSA_P521 C,
      spdmContext = None,
      scratchBuffer = None\<rparr>"

text \<open>The destructor \<open>~SpdmTransport\<close>: it frees the scratch buffer and deinitializes the context.\<close>

definition spdm_transport_destroy ::
    "'w libspdm \<Rightarrow> 'a spdm_transport_scheme \<Rightarrow> 'w machine \<Rightarrow> 'a spdm_transport_scheme \<times> 'w machine"
where
  "spdm_transport_destroy L t m =
     (let (t, m) =
        (case scratchBuffer t of
           Some p \<Rightarrow> (t\<lparr>scratchBuffer := None\<rparr>, m\<lparr>mheap := free p (mheap m)\<rparr>)
         | None \<Rightarrow> (t, m)) in
      case spdmContext t of
        Some c \<Rightarrow> (t, m\<lparr>world := lib_deinit_context L c (world m)\<rparr>)
      | None \<Rightarrow> (t, m))"

section \<open>The steps of initialize that both transports share\<close>

text \<open>\<^verbatim>\<open>malloc\<close> in the machine: the allocator's answer comes from the world.\<close>

definition machine_malloc :: "'w os \<Rightarrow> nat \<Rightarrow> 'w machine \<Rightarrow> ptr option \<times> 'w machine" where
  "machine_malloc OS n m =
     (let (ok, w) = os_malloc OS n (world m); (p, h) = malloc ok (mheap m)
      in (p, m\<lparr>mheap := h, world := w\<rparr>))"

definition transport_registerFunctions ::
    "'w libspdm \<Rightarrow> transport_codec \<Rightarrow> 'a spdm_transport_scheme \<Rightarrow> 'w machine \<Rightarrow> bool \<times> 'w machine"
where
  "transport_registerFunctions L codec t m =
     (case spdmContext t of
        None \<Rightarrow> (True, m)
      | Some c \<Rightarrow>
          (let w = lib_register_device_io L c (world m);
               w = lib_register_transport_layer L c LIBSPDM_MAX_SPDM_MSG_SIZE
                     LIBSPDM_TRANSPORT_HEADER_SIZE LIBSPDM_TRANSPORT_TAIL_SIZE codec w;
               w = lib_register_device_buffer L c LIBSPDM_SENDER_BUFFER_SIZE
                     LIBSPDM_RECEIVER_BUFFER_SIZE w
           in (True, m\<lparr>world := w\<rparr>)))"

definition transport_setupScratchBuffer ::
    "'w libspdm \<Rightarrow> 'w os \<Rightarrow> 'a spdm_transport_scheme \<Rightarrow> 'w machine
     \<Rightarrow> bool \<times> 'a spdm_transport_scheme \<times> 'w machine"
where
  "transport_setupScratchBuffer L OS t m =
     (case spdmContext t of
        None \<Rightarrow> (False, t, m)
      | Some c \<Rightarrow>
          (let n = lib_scratch_size L c (world m);
               (p, m) = machine_malloc OS n m;
               t = t\<lparr>scratchBuffer := p\<rparr> in
           case p of
             None \<Rightarrow> (False, t, m)
           | Some p \<Rightarrow>
               (True, t, m\<lparr>world := lib_set_scratch_buffer L c p n (world m)\<rparr>)))"

definition set_local ::
    "'w libspdm \<Rightarrow> ptr \<Rightarrow> data_key \<Rightarrow> data_value \<Rightarrow> 'w \<Rightarrow> status \<times> 'w" where
  "set_local L c key v w = lib_set_data L c key LIBSPDM_DATA_LOCATION_LOCAL v w"

text \<open>\<open>spdm_version = useVersion << SPDM_VERSION_NUMBER_SHIFT_BIT\<close>, a 16-bit value.\<close>

definition spdm_version_number :: "spdm_consts \<Rightarrow> byte \<Rightarrow> u16" where
  "spdm_version_number C v = push_bit (SPDM_VERSION_NUMBER_SHIFT_BIT C) (ucast v)"

definition transport_configureContext ::
    "'w libspdm \<Rightarrow> spdm_consts \<Rightarrow> 'a spdm_transport_scheme \<Rightarrow> 'w machine \<Rightarrow> bool \<times> 'w machine"
where
  "transport_configureContext L C t m =
     (case spdmContext t of
        None \<Rightarrow> (True, m)
      | Some c \<Rightarrow>
          (let w = world m;
               w = (if useVersion t \<noteq> 0
                    then snd (set_local L c LIBSPDM_DATA_SPDM_VERSION
                                (Data16 (spdm_version_number C (useVersion t))) w)
                    else w);
               w = snd (set_local L c LIBSPDM_DATA_CAPABILITY_CT_EXPONENT (Data8 0) w);
               w = snd (set_local L c LIBSPDM_DATA_MEASUREMENT_SPEC
                          (Data8 (supportMeasurementSpec t)) w);
               w = snd (set_local L c LIBSPDM_DATA_BASE_ASYM_ALGO (Data32 (supportAsymAlgo t)) w);
               w = snd (set_local L c LIBSPDM_DATA_BASE_HASH_ALGO (Data32 (supportHashAlgo t)) w)
           in (True, m\<lparr>world := w\<rparr>)))"

section \<open>The send-and-receive buffer\<close>

locale buffer_lock =
  fixes acquire :: "'s \<Rightarrow> status \<times> 's"
    and release :: "'s \<Rightarrow> 's"
    and held :: "'s \<Rightarrow> bool"
    and buffer :: "'s \<Rightarrow> bytes"
    and zeroed :: "'s \<Rightarrow> bytes"
  assumes acquire_free: "\<not> held s \<Longrightarrow> fst (acquire s) = LIBSPDM_STATUS_SUCCESS"
    and acquire_takes: "\<not> held s \<Longrightarrow> held (snd (acquire s))"
    and acquire_zeroes: "\<not> held s \<Longrightarrow> buffer (snd (acquire s)) = zeroed s"
    and acquire_held: "held s \<Longrightarrow> IS_ERROR (fst (acquire s)) \<and> snd (acquire s) = s"
    and release_frees: "\<not> held (release s)"

datatype lock_op = Acquire | Release

fun lock_run ::
    "('s \<Rightarrow> status \<times> 's) \<Rightarrow> ('s \<Rightarrow> 's) \<Rightarrow> lock_op list \<Rightarrow> 's \<Rightarrow> status list \<times> 's" where
  "lock_run acq rel [] s = ([], s)"
| "lock_run acq rel (Release # ops) s = lock_run acq rel ops (rel s)"
| "lock_run acq rel (Acquire # ops) s =
     (let (st, s) = acq s; (sts, s) = lock_run acq rel ops s in (st # sts, s))"

text \<open>How many of the answers are successes.\<close>

definition grants :: "status list \<Rightarrow> nat" where
  "grants sts = length (filter (\<lambda>st. \<not> IS_ERROR st) sts)"

context buffer_lock
begin

lemma acquire_granted_iff: "fst (acquire s) = LIBSPDM_STATUS_SUCCESS \<longleftrightarrow> \<not> held s"
  using acquire_free acquire_held by (metis IS_ERROR.simps(1))

lemma acquire_twice:
  "fst (acquire s) = LIBSPDM_STATUS_SUCCESS \<Longrightarrow> IS_ERROR (fst (acquire (snd (acquire s))))"
  using acquire_granted_iff acquire_takes acquire_held by blast

text \<open>Between two grants there is a release: one holder at a time.\<close>

lemma one_holder:
  "grants (fst (lock_run acquire release ops s))
     \<le> count_list ops Release + (if held s then 0 else 1)"
proof (induction ops arbitrary: s)
  case Nil
  then show ?case
    by (simp add: grants_def)
next
  case (Cons op ops)
  show ?case
  proof (cases op)
    case Release
    with Cons.IH [of "release s"] show ?thesis
      by (simp add: release_frees)
  next
    case Acquire
    show ?thesis
    proof (cases "held s")
      case True
      with Cons.IH [of s] Acquire acquire_held [of s] show ?thesis
        by (simp add: grants_def split_beta)
    next
      case False
      with Cons.IH [of "snd (acquire s)"] Acquire acquire_takes [of s] acquire_free [of s]
      show ?thesis
        by (simp add: grants_def split_beta)
    qed
  qed
qed

end

text \<open>
  The four callbacks of each transport: acquiring for sending and for receiving have the same
  text, and so have the two releases.
\<close>

definition transport_acquire ::
    "'a spdm_transport_scheme \<Rightarrow> status \<times> 'a spdm_transport_scheme" where
  "transport_acquire t =
     (if sendReceiveBufferAcquired t then (LIBSPDM_STATUS_INVALID_STATE_LOCAL, t)
      else (LIBSPDM_STATUS_SUCCESS,
            t\<lparr>sendReceiveBuffer := replicate (length (sendReceiveBuffer t)) 0,
              sendReceiveBufferAcquired := True\<rparr>))"

definition transport_release :: "'a spdm_transport_scheme \<Rightarrow> 'a spdm_transport_scheme" where
  "transport_release t = t\<lparr>sendReceiveBufferAcquired := False\<rparr>"

interpretation transport_buffer: buffer_lock
  transport_acquire transport_release sendReceiveBufferAcquired sendReceiveBuffer
  "\<lambda>t. replicate (length (sendReceiveBuffer t)) 0"
  by unfold_locales (auto simp: transport_acquire_def transport_release_def)

end
