(* ===== verification/Transport_Lifecycle.thy ===== *)
theory Transport_Lifecycle
  imports Transport
begin

text \<open>
  The two classes that derive from \<open>SpdmTransport\<close>: \<open>SpdmMctpTransport\<close>
  (\<^verbatim>\<open>requester/libspdm_mctp_transport.cpp\<close>) and \<open>SpdmTcpTransport\<close>
  (\<^verbatim>\<open>requester/libspdm_tcp_transport.cpp\<close>), their \<open>initialize\<close> with every step, failure and
  cleanup, and their destructors. The interface \<open>transport_lifecycle\<close> is what the daemon relies
  on; both classes provide it. They differ in what a failed \<open>initialize\<close> leaves behind.
\<close>

section \<open>SpdmMctpTransport\<close>

record mctp_transport = spdm_transport +
  eid :: byte
  mctpIo :: mctp_io

definition mctp_transport_init :: "spdm_consts \<Rightarrow> byte \<Rightarrow> mctp_transport" where
  "mctp_transport_init C e =
     spdm_transport.extend (spdm_transport_init C) \<lparr>eid = e, mctpIo = mctp_io_init\<rparr>"

definition mctp_allocateContext ::
    "'w libspdm \<Rightarrow> 'w os \<Rightarrow> mctp_transport \<Rightarrow> 'w machine \<Rightarrow> bool \<times> mctp_transport \<times> 'w machine"
where
  "mctp_allocateContext L OS t m =
     (let (p, m) = machine_malloc OS (lib_get_context_size L) m;
          t = t\<lparr>spdmContext := p\<rparr> in
      case p of
        None \<Rightarrow> (False, t, m)
      | Some c \<Rightarrow>
          (let (st, w) = lib_init_context L c (world m);
               m = m\<lparr>world := w\<rparr> in
           if st \<noteq> LIBSPDM_STATUS_SUCCESS then (False, t, m) else (True, t, m)))"

definition mctp_registerFunctions ::
    "'w libspdm \<Rightarrow> mctp_transport \<Rightarrow> 'w machine \<Rightarrow> bool \<times> 'w machine" where
  "mctp_registerFunctions L t m = transport_registerFunctions L Libspdm_transport_mctp t m"

definition mctp_setupScratchBuffer ::
    "'w libspdm \<Rightarrow> 'w os \<Rightarrow> mctp_transport \<Rightarrow> 'w machine \<Rightarrow> bool \<times> mctp_transport \<times> 'w machine"
where
  "mctp_setupScratchBuffer L OS t m = transport_setupScratchBuffer L OS t m"

definition mctp_configureContext ::
    "'w libspdm \<Rightarrow> spdm_consts \<Rightarrow> mctp_transport \<Rightarrow> 'w machine \<Rightarrow> bool \<times> 'w machine" where
  "mctp_configureContext L C t m = transport_configureContext L C t m"

text \<open>\<open>cleanupContext\<close> deinitializes the context but does not free its block.\<close>

definition mctp_cleanupContext ::
    "'w libspdm \<Rightarrow> mctp_transport \<Rightarrow> 'w machine \<Rightarrow> mctp_transport \<times> 'w machine" where
  "mctp_cleanupContext L t m =
     (let (t, m) =
        (case scratchBuffer t of
           Some p \<Rightarrow> (t\<lparr>scratchBuffer := None\<rparr>, m\<lparr>mheap := free p (mheap m)\<rparr>)
         | None \<Rightarrow> (t, m)) in
      case spdmContext t of
        Some c \<Rightarrow> (t\<lparr>spdmContext := None\<rparr>, m\<lparr>world := lib_deinit_context L c (world m)\<rparr>)
      | None \<Rightarrow> (t, m))"

definition mctp_openSocket ::
    "'w os \<Rightarrow> mctp_transport \<Rightarrow> 'w machine \<Rightarrow> bool \<times> mctp_transport \<times> 'w machine" where
  "mctp_openSocket OS t m =
     (if mctp_isSocketOpen (mctpIo t) then (True, t, m)
      else
        (let ((s, b), w) = os_mctp_socket OS (world m);
             (ok, io, k) = mctp_createSocket s b (mctpIo t) (mkernel m)
         in (ok, t\<lparr>mctpIo := io\<rparr>, m\<lparr>mkernel := k, world := w\<rparr>)))"

definition mctp_initialize ::
    "'w libspdm \<Rightarrow> 'w os \<Rightarrow> spdm_consts \<Rightarrow> mctp_transport \<Rightarrow> 'w machine
     \<Rightarrow> bool \<times> mctp_transport \<times> 'w machine"
where
  "mctp_initialize L OS C t m =
     (let (ok, t, m) = mctp_openSocket OS t m in
      if \<not> ok then (False, t, m)
      else
        (let (ok, t, m) = mctp_allocateContext L OS t m in
         if \<not> ok then (False, t, m)
         else
           (let (ok, m) = mctp_registerFunctions L t m in
            if \<not> ok then (let (t, m) = mctp_cleanupContext L t m in (False, t, m))
            else
              (let (ok, t, m) = mctp_setupScratchBuffer L OS t m in
               if \<not> ok then (let (t, m) = mctp_cleanupContext L t m in (False, t, m))
               else
                 (let (ok, m) = mctp_configureContext L C t m in
                  if \<not> ok then (let (t, m) = mctp_cleanupContext L t m in (False, t, m))
                  else (True, t, m))))))"

text \<open>The destructors, members first: the socket, then the base class.\<close>

definition mctp_transport_destroy ::
    "'w libspdm \<Rightarrow> mctp_transport \<Rightarrow> 'w machine \<Rightarrow> mctp_transport \<times> 'w machine" where
  "mctp_transport_destroy L t m =
     (let (io, k) = mctp_io_destroy (mctpIo t) (mkernel m)
      in spdm_transport_destroy L (t\<lparr>mctpIo := io\<rparr>) (m\<lparr>mkernel := k\<rparr>))"

section \<open>SpdmTcpTransport\<close>

record tcp_transport = spdm_transport +
  ipAddr :: string
  port :: u16
  tcpIo :: tcp_io

definition tcp_transport_init :: "spdm_consts \<Rightarrow> string \<Rightarrow> u16 \<Rightarrow> tcp_transport" where
  "tcp_transport_init C ip p =
     spdm_transport.extend (spdm_transport_init C)
       \<lparr>ipAddr = ip, port = p, tcpIo = tcp_io_init ip p\<rparr>"

definition tcp_allocateContext ::
    "'w libspdm \<Rightarrow> 'w os \<Rightarrow> tcp_transport \<Rightarrow> 'w machine \<Rightarrow> bool \<times> tcp_transport \<times> 'w machine"
where
  "tcp_allocateContext L OS t m =
     (let (p, m) = machine_malloc OS (lib_get_context_size L) m;
          t = t\<lparr>spdmContext := p\<rparr> in
      case p of
        None \<Rightarrow> (False, t, m)
      | Some c \<Rightarrow>
          (let (st, w) = lib_init_context L c (world m);
               m = m\<lparr>world := w\<rparr> in
           if st \<noteq> LIBSPDM_STATUS_SUCCESS
           then (False, t\<lparr>spdmContext := None\<rparr>, m\<lparr>mheap := free c (mheap m)\<rparr>)
           else (True, t, m)))"

definition tcp_registerFunctions ::
    "'w libspdm \<Rightarrow> tcp_transport \<Rightarrow> 'w machine \<Rightarrow> bool \<times> 'w machine" where
  "tcp_registerFunctions L t m = transport_registerFunctions L Libspdm_transport_tcp t m"

definition tcp_setupScratchBuffer ::
    "'w libspdm \<Rightarrow> 'w os \<Rightarrow> tcp_transport \<Rightarrow> 'w machine \<Rightarrow> bool \<times> tcp_transport \<times> 'w machine"
where
  "tcp_setupScratchBuffer L OS t m = transport_setupScratchBuffer L OS t m"

definition tcp_configureContext ::
    "'w libspdm \<Rightarrow> spdm_consts \<Rightarrow> tcp_transport \<Rightarrow> 'w machine \<Rightarrow> bool \<times> 'w machine" where
  "tcp_configureContext L C t m = transport_configureContext L C t m"

definition tcp_cleanupContext ::
    "'w libspdm \<Rightarrow> tcp_transport \<Rightarrow> 'w machine \<Rightarrow> tcp_transport \<times> 'w machine" where
  "tcp_cleanupContext L t m =
     (let (t, m) =
        (case scratchBuffer t of
           Some p \<Rightarrow> (t\<lparr>scratchBuffer := None\<rparr>, m\<lparr>mheap := free p (mheap m)\<rparr>)
         | None \<Rightarrow> (t, m));
          (t, m) =
        (case spdmContext t of
           Some c \<Rightarrow>
             (t\<lparr>spdmContext := None\<rparr>,
              m\<lparr>world := lib_deinit_context L c (world m), mheap := free c (mheap m)\<rparr>)
         | None \<Rightarrow> (t, m));
          (io, k) = tcp_closeSocket (tcpIo t) (mkernel m)
      in (t\<lparr>tcpIo := io\<rparr>, m\<lparr>mkernel := k\<rparr>))"

definition tcp_openSocket ::
    "'w os \<Rightarrow> tcp_transport \<Rightarrow> 'w machine \<Rightarrow> bool \<times> tcp_transport \<times> 'w machine" where
  "tcp_openSocket OS t m =
     (if tcp_isSocketOpen (tcpIo t) then (True, t, m)
      else
        (let (e, w) = os_tcp_connect OS (tcpIpAddr (tcpIo t)) (tcpPort (tcpIo t)) (world m);
             (ok, io, k) = tcp_createSocket e (tcpIo t) (mkernel m)
         in (ok, t\<lparr>tcpIo := io\<rparr>, m\<lparr>mkernel := k, world := w\<rparr>)))"

definition tcp_initialize ::
    "'w libspdm \<Rightarrow> 'w os \<Rightarrow> spdm_consts \<Rightarrow> tcp_transport \<Rightarrow> 'w machine
     \<Rightarrow> bool \<times> tcp_transport \<times> 'w machine"
where
  "tcp_initialize L OS C t m =
     (let (ok, t, m) = tcp_openSocket OS t m in
      if \<not> ok then (False, t, m)
      else
        (let (ok, t, m) = tcp_allocateContext L OS t m in
         if \<not> ok then (False, t, m)
         else
           (let (ok, m) = tcp_registerFunctions L t m in
            if \<not> ok then (let (t, m) = tcp_cleanupContext L t m in (False, t, m))
            else
              (let (ok, t, m) = tcp_setupScratchBuffer L OS t m in
               if \<not> ok then (let (t, m) = tcp_cleanupContext L t m in (False, t, m))
               else
                 (let (ok, m) = tcp_configureContext L C t m in
                  if \<not> ok then (let (t, m) = tcp_cleanupContext L t m in (False, t, m))
                  else (True, t, m))))))"

definition tcp_transport_destroy ::
    "'w libspdm \<Rightarrow> tcp_transport \<Rightarrow> 'w machine \<Rightarrow> tcp_transport \<times> 'w machine" where
  "tcp_transport_destroy L t m =
     (let (io, k) = tcp_io_destroy (tcpIo t) (mkernel m)
      in spdm_transport_destroy L (t\<lparr>tcpIo := io\<rparr>) (m\<lparr>mkernel := k\<rparr>))"

section \<open>What the steps do to the machine\<close>

lemma machine_malloc_cases:
  assumes "machine_malloc OS n m = (p, m')"
  obtains (fails) w where "p = None" "m' = m\<lparr>world := w\<rparr>"
  | (works) w where "p = Some (brk (mheap m))"
      "m' = m\<lparr>mheap := snd (malloc True (mheap m)), world := w\<rparr>"
  using assms by (cases "fst (os_malloc OS n (world m))")
    (auto simp: machine_malloc_def heap_simps split: prod.splits)

text \<open>Steps that only talk to libspdm leave heap and descriptors alone.\<close>

definition same_resources :: "'w machine \<Rightarrow> 'w machine \<Rightarrow> bool" where
  "same_resources m m' \<longleftrightarrow> mheap m' = mheap m \<and> mkernel m' = mkernel m"

lemma registerFunctions_result [life_simps]:
  "transport_registerFunctions L codec t m = (ok, m') \<Longrightarrow> ok \<and> same_resources m m'"
  by (auto simp: transport_registerFunctions_def same_resources_def Let_def split: option.splits)

lemma configureContext_result [life_simps]:
  "transport_configureContext L C t m = (ok, m') \<Longrightarrow> ok \<and> same_resources m m'"
  by (auto simp: transport_configureContext_def same_resources_def Let_def split: option.splits)

lemma setupScratchBuffer_result:
  assumes "transport_setupScratchBuffer L OS t m = (ok, t', m')" and "spdmContext t = Some c"
  shows "mkernel m' = mkernel m \<and>
         (if ok then t' = t\<lparr>scratchBuffer := Some (brk (mheap m))\<rparr> \<and>
                     mheap m' = snd (malloc True (mheap m))
          else t' = t\<lparr>scratchBuffer := None\<rparr> \<and> mheap m' = mheap m)"
  using assms
  by (cases "machine_malloc OS (lib_scratch_size L c (world m)) m")
    (auto simp: transport_setupScratchBuffer_def Let_def elim!: machine_malloc_cases
          split: option.splits)

lemma tcp_openSocket_result:
  "tcp_openSocket OS t m = (ok, t', m') \<Longrightarrow>
   mheap m' = mheap m \<and> spdmContext t' = spdmContext t \<and> scratchBuffer t' = scratchBuffer t \<and>
   (ok \<longrightarrow> tcp_isSocketOpen (tcpIo t'))"
  by (auto simp: tcp_openSocket_def tcp_createSocket_def tcp_isSocketOpen_def Let_def
      split: prod.splits if_splits)

lemma mctp_openSocket_result:
  "mctp_openSocket OS t m = (ok, t', m') \<Longrightarrow>
   mheap m' = mheap m \<and> spdmContext t' = spdmContext t \<and> scratchBuffer t' = scratchBuffer t \<and>
   (ok \<longrightarrow> mctp_isSocketOpen (mctpIo t'))"
  by (auto simp: mctp_openSocket_def mctp_createSocket_def mctp_isSocketOpen_def Let_def
      split: prod.splits if_splits)

lemma tcp_allocateContext_result:
  assumes "tcp_allocateContext L OS t m = (ok, t', m')"
  shows "mkernel m' = mkernel m \<and>
         (if ok then t' = t\<lparr>spdmContext := Some (brk (mheap m))\<rparr> \<and>
                     mheap m' = snd (malloc True (mheap m))
          else t' = t\<lparr>spdmContext := None\<rparr> \<and>
               (mheap m' = mheap m \<or> mheap m' = free (brk (mheap m)) (snd (malloc True (mheap m)))))"
  using assms
  by (cases "machine_malloc OS (lib_get_context_size L) m")
    (auto simp: tcp_allocateContext_def Let_def elim!: machine_malloc_cases
          split: option.splits prod.splits if_splits)

text \<open>After a failed \<open>libspdm_init_context\<close> the MCTP transport keeps the block and the pointer.\<close>

lemma mctp_allocateContext_result:
  assumes "mctp_allocateContext L OS t m = (ok, t', m')"
  shows "mkernel m' = mkernel m \<and>
         (if ok then t' = t\<lparr>spdmContext := Some (brk (mheap m))\<rparr> \<and>
                     mheap m' = snd (malloc True (mheap m))
          else (t' = t\<lparr>spdmContext := None\<rparr> \<and> mheap m' = mheap m) \<or>
               (t' = t\<lparr>spdmContext := Some (brk (mheap m))\<rparr> \<and> mheap m' = snd (malloc True (mheap m))))"
  using assms
  by (cases "machine_malloc OS (lib_get_context_size L) m")
    (auto simp: mctp_allocateContext_def Let_def elim!: machine_malloc_cases
          split: option.splits prod.splits if_splits)

section \<open>The contract of initialize\<close>

locale transport_lifecycle =
  fixes init :: "'t \<Rightarrow> 'w machine \<Rightarrow> bool \<times> 't \<times> 'w machine"
    and ctx :: "'t \<Rightarrow> ptr option"
    and scratch :: "'t \<Rightarrow> ptr option"
    and connected :: "'t \<Rightarrow> bool"
  assumes init_success: "init t m = (True, t', m') \<Longrightarrow>
      connected t' \<and> ctx t' = Some (brk (mheap m)) \<and> scratch t' = Some (Suc (brk (mheap m))) \<and>
      mheap m' = snd (malloc True (snd (malloc True (mheap m))))"
    and init_heap_ok: "heap_ok (mheap m) \<Longrightarrow> init t m = (ok, t', m') \<Longrightarrow>
      heap_ok (mheap m') \<and> live (mheap m) \<subseteq> live (mheap m')"
begin

lemma init_live:
  "init t m = (True, t', m') \<Longrightarrow>
   live (mheap m') = insert (the (scratch t')) (insert (the (ctx t')) (live (mheap m)))"
  by (auto dest!: init_success simp: heap_simps)

lemma init_context: "init t m = (True, t', m') \<Longrightarrow> ctx t' \<noteq> None"
  by (auto dest: init_success)

text \<open>
  \<open>initialize\<close> overwrites both pointers without looking at them: a second call leaves the blocks
  of the first one allocated and unreachable.
\<close>

lemma reinit_leaks:
  assumes "heap_ok (mheap m)" and 1: "init t m = (True, t1, m1)" and 2: "init t1 m1 = (True, t2, m2)"
  shows "{the (ctx t1), the (scratch t1)} \<subseteq> live (mheap m2) \<and>
         {the (ctx t1), the (scratch t1)} \<inter> {the (ctx t2), the (scratch t2)} = {} \<and>
         card (live (mheap m2) - live (mheap m)) = 4"
proof -
  let ?b = "brk (mheap m)"
  have c1: "ctx t1 = Some ?b" "scratch t1 = Some (Suc ?b)"
    and h1: "mheap m1 = snd (malloc True (snd (malloc True (mheap m))))"
    using init_success [OF 1] by auto
  have c2: "ctx t2 = Some (Suc (Suc ?b))" "scratch t2 = Some (Suc (Suc (Suc ?b)))"
    using init_success [OF 2] h1 by (auto simp: heap_simps)
  have l2: "live (mheap m2) = {?b, Suc ?b, Suc (Suc ?b), Suc (Suc (Suc ?b))} \<union> live (mheap m)"
    using init_live [OF 2] init_live [OF 1] c1 c2 by auto
  have "live (mheap m2) - live (mheap m) = {?b, Suc ?b, Suc (Suc ?b), Suc (Suc (Suc ?b))}"
    using l2 assms(1) by (auto simp: heap_ok_def)
  with c1 c2 l2 show ?thesis
    by (auto simp: card_insert_if)
qed

end

section \<open>Both transports provide it\<close>

lemma tcp_initialize_result:
  assumes "tcp_initialize L OS C t m = (ok, t', m')"
  shows "if ok then tcp_isSocketOpen (tcpIo t') \<and> spdmContext t' = Some (brk (mheap m)) \<and>
             scratchBuffer t' = Some (Suc (brk (mheap m))) \<and>
             mheap m' = snd (malloc True (snd (malloc True (mheap m))))
         else mheap m' = mheap m \<or> mheap m' = free (brk (mheap m)) (snd (malloc True (mheap m)))"
proof -
  obtain ok1 t1 m1 where 1: "tcp_openSocket OS t m = (ok1, t1, m1)"
    by (metis prod_cases3)
  obtain ok2 t2 m2 where 2: "tcp_allocateContext L OS t1 m1 = (ok2, t2, m2)"
    by (metis prod_cases3)
  obtain ok3 m3 where 3: "tcp_registerFunctions L t2 m2 = (ok3, m3)"
    by (metis prod.exhaust)
  obtain ok4 t4 m4 where 4: "tcp_setupScratchBuffer L OS t2 m3 = (ok4, t4, m4)"
    by (metis prod_cases3)
  obtain ok5 m5 where 5: "tcp_configureContext L C t4 m4 = (ok5, m5)"
    by (metis prod.exhaust)
  note steps = 1 2 3 4 5
  note r1 = tcp_openSocket_result [OF 1] and r2 = tcp_allocateContext_result [OF 2]
    and r3 = registerFunctions_result [OF 3 [unfolded tcp_registerFunctions_def]]
    and r4 = setupScratchBuffer_result [OF 4 [unfolded tcp_setupScratchBuffer_def]]
    and r5 = configureContext_result [OF 5 [unfolded tcp_configureContext_def]]
  show ?thesis
  proof (cases "ok1 \<and> ok2")
    case False
    with assms steps r1 r2 show ?thesis
      by (auto simp: tcp_initialize_def split: if_splits)
  next
    case True
    with r1 r2 have t2: "t2 = t1\<lparr>spdmContext := Some (brk (mheap m))\<rparr>"
      "mheap m2 = snd (malloc True (mheap m))"
      by auto
    with r4 [of "brk (mheap m)"] r3 assms steps True r1 r5 show ?thesis
      by (cases ok4)
        (auto simp: tcp_initialize_def tcp_cleanupContext_def tcp_closeSocket_def
           same_resources_def heap_simps split: if_splits)
  qed
qed

lemma mctp_initialize_result:
  assumes "mctp_initialize L OS C t m = (ok, t', m')"
  shows "if ok then mctp_isSocketOpen (mctpIo t') \<and> spdmContext t' = Some (brk (mheap m)) \<and>
             scratchBuffer t' = Some (Suc (brk (mheap m))) \<and>
             mheap m' = snd (malloc True (snd (malloc True (mheap m))))
         else mheap m' = mheap m \<or> mheap m' = snd (malloc True (mheap m))"
proof -
  obtain ok1 t1 m1 where 1: "mctp_openSocket OS t m = (ok1, t1, m1)"
    by (metis prod_cases3)
  obtain ok2 t2 m2 where 2: "mctp_allocateContext L OS t1 m1 = (ok2, t2, m2)"
    by (metis prod_cases3)
  obtain ok3 m3 where 3: "mctp_registerFunctions L t2 m2 = (ok3, m3)"
    by (metis prod.exhaust)
  obtain ok4 t4 m4 where 4: "mctp_setupScratchBuffer L OS t2 m3 = (ok4, t4, m4)"
    by (metis prod_cases3)
  obtain ok5 m5 where 5: "mctp_configureContext L C t4 m4 = (ok5, m5)"
    by (metis prod.exhaust)
  note steps = 1 2 3 4 5
  note r1 = mctp_openSocket_result [OF 1] and r2 = mctp_allocateContext_result [OF 2]
    and r3 = registerFunctions_result [OF 3 [unfolded mctp_registerFunctions_def]]
    and r4 = setupScratchBuffer_result [OF 4 [unfolded mctp_setupScratchBuffer_def]]
    and r5 = configureContext_result [OF 5 [unfolded mctp_configureContext_def]]
  show ?thesis
  proof (cases "ok1 \<and> ok2")
    case False
    with assms steps r1 r2 show ?thesis
      by (auto simp: mctp_initialize_def split: if_splits)
  next
    case True
    with r1 r2 have t2: "t2 = t1\<lparr>spdmContext := Some (brk (mheap m))\<rparr>"
      "mheap m2 = snd (malloc True (mheap m))"
      by auto
    with r4 [of "brk (mheap m)"] r3 assms steps True r1 r5 show ?thesis
      by (cases ok4)
        (auto simp: mctp_initialize_def mctp_cleanupContext_def same_resources_def heap_simps)
  qed
qed

lemma heap_ok_malloc [heap_simps]: "heap_ok h \<Longrightarrow> heap_ok (snd (malloc True h))"
  by (metis malloc_heap_ok prod.collapse)

lemma live_free_malloc [heap_simps]:
  "heap_ok h \<Longrightarrow> live (free (brk h) (snd (malloc True h))) = live h"
  by (auto simp: malloc_works free_live heap_ok_def)

lemma heap_ok_free_malloc [heap_simps]:
  "heap_ok h \<Longrightarrow> heap_ok (free (brk h) (snd (malloc True h)))"
  by (rule free_heap_ok) (simp_all add: heap_ok_malloc, simp add: malloc_works)

lemma live_malloc [heap_simps]: "live (snd (malloc True h)) = insert (brk h) (live h)"
  by (simp add: malloc_works)

interpretation tcp_life: transport_lifecycle
  "tcp_initialize L OS C" spdmContext scratchBuffer "\<lambda>t. tcp_isSocketOpen (tcpIo t)"
  for L OS C
proof unfold_locales
  fix t m t' m'
  assume "tcp_initialize L OS C t m = (True, t', m')"
  from tcp_initialize_result [OF this] show "tcp_isSocketOpen (tcpIo t') \<and>
      spdmContext t' = Some (brk (mheap m)) \<and> scratchBuffer t' = Some (Suc (brk (mheap m))) \<and>
      mheap m' = snd (malloc True (snd (malloc True (mheap m))))"
    by simp
next
  fix m ok t t' m'
  assume "heap_ok (mheap m)" and "tcp_initialize L OS C t m = (ok, t', m')"
  with tcp_initialize_result [OF this(2)]
  show "heap_ok (mheap m') \<and> live (mheap m) \<subseteq> live (mheap m')"
    by (auto simp: heap_ok_malloc heap_ok_free_malloc live_free_malloc live_malloc split: if_splits)
qed

interpretation mctp_life: transport_lifecycle
  "mctp_initialize L OS C" spdmContext scratchBuffer "\<lambda>t. mctp_isSocketOpen (mctpIo t)"
  for L OS C
proof unfold_locales
  fix t m t' m'
  assume "mctp_initialize L OS C t m = (True, t', m')"
  from mctp_initialize_result [OF this] show "mctp_isSocketOpen (mctpIo t') \<and>
      spdmContext t' = Some (brk (mheap m)) \<and> scratchBuffer t' = Some (Suc (brk (mheap m))) \<and>
      mheap m' = snd (malloc True (snd (malloc True (mheap m))))"
    by simp
next
  fix m ok t t' m'
  assume "heap_ok (mheap m)" and "mctp_initialize L OS C t m = (ok, t', m')"
  with mctp_initialize_result [OF this(2)]
  show "heap_ok (mheap m') \<and> live (mheap m) \<subseteq> live (mheap m')"
    by (auto simp: heap_ok_malloc live_malloc split: if_splits)
qed

text \<open>A failed \<open>initialize\<close> leaves no scratch buffer behind, whichever step failed.\<close>

lemma mctp_failure_scratch:
  assumes "mctp_initialize L OS C t m = (ok, t', m')" and "\<not> ok" and "scratchBuffer t = None"
  shows "scratchBuffer t' = None"
  using assms
  by (auto simp: mctp_initialize_def mctp_openSocket_def mctp_allocateContext_def mctp_cleanupContext_def
      Let_def split: prod.splits if_splits option.splits)

lemma tcp_failure_scratch:
  assumes "tcp_initialize L OS C t m = (ok, t', m')" and "\<not> ok" and "scratchBuffer t = None"
  shows "scratchBuffer t' = None"
  using assms
  by (auto simp: tcp_initialize_def tcp_openSocket_def tcp_allocateContext_def tcp_cleanupContext_def
      Let_def split: prod.splits if_splits option.splits)

lemma destroy_without_scratch:
  "scratchBuffer t = None \<Longrightarrow> mheap (snd (spdm_transport_destroy L t m)) = mheap m"
  by (simp add: spdm_transport_destroy_def split: option.split)

lemma destroy_result:
  assumes "heap_ok (mheap m)" and "spdmContext t = Some (brk (mheap m))"
    "scratchBuffer t = Some (Suc (brk (mheap m)))"
    "mheap m' = snd (malloc True (snd (malloc True (mheap m))))"
  shows "live (mheap (snd (spdm_transport_destroy L t m'))) = insert (brk (mheap m)) (live (mheap m))"
proof -
  have "Suc (brk (mheap m)) \<notin> live (mheap m)"
    using assms(1) by (auto simp: heap_ok_def)
  with assms show ?thesis
    by (auto simp: spdm_transport_destroy_def malloc_works free_def)
qed

text \<open>
  The MCTP transport loses its context block when the scratch buffer cannot be allocated after the
  context was: the pointer is dropped and the block is still live.
\<close>

lemma mctp_initialize_leaks:
  assumes heap: "heap_ok (mheap m)" and ok1: "mctp_openSocket OS t m = (True, t1, m1)"
    and ok2: "mctp_allocateContext L OS t1 m1 = (True, t2, m2)"
    and no_scratch: "\<And>c w. fst (os_malloc OS (lib_scratch_size L c w) w) = False \<or>
      w \<noteq> world (snd (transport_registerFunctions L Libspdm_transport_mctp t2 m2))"
  shows "\<exists>t' m'. mctp_initialize L OS C t m = (False, t', m') \<and> spdmContext t' = None \<and>
    live (mheap m') = insert (brk (mheap m)) (live (mheap m)) \<and> brk (mheap m) \<notin> live (mheap m)"
proof -
  obtain m3 where 3: "mctp_registerFunctions L t2 m2 = (True, m3)"
    using registerFunctions_result by (metis mctp_registerFunctions_def prod.collapse)
  have m1: "mheap m1 = mheap m"
    using mctp_openSocket_result [OF ok1] by simp
  have t2: "spdmContext t2 = Some (brk (mheap m))" "mheap m2 = snd (malloc True (mheap m))"
    using mctp_allocateContext_result [OF ok2] m1 by simp_all
  have m3: "mheap m3 = mheap m2" "m3 = snd (transport_registerFunctions L Libspdm_transport_mctp t2 m2)"
    using registerFunctions_result [of L Libspdm_transport_mctp t2 m2 True m3] 3
    by (simp_all add: mctp_registerFunctions_def same_resources_def)
  have "\<not> fst (os_malloc OS (lib_scratch_size L (brk (mheap m)) (world m3)) (world m3))"
    using no_scratch [of "brk (mheap m)" "world m3"] m3(2) by simp
  then obtain w4 where 4: "mctp_setupScratchBuffer L OS t2 m3 =
      (False, t2\<lparr>scratchBuffer := None\<rparr>, m3\<lparr>world := w4\<rparr>)"
    using t2(1) by (simp add: mctp_setupScratchBuffer_def transport_setupScratchBuffer_def
        machine_malloc_def split_beta Let_def)
  have "mctp_initialize L OS C t m = (False, t2\<lparr>scratchBuffer := None, spdmContext := None\<rparr>,
      m3\<lparr>world := lib_deinit_context L (brk (mheap m)) w4\<rparr>)"
    using t2(1) by (simp add: mctp_initialize_def ok1 ok2 3 4 mctp_cleanupContext_def)
  with m3(1) t2(2) heap show ?thesis
    by (simp add: live_malloc)
qed

section \<open>Properties\<close>

definition example_machine :: "unit machine" where
  "example_machine =
     \<lparr>mheap = empty_heap, mkernel = \<lparr>open_fds = {}, nonblocking = {}\<rparr>, world = ()\<rparr>"

text \<open>
  An operating system that has one block left to give while its world is \<open>True\<close>, and whose sockets
  all open.
\<close>

definition one_os :: "bool os" where
  "one_os =
     \<lparr>os_malloc = (\<lambda>n w. (w, False)), os_mctp_socket = (\<lambda>w. ((3, 0), w)),
      os_read_file = (\<lambda>path w. None),
      os_tcp_connect = (\<lambda>ip p w.
        (\<lparr>socket_ret = 4, getfl_ret = 0, pton_ret = 1, connect_ret = 0, connect_errno = EOTHER,
          poll_ret = 1, getsockopt_ret = 0, so_error = 0\<rparr>, w))\<rparr>"

definition lift_libspdm :: "unit libspdm \<Rightarrow> 'w libspdm" where
  "lift_libspdm L =
     \<lparr>lib_get_context_size = lib_get_context_size L,
      lib_init_context = (\<lambda>c w. (fst (lib_init_context L c ()), w)),
      lib_deinit_context = (\<lambda>c w. w), lib_register_device_io = (\<lambda>c w. w),
      lib_register_transport_layer = (\<lambda>c m h t codec w. w),
      lib_register_device_buffer = (\<lambda>c s r w. w),
      lib_scratch_size = (\<lambda>c w. lib_scratch_size L c ()),
      lib_set_scratch_buffer = (\<lambda>c p n w. w),
      lib_set_data = (\<lambda>c k loc v w. (fst (lib_set_data L c k loc v ()), w)),
      lib_get_data32 = (\<lambda>c k loc w. lib_get_data32 L c k loc ()),
      lib_check_context = (\<lambda>c w. lib_check_context L c ()),
      lib_init_connection = (\<lambda>c b w. (fst (lib_init_connection L c b ()), w)),
      lib_get_digest = (\<lambda>c w. (fst (lib_get_digest L c ()), w)),
      lib_get_certificate = (\<lambda>c s n w. (fst (lib_get_certificate L c s n ()), w)),
      lib_get_measurement = (\<lambda>c a op s n w. (fst (lib_get_measurement L c a op s n ()), w)),
      lib_start_session = (\<lambda>c psk h s pol w. (fst (lib_start_session L c psk h s pol ()), w)),
      lib_stop_session = (\<lambda>c i a w. (fst (lib_stop_session L c i a ()), w)),
      lib_heartbeat = (\<lambda>c i w. (fst (lib_heartbeat L c i ()), w)),
      lib_key_update = (\<lambda>c i b w. (fst (lib_key_update L c i b ()), w)),
      lib_send_receive_data = (\<lambda>c i b req n w. (fst (lib_send_receive_data L c i b req n ()), w)),
      lib_base_hash_algo = (\<lambda>c w. lib_base_hash_algo L c ()),
      lib_base_asym_algo = (\<lambda>c w. lib_base_asym_algo L c ()),
      lib_get_hash_size = lib_get_hash_size L,
      lib_x509_get_cert_from_cert_chain = lib_x509_get_cert_from_cert_chain L\<rparr>"

text \<open>
  C15. A failed \<open>initialize\<close> of the TCP transport leaves no block behind: whichever step failed, the
  live blocks are those from before and nothing was freed twice. A successful one leaves exactly two
  new blocks, the context and the scratch buffer, and an open socket.
\<close>

theorem tcp_initialize_no_leak:
  assumes "heap_ok (mheap m)" and "tcp_initialize L OS C t m = (ok, t', m')"
  shows "heap_ok (mheap m') \<and>
    (if ok then tcp_isSocketOpen (tcpIo t') \<and>
        live (mheap m') = {the (spdmContext t'), the (scratchBuffer t')} \<union> live (mheap m) \<and>
        card (live (mheap m') - live (mheap m)) = 2
     else live (mheap m') = live (mheap m))"
proof (cases ok)
  case True
  have fresh: "brk (mheap m) \<notin> live (mheap m)" "Suc (brk (mheap m)) \<notin> live (mheap m)"
    using assms(1) by (auto simp: heap_ok_def)
  from assms True have "tcp_initialize L OS C t m = (True, t', m')"
    by simp
  note s = tcp_life.init_success [OF this] and l = tcp_life.init_live [OF this]
  then have "live (mheap m') - live (mheap m) = {brk (mheap m), Suc (brk (mheap m))}"
    using fresh by auto
  with s l True tcp_life.init_heap_ok [OF assms] show ?thesis
    by (simp add: insert_commute)
next
  case False
  with tcp_initialize_result [OF assms(2)] assms(1) tcp_life.init_heap_ok [OF assms] show ?thesis
    by (auto simp: live_free_malloc)
qed

lemma tcp_initialize_no_leak_witness:
  "\<exists>t' m'. tcp_initialize (lift_libspdm example_libspdm) one_os dsp0274 (tcp_transport_init dsp0274 ''h'' 1)
       \<lparr>mheap = empty_heap, mkernel = \<lparr>open_fds = {}, nonblocking = {}\<rparr>, world = True\<rparr> = (False, t', m') \<and>
     live (mheap m') = {}"
proof -
  let ?m = "\<lparr>mheap = empty_heap, mkernel = \<lparr>open_fds = {}, nonblocking = {}\<rparr>, world = True\<rparr>"
  obtain ok t' m' where run: "tcp_initialize (lift_libspdm example_libspdm) one_os dsp0274
      (tcp_transport_init dsp0274 ''h'' 1) ?m = (ok, t', m')"
    by (metis prod_cases3)
  then have "\<not> ok"
    by (auto simp: tcp_initialize_def tcp_openSocket_def tcp_createSocket_def tcp_allocateContext_def
        tcp_registerFunctions_def transport_registerFunctions_def tcp_setupScratchBuffer_def
        transport_setupScratchBuffer_def machine_malloc_def malloc_works one_os_def lift_libspdm_def
        example_libspdm_def tcp_transport_init_def spdm_transport_init_def tcp_io_init_def
        spdm_transport.defs tcp_isSocketOpen_def fd_set_nonblocking_def Let_def split: prod.splits)
  with run tcp_initialize_no_leak [OF _ run] show ?thesis
    by (simp add: empty_heap_def heap_ok_def)
qed

text \<open>The same system with memory for everything.\<close>

definition rich_os :: "unit os" where
  "rich_os =
     \<lparr>os_malloc = (\<lambda>n w. (True, w)), os_mctp_socket = (\<lambda>w. ((3, 0), w)),
      os_read_file = (\<lambda>path w. None),
      os_tcp_connect = (\<lambda>ip p w.
        (\<lparr>socket_ret = 4, getfl_ret = 0, pton_ret = 1, connect_ret = 0, connect_errno = EOTHER,
          poll_ret = 1, getsockopt_ret = 0, so_error = 0\<rparr>, w))\<rparr>"

lemmas example_run_simps = tcp_initialize_def mctp_initialize_def tcp_openSocket_def
  mctp_openSocket_def tcp_createSocket_def mctp_createSocket_def tcp_allocateContext_def
  mctp_allocateContext_def tcp_registerFunctions_def mctp_registerFunctions_def
  transport_registerFunctions_def tcp_setupScratchBuffer_def mctp_setupScratchBuffer_def
  transport_setupScratchBuffer_def tcp_configureContext_def mctp_configureContext_def
  transport_configureContext_def machine_malloc_def malloc_works rich_os_def example_libspdm_def
  tcp_isSocketOpen_def mctp_isSocketOpen_def fd_set_nonblocking_def set_local_def

lemma rich_tcp_initialize:
  "\<exists>t' m'. tcp_initialize example_libspdm rich_os dsp0274 t m = (True, t', m')"
  by (simp add: example_run_simps split_beta Let_def)

lemma rich_mctp_initialize:
  "\<exists>t' m'. mctp_initialize example_libspdm rich_os dsp0274 t m = (True, t', m')"
  by (simp add: example_run_simps split_beta Let_def)

lemma destroy_leaks_context:
  assumes "heap_ok (mheap m)"
    and "tcp_initialize L OS C t m = (True, t1, m1)" and "mctp_initialize L OS C u m = (True, u1, n1)"
  shows "live (mheap (snd (tcp_transport_destroy L t1 m1))) = insert (the (spdmContext t1)) (live (mheap m)) \<and>
    live (mheap (snd (mctp_transport_destroy L u1 n1))) = insert (the (spdmContext u1)) (live (mheap m)) \<and>
    the (spdmContext t1) \<notin> live (mheap m) \<and> the (spdmContext u1) \<notin> live (mheap m)"
proof -
  note t = tcp_life.init_success [OF assms(2)] and u = mctp_life.init_success [OF assms(3)]
  have "live (mheap (snd (tcp_transport_destroy L t1 m1))) = insert (brk (mheap m)) (live (mheap m))"
    using t by (simp add: tcp_transport_destroy_def split_beta destroy_result [OF assms(1)])
  moreover have "live (mheap (snd (mctp_transport_destroy L u1 n1))) = insert (brk (mheap m)) (live (mheap m))"
    using u by (simp add: mctp_transport_destroy_def split_beta destroy_result [OF assms(1)])
  ultimately show ?thesis
    using t u assms(1) by simp
qed

text \<open>
  C29. The block of a context is never freed. An MCTP transport that is initialized and destroyed leaves
  its context's block behind as soon as it was allocated, whether the initialization succeeded or
  failed, and at which step. A TCP transport frees the block when the initialization fails, and leaves
  it behind when it succeeded. Nothing else is left.
\<close>

theorem context_block_leaks:
  assumes "heap_ok (mheap m)" and "scratchBuffer t = None" "scratchBuffer u = None"
    and mctp: "mctp_initialize L OS C t m = (ok, t', m')"
    and tcp: "tcp_initialize L OS C u m = (ok', u', n')"
  shows "live (mheap (snd (mctp_transport_destroy L t' m'))) =
      live (mheap m) \<union> (if brk (mheap m') = brk (mheap m) then {} else {brk (mheap m)}) \<and>
    live (mheap (snd (tcp_transport_destroy L u' n'))) =
      live (mheap m) \<union> (if ok' then {the (spdmContext u')} else {}) \<and>
    (ok \<longrightarrow> the (spdmContext t') = brk (mheap m) \<and> brk (mheap m') \<noteq> brk (mheap m)) \<and>
    brk (mheap m) \<notin> live (mheap m)"
proof (intro conjI)
  note rm = mctp_initialize_result [OF mctp] and rt = tcp_initialize_result [OF tcp]
  show "live (mheap (snd (mctp_transport_destroy L t' m'))) =
      live (mheap m) \<union> (if brk (mheap m') = brk (mheap m) then {} else {brk (mheap m)})"
  proof (cases ok)
    case True
    with rm have "brk (mheap m') \<noteq> brk (mheap m)"
      by (simp add: malloc_works)
    with rm True show ?thesis
      by (simp add: mctp_transport_destroy_def split_beta destroy_result [OF assms(1)])
  next
    case False
    with mctp_failure_scratch [OF mctp] assms(2) have "scratchBuffer t' = None"
      by simp
    with rm False show ?thesis
      by (auto simp: mctp_transport_destroy_def split_beta destroy_without_scratch malloc_works)
  qed
  show "live (mheap (snd (tcp_transport_destroy L u' n'))) =
      live (mheap m) \<union> (if ok' then {the (spdmContext u')} else {})"
  proof (cases ok')
    case True
    with rt show ?thesis
      by (simp add: tcp_transport_destroy_def split_beta destroy_result [OF assms(1)])
  next
    case False
    with tcp_failure_scratch [OF tcp] assms(3) have "scratchBuffer u' = None"
      by simp
    with rt False show ?thesis
      by (auto simp: tcp_transport_destroy_def split_beta destroy_without_scratch live_free_malloc [OF assms(1)])
  qed
  show "ok \<longrightarrow> the (spdmContext t') = brk (mheap m) \<and> brk (mheap m') \<noteq> brk (mheap m)"
    using rm by (simp add: malloc_works)
qed (use assms(1) in simp)

text \<open>
  The scratch buffer is the second block asked for: a system that has only one fails both
  initializations, and the MCTP transport keeps that one for ever.
\<close>

lemma context_block_leaks_witness:
  "\<exists>t' m' u' n'.
     mctp_initialize (lift_libspdm example_libspdm) one_os dsp0274 (mctp_transport_init dsp0274 8)
       \<lparr>mheap = empty_heap, mkernel = \<lparr>open_fds = {}, nonblocking = {}\<rparr>, world = True\<rparr> = (False, t', m') \<and>
     tcp_initialize (lift_libspdm example_libspdm) one_os dsp0274 (tcp_transport_init dsp0274 ''h'' 1)
       \<lparr>mheap = empty_heap, mkernel = \<lparr>open_fds = {}, nonblocking = {}\<rparr>, world = True\<rparr> = (False, u', n') \<and>
     live (mheap (snd (mctp_transport_destroy (lift_libspdm example_libspdm) t' m'))) = {0} \<and>
     live (mheap (snd (tcp_transport_destroy (lift_libspdm example_libspdm) u' n'))) = {}"
proof -
  let ?L = "lift_libspdm example_libspdm :: bool libspdm"
  let ?m = "\<lparr>mheap = empty_heap, mkernel = \<lparr>open_fds = {}, nonblocking = {}\<rparr>, world = True\<rparr>"
  let ?t = "mctp_transport_init dsp0274 8" and ?u = "tcp_transport_init dsp0274 ''h'' 1"
  obtain t' m' where 1: "mctp_initialize ?L one_os dsp0274 ?t ?m = (False, t', m')" "brk (mheap m') = 1"
    by (simp add: example_run_simps one_os_def lift_libspdm_def mctp_transport_init_def mctp_io_init_def
        spdm_transport_init_def spdm_transport.defs mctp_cleanupContext_def empty_heap_def)
  obtain u' n' where 2: "tcp_initialize ?L one_os dsp0274 ?u ?m = (False, u', n')"
    by (simp add: example_run_simps one_os_def lift_libspdm_def tcp_transport_init_def tcp_io_init_def
        spdm_transport_init_def spdm_transport.defs tcp_cleanupContext_def empty_heap_def split_beta)
  have "heap_ok (mheap ?m)" "scratchBuffer ?t = None" "scratchBuffer ?u = None"
    by (simp_all add: mctp_transport_init_def tcp_transport_init_def spdm_transport_init_def
        spdm_transport.defs)
  from context_block_leaks [OF this 1(1) 2] 1 2 show ?thesis
    by (simp add: empty_heap_def)
qed

end
