(* ===== verification/Session_Config.thy ===== *)
theory Session_Config
  imports Transport
begin

text \<open>
  \<^verbatim>\<open>requester/spdm_session_config.hpp\<close> and \<^verbatim>\<open>.cpp\<close>: applying the secure-session settings to a
  transport (\<open>applySecureSessionConfig\<close>) and installing the peer's root certificate
  (\<open>installPeerRootCert\<close>). \<open>set_all\<close> is the abstract reading of the first: a list of settings,
  applied in order up to the first one libspdm refuses.
\<close>

section \<open>The configuration\<close>

record SecureSessionConfig =
  cfg_version :: byte
  requesterCapFlags :: u32
  dheGroup :: u16
  aeadCipher :: u16
  reqAsymAlg :: u16
  keySchedule :: u16
  otherParamsSupport :: byte
  peerRootCertDer :: bytes
  peerRootCertDerPath :: string
  peerRootCertBaseDir :: string
  peerRootCertFileName :: string

definition default_SecureSessionConfig :: "spdm_consts \<Rightarrow> SecureSessionConfig" where
  "default_SecureSessionConfig C =
     \<lparr>cfg_version = 0,
      requesterCapFlags =
        REQ_CERT_CAP C OR REQ_CHAL_CAP C OR REQ_ENCRYPT_CAP C OR REQ_MAC_CAP C OR
        REQ_KEY_EX_CAP C OR REQ_HBEAT_CAP C OR REQ_KEY_UPD_CAP C,
      dheGroup = DHE_SECP_384_R1 C,
      aeadCipher = AEAD_AES_256_GCM C,
      reqAsymAlg = ucast (BASE_ASYM_RSASSA_2048 C),
      keySchedule = KEY_SCHEDULE_SPDM C,
      otherParamsSupport = 0,
      peerRootCertDer = [],
      peerRootCertDerPath = '''',
      peerRootCertBaseDir = '''',
      peerRootCertFileName = ''ca.cert.der''\<rparr>"

section \<open>Applying the settings\<close>

definition setData :: "'w libspdm \<Rightarrow> ptr \<Rightarrow> data_key \<Rightarrow> data_value \<Rightarrow> 'w \<Rightarrow> status \<times> 'w" where
  "setData L c key v w = lib_set_data L c key LIBSPDM_DATA_LOCATION_LOCAL v w"

definition applyVersionConfig ::
    "'w libspdm \<Rightarrow> spdm_consts \<Rightarrow> ptr \<Rightarrow> 'a spdm_transport_scheme \<Rightarrow> byte \<Rightarrow> 'w
     \<Rightarrow> status \<times> 'a spdm_transport_scheme \<times> 'w"
where
  "applyVersionConfig L C c t version w =
     (if version = 0 then (LIBSPDM_STATUS_SUCCESS, t, w)
      else
        (let v = push_bit (SPDM_VERSION_NUMBER_SHIFT_BIT C) (ucast version :: u16);
             (st, w) = lib_set_data L c LIBSPDM_DATA_SPDM_VERSION LIBSPDM_DATA_LOCATION_LOCAL
                         (Data16 v) w in
         if IS_ERROR st then (st, t, w)
         else (LIBSPDM_STATUS_SUCCESS, t\<lparr>useVersion := version\<rparr>, w)))"

definition applySecureSessionConfig ::
    "'w libspdm \<Rightarrow> spdm_consts \<Rightarrow> 'a spdm_transport_scheme \<Rightarrow> SecureSessionConfig \<Rightarrow> 'w
     \<Rightarrow> status \<times> 'a spdm_transport_scheme \<times> 'w"
where
  "applySecureSessionConfig L C t cfg w =
     (case spdmContext t of
        None \<Rightarrow> (LIBSPDM_STATUS_INVALID_PARAMETER, t, w)
      | Some c \<Rightarrow>
        (let (st, t, w) = applyVersionConfig L C c t (cfg_version cfg) w in
         if IS_ERROR st then (st, t, w) else
        (let (st, w) = setData L c LIBSPDM_DATA_CAPABILITY_FLAGS (Data32 (requesterCapFlags cfg)) w in
         if IS_ERROR st then (st, t, w) else
        (let t = t\<lparr>useRequesterCapabilityFlags := requesterCapFlags cfg\<rparr>;
             (st, w) = setData L c LIBSPDM_DATA_DHE_NAME_GROUP (Data16 (dheGroup cfg)) w in
         if IS_ERROR st then (st, t, w) else
        (let (st, w) = setData L c LIBSPDM_DATA_AEAD_CIPHER_SUITE (Data16 (aeadCipher cfg)) w in
         if IS_ERROR st then (st, t, w) else
        (let (st, w) = setData L c LIBSPDM_DATA_REQ_BASE_ASYM_ALG (Data16 (reqAsymAlg cfg)) w in
         if IS_ERROR st then (st, t, w) else
        (let (st, w) = setData L c LIBSPDM_DATA_KEY_SCHEDULE (Data16 (keySchedule cfg)) w in
         if IS_ERROR st then (st, t, w) else
        (let (st, w) = setData L c LIBSPDM_DATA_OTHER_PARAMS_SUPPORT
                         (Data8 (otherParamsSupport cfg)) w in
         if IS_ERROR st then (st, t, w) else
         if \<not> lib_check_context L c w then (LIBSPDM_STATUS_INVALID_STATE_LOCAL, t, w)
         else (LIBSPDM_STATUS_SUCCESS, t, w)))))))))"

text \<open>The abstract reading: the settings in order, and the first refusal ends it.\<close>

fun set_all ::
    "'w libspdm \<Rightarrow> ptr \<Rightarrow> (data_key \<times> data_value) list \<Rightarrow> 'w \<Rightarrow> status option \<times> 'w" where
  "set_all L c [] w = (None, w)"
| "set_all L c ((key, v) # kvs) w =
     (let (st, w) = lib_set_data L c key LIBSPDM_DATA_LOCATION_LOCAL v w in
      if IS_ERROR st then (Some st, w) else set_all L c kvs w)"

definition session_settings ::
    "spdm_consts \<Rightarrow> SecureSessionConfig \<Rightarrow> (data_key \<times> data_value) list" where
  "session_settings C cfg =
     (if cfg_version cfg = 0 then []
      else [(LIBSPDM_DATA_SPDM_VERSION, Data16 (spdm_version_number C (cfg_version cfg)))]) @
     [(LIBSPDM_DATA_CAPABILITY_FLAGS, Data32 (requesterCapFlags cfg)),
      (LIBSPDM_DATA_DHE_NAME_GROUP, Data16 (dheGroup cfg)),
      (LIBSPDM_DATA_AEAD_CIPHER_SUITE, Data16 (aeadCipher cfg)),
      (LIBSPDM_DATA_REQ_BASE_ASYM_ALG, Data16 (reqAsymAlg cfg)),
      (LIBSPDM_DATA_KEY_SCHEDULE, Data16 (keySchedule cfg)),
      (LIBSPDM_DATA_OTHER_PARAMS_SUPPORT, Data8 (otherParamsSupport cfg))]"

section \<open>The peer's root certificate\<close>

text \<open>
  \<open>operator/\<close> of \<^verbatim>\<open>std::filesystem::path\<close>: an absolute right-hand side replaces the path, another one
  is appended after a separator, unless there is one.
\<close>

definition path_join :: "string \<Rightarrow> string \<Rightarrow> string" where
  "path_join p q =
     (if q \<noteq> [] \<and> hd q = CHR ''/'' then q
      else if p = [] \<or> last p = CHR ''/'' then p @ q
      else p @ ''/'' @ q)"

definition readFile :: "'w os \<Rightarrow> string \<Rightarrow> 'w \<Rightarrow> bytes" where
  "readFile OS path w = (case os_read_file OS path w of None \<Rightarrow> [] | Some data \<Rightarrow> data)"

text \<open>\<open>CertLoadResult\<close>: the bytes and, for the log, where they come from.\<close>

definition loadCertFromFile :: "'w os \<Rightarrow> string \<Rightarrow> 'w \<Rightarrow> (bytes \<times> string) option" where
  "loadCertFromFile OS path w =
     (let data = readFile OS path w in if data = [] then None else Some (data, path))"

definition asymAlgoSubdir :: "spdm_consts \<Rightarrow> u32 \<Rightarrow> string option" where
  "asymAlgoSubdir C algo =
     (if algo = BASE_ASYM_RSASSA_2048 C \<or> algo = BASE_ASYM_RSAPSS_2048 C then Some ''rsa2048''
      else if algo = BASE_ASYM_RSASSA_3072 C \<or> algo = BASE_ASYM_RSAPSS_3072 C then Some ''rsa3072''
      else if algo = BASE_ASYM_RSASSA_4096 C \<or> algo = BASE_ASYM_RSAPSS_4096 C then Some ''rsa4096''
      else if algo = BASE_ASYM_ECDSA_P256 C then Some ''ecp256''
      else if algo = BASE_ASYM_ECDSA_P384 C then Some ''ecp384''
      else if algo = BASE_ASYM_ECDSA_P521 C then Some ''ecp521''
      else if algo = BASE_ASYM_SM2_P256 C then Some ''sm2''
      else if algo = BASE_ASYM_EDDSA_ED25519 C then Some ''ed25519''
      else if algo = BASE_ASYM_EDDSA_ED448 C then Some ''ed448''
      else None)"

definition getNegotiatedAsymAlgo :: "'w libspdm \<Rightarrow> ptr \<Rightarrow> 'w \<Rightarrow> u32" where
  "getNegotiatedAsymAlgo L c w =
     (let (st, algo) = lib_get_data32 L c LIBSPDM_DATA_BASE_ASYM_ALGO
                         LIBSPDM_DATA_LOCATION_CONNECTION w
      in if IS_ERROR st then 0 else algo)"

definition loadPeerRootCert ::
    "'w libspdm \<Rightarrow> 'w os \<Rightarrow> spdm_consts \<Rightarrow> ptr \<Rightarrow> SecureSessionConfig \<Rightarrow> 'w
     \<Rightarrow> (bytes \<times> string) option"
where
  "loadPeerRootCert L OS C c cfg w =
     (if peerRootCertDer cfg \<noteq> [] then Some (peerRootCertDer cfg, ''in-memory blob'')
      else if peerRootCertDerPath cfg \<noteq> '''' then loadCertFromFile OS (peerRootCertDerPath cfg) w
      else if peerRootCertBaseDir cfg \<noteq> '''' then
        (case asymAlgoSubdir C (getNegotiatedAsymAlgo L c w) of
           None \<Rightarrow> None
         | Some subdir \<Rightarrow>
             loadCertFromFile OS
               (path_join (path_join (peerRootCertBaseDir cfg) subdir) (peerRootCertFileName cfg)) w)
      else None)"

definition configAttempted :: "SecureSessionConfig \<Rightarrow> bool" where
  "configAttempted cfg \<longleftrightarrow>
     peerRootCertDer cfg \<noteq> [] \<or> peerRootCertDerPath cfg \<noteq> '''' \<or> peerRootCertBaseDir cfg \<noteq> ''''"

definition installPeerRootCert ::
    "'w libspdm \<Rightarrow> 'w os \<Rightarrow> spdm_consts \<Rightarrow> 'a spdm_transport_scheme \<Rightarrow> SecureSessionConfig \<Rightarrow> 'w
     \<Rightarrow> status \<times> 'w"
where
  "installPeerRootCert L OS C t cfg w =
     (case spdmContext t of
        None \<Rightarrow> (LIBSPDM_STATUS_INVALID_PARAMETER, w)
      | Some c \<Rightarrow>
          (case loadPeerRootCert L OS C c cfg w of
             None \<Rightarrow>
               if configAttempted cfg then (LIBSPDM_STATUS_INVALID_PARAMETER, w)
               else (LIBSPDM_STATUS_SUCCESS, w)
           | Some (data, source) \<Rightarrow>
               (let (st, w) = lib_set_data L c LIBSPDM_DATA_PEER_PUBLIC_ROOT_CERT
                                LIBSPDM_DATA_LOCATION_LOCAL (DataBlob data) w in
                if IS_ERROR st then (st, w) else (LIBSPDM_STATUS_SUCCESS, w))))"

section \<open>Lemmas\<close>

lemma applySecureSessionConfig_result:
  assumes c: "spdmContext t = Some c"
    and all: "set_all L c (session_settings C cfg) w = (r, w')"
  shows "fst (applySecureSessionConfig L C t cfg w) =
           (case r of
              Some st \<Rightarrow> st
            | None \<Rightarrow> if lib_check_context L c w' then LIBSPDM_STATUS_SUCCESS
                      else LIBSPDM_STATUS_INVALID_STATE_LOCAL) \<and>
         snd (snd (applySecureSessionConfig L C t cfg w)) = w'"
proof -
  have "r = fst (set_all L c (session_settings C cfg) w)" "w' = snd (set_all L c (session_settings C cfg) w)"
    using all by simp_all
  then show ?thesis
    using c by (cases "cfg_version cfg = 0")
      (simp_all add: applySecureSessionConfig_def applyVersionConfig_def session_settings_def
        spdm_version_number_def setData_def Let_def split_beta)
qed

lemma set_all_error: "set_all L c kvs w = (Some st, w') \<Longrightarrow> IS_ERROR st"
  by (induction kvs arbitrary: w) (auto split: prod.splits if_splits)

lemma applySecureSessionConfig_context [simp]:
  "spdmContext (fst (snd (applySecureSessionConfig L C t cfg w))) = spdmContext t"
  by (cases "spdmContext t")
    (simp_all add: applySecureSessionConfig_def applyVersionConfig_def Let_def split_beta)

section \<open>Properties\<close>

text \<open>
  C18. Applying the secure-session configuration is setting its values in order up to the first one
  libspdm refuses, whose status it returns; when all are taken the context check decides. The
  version is only set when it is not zero, and only then does the transport remember it; the
  requester's capability flags are remembered once libspdm has taken them.
\<close>

theorem applySecureSessionConfig_refines_set_all:
  assumes "spdmContext t = Some c"
  shows "case applySecureSessionConfig L C t cfg w of (st, t', w') \<Rightarrow>
    (case set_all L c (session_settings C cfg) w of (r, v) \<Rightarrow>
       w' = v \<and>
       st = (case r of
               Some e \<Rightarrow> e
             | None \<Rightarrow> if lib_check_context L c v then LIBSPDM_STATUS_SUCCESS
                       else LIBSPDM_STATUS_INVALID_STATE_LOCAL) \<and>
       (st = LIBSPDM_STATUS_SUCCESS \<longrightarrow>
          useRequesterCapabilityFlags t' = requesterCapFlags cfg \<and>
          useVersion t' = (if cfg_version cfg = 0 then useVersion t else cfg_version cfg))) \<and>
    spdmContext t' = Some c"
proof -
  obtain r v where all: "set_all L c (session_settings C cfg) w = (r, v)"
    by fastforce
  obtain st t' w' where run: "applySecureSessionConfig L C t cfg w = (st, t', w')"
    by (metis prod_cases3)
  have "spdmContext t' = Some c"
    using applySecureSessionConfig_context [of L C t cfg w] assms run by simp
  moreover have "st = LIBSPDM_STATUS_SUCCESS \<longrightarrow>
      useRequesterCapabilityFlags t' = requesterCapFlags cfg \<and>
      useVersion t' = (if cfg_version cfg = 0 then useVersion t else cfg_version cfg)"
    using run assms
    by (auto simp: applySecureSessionConfig_def applyVersionConfig_def Let_def
        split: prod.splits if_splits)
  ultimately show ?thesis
    using applySecureSessionConfig_result [OF assms all] all run by auto
qed

lemma applySecureSessionConfig_refines_set_all_witness:
  "fst (applySecureSessionConfig example_libspdm dsp0274
     ((spdm_transport_init dsp0274)\<lparr>spdmContext := Some 7\<rparr>)
     (default_SecureSessionConfig dsp0274) ()) = LIBSPDM_STATUS_SUCCESS"
  using applySecureSessionConfig_refines_set_all [where t = "(spdm_transport_init dsp0274)\<lparr>spdmContext := Some 7\<rparr>"
      and c = 7 and L = example_libspdm and C = dsp0274 and cfg = "default_SecureSessionConfig dsp0274"
      and w = "()"]
  by (simp add: split_beta session_settings_def example_libspdm_def default_SecureSessionConfig_def)

text \<open>
  C19. Which root certificate is installed: the bytes of the configuration if there are any, else the
  file it names, else the file in the directory of the negotiated algorithm; the later ones are not
  tried when an earlier one is configured. With nothing configured it succeeds without touching
  libspdm, and with a configuration that yields no bytes it fails without touching it.
\<close>

theorem installPeerRootCert_source:
  assumes "spdmContext t = Some c"
  shows "installPeerRootCert L OS C t cfg w =
    (let install = (\<lambda>data.
           let (st, w') = lib_set_data L c LIBSPDM_DATA_PEER_PUBLIC_ROOT_CERT
                            LIBSPDM_DATA_LOCATION_LOCAL (DataBlob data) w
           in (if IS_ERROR st then st else LIBSPDM_STATUS_SUCCESS, w'));
         file = (\<lambda>path. case os_read_file OS path w of
            Some (b # bs) \<Rightarrow> install (b # bs)
          | _ \<Rightarrow> (LIBSPDM_STATUS_INVALID_PARAMETER, w)) in
     if peerRootCertDer cfg \<noteq> [] then install (peerRootCertDer cfg)
     else if peerRootCertDerPath cfg \<noteq> '''' then file (peerRootCertDerPath cfg)
     else if peerRootCertBaseDir cfg = '''' then (LIBSPDM_STATUS_SUCCESS, w)
     else (case asymAlgoSubdir C (getNegotiatedAsymAlgo L c w) of
             None \<Rightarrow> (LIBSPDM_STATUS_INVALID_PARAMETER, w)
           | Some dir \<Rightarrow>
               file (path_join (path_join (peerRootCertBaseDir cfg) dir) (peerRootCertFileName cfg))))"
  using assms
  by (simp add: installPeerRootCert_def loadPeerRootCert_def loadCertFromFile_def readFile_def
      configAttempted_def Let_def split_beta split: option.split list.split)

definition cert_os :: "unit os" where
  "cert_os =
     \<lparr>os_malloc = (\<lambda>n w. (True, w)), os_mctp_socket = (\<lambda>w. ((3, 0), w)),
      os_read_file = (\<lambda>path w. if path = ''/certs/ecp256/ca.cert.der'' then Some [0x30] else None),
      os_tcp_connect = (\<lambda>ip p w.
        (\<lparr>socket_ret = 4, getfl_ret = 0, pton_ret = 1, connect_ret = 0, connect_errno = EOTHER,
          poll_ret = 1, getsockopt_ret = 0, so_error = 0\<rparr>, w))\<rparr>"

lemma installPeerRootCert_source_witness:
  "installPeerRootCert example_libspdm cert_os dsp0274
     ((spdm_transport_init dsp0274)\<lparr>spdmContext := Some 7\<rparr>)
     ((default_SecureSessionConfig dsp0274)\<lparr>peerRootCertBaseDir := ''/certs''\<rparr>) () =
     (LIBSPDM_STATUS_SUCCESS, ()) \<and>
   installPeerRootCert example_libspdm cert_os dsp0274
     ((spdm_transport_init dsp0274)\<lparr>spdmContext := Some 7\<rparr>)
     ((default_SecureSessionConfig dsp0274)\<lparr>peerRootCertDerPath := ''/x''\<rparr>) () =
     (LIBSPDM_STATUS_INVALID_PARAMETER, ())"
  by (simp add: installPeerRootCert_source [where c = 7] example_libspdm_def cert_os_def
      default_SecureSessionConfig_def asymAlgoSubdir_def getNegotiatedAsymAlgo_def dsp0274_def
      path_join_def)

end
