(* ===== verification/Session.thy ===== *)
theory Session
  imports Session_Config
begin

text \<open>
  \<^verbatim>\<open>requester/spdm_session.hpp\<close> and \<^verbatim>\<open>.cpp\<close>: \<open>SpdmSession\<close>, one secure session over a transport. The
  interface \<open>session_endpoint\<close> states what its owner relies on: whether it is active, that starting an active
  session or stopping an inactive one does not reach libspdm, and that stopping always ends
  inactive. The transport is represented by its context pointer \<open>ctx\<close>, the only member used.
\<close>

text \<open>The fallback of the source for builds of libspdm that do not define it.\<close>

definition LIBSPDM_MAX_CERT_CHAIN_SIZE :: nat where
  "LIBSPDM_MAX_CERT_CHAIN_SIZE = 0x1000"

record spdm_session =
  sess_id :: u32
  hbPeriod :: byte
  isActive :: bool

definition spdm_session_init :: spdm_session where
  "spdm_session_init = \<lparr>sess_id = 0, hbPeriod = 0, isActive = False\<rparr>"

text \<open>
  \<open>(slotMask & (1u << slotId)) == 0\<close>. A shift by 32 or more is undefined in C++; the program
  only asks for slot 0.
\<close>

definition slot_present :: "byte \<Rightarrow> byte \<Rightarrow> bool" where
  "slot_present slotMask slotId \<longleftrightarrow>
     (ucast slotMask :: u32) AND push_bit (unat slotId) 1 \<noteq> 0"

definition fetchPeerCert :: "'w libspdm \<Rightarrow> ptr \<Rightarrow> byte \<Rightarrow> 'w \<Rightarrow> status \<times> 'w" where
  "fetchPeerCert L c slotId w =
     (let ((st, slotMask, digests), w) = lib_get_digest L c w in
      if IS_ERROR st then (st, w)
      else if \<not> slot_present slotMask slotId then (LIBSPDM_STATUS_INVALID_PARAMETER, w)
      else
        (let ((st, certChain), w) = lib_get_certificate L c slotId LIBSPDM_MAX_CERT_CHAIN_SIZE w in
         if IS_ERROR st then (st, w) else (LIBSPDM_STATUS_SUCCESS, w)))"

definition session_start ::
    "'w libspdm \<Rightarrow> ptr option \<Rightarrow> byte \<Rightarrow> byte \<Rightarrow> byte \<Rightarrow> bool \<Rightarrow> spdm_session \<Rightarrow> 'w
     \<Rightarrow> status \<times> spdm_session \<times> 'w"
where
  "session_start L ctx slotId measHashType sessionPolicy usePsk s w =
     (case ctx of
        None \<Rightarrow> (LIBSPDM_STATUS_INVALID_PARAMETER, s, w)
      | Some c \<Rightarrow>
          if isActive s then (LIBSPDM_STATUS_SUCCESS, s, w)
          else
            (let (st, w) =
               (if \<not> usePsk then fetchPeerCert L c slotId w else (LIBSPDM_STATUS_SUCCESS, w)) in
             if IS_ERROR st then (st, s, w)
             else
               (let s = s\<lparr>hbPeriod := 0\<rparr>;
                    ((st, i, hb), w) =
                      lib_start_session L c usePsk measHashType slotId sessionPolicy w;
                    s = s\<lparr>sess_id := i, hbPeriod := hb\<rparr> in
                if IS_ERROR st then (st, s, w)
                else (LIBSPDM_STATUS_SUCCESS, s\<lparr>isActive := True\<rparr>, w))))"

definition session_stop ::
    "'w libspdm \<Rightarrow> ptr option \<Rightarrow> byte \<Rightarrow> spdm_session \<Rightarrow> 'w \<Rightarrow> status \<times> spdm_session \<times> 'w" where
  "session_stop L ctx endAttrs s w =
     (if \<not> isActive s then (LIBSPDM_STATUS_SUCCESS, s, w)
      else
        (let (st, w) = lib_stop_session L ctx (sess_id s) endAttrs w
         in (st, s\<lparr>isActive := False\<rparr>, w)))"

text \<open>The destructor.\<close>

definition session_destroy ::
    "'w libspdm \<Rightarrow> ptr option \<Rightarrow> spdm_session \<Rightarrow> 'w \<Rightarrow> spdm_session \<times> 'w" where
  "session_destroy L ctx s w =
     (if isActive s then (let (st, s, w) = session_stop L ctx 0 s w in (s, w)) else (s, w))"

definition session_heartbeat ::
    "'w libspdm \<Rightarrow> ptr option \<Rightarrow> spdm_session \<Rightarrow> 'w \<Rightarrow> status \<times> 'w" where
  "session_heartbeat L ctx s w =
     (if \<not> isActive s then (LIBSPDM_STATUS_INVALID_STATE_LOCAL, w)
      else lib_heartbeat L ctx (sess_id s) w)"

definition session_keyUpdate ::
    "'w libspdm \<Rightarrow> ptr option \<Rightarrow> bool \<Rightarrow> spdm_session \<Rightarrow> 'w \<Rightarrow> status \<times> 'w" where
  "session_keyUpdate L ctx singleDirection s w =
     (if \<not> isActive s then (LIBSPDM_STATUS_INVALID_STATE_LOCAL, w)
      else lib_key_update L ctx (sess_id s) singleDirection w)"

text \<open>\<open>send\<close> offers the whole response buffer, of \<open>capacity\<close> bytes; the result is what libspdm wrote.\<close>

definition session_send ::
    "'w libspdm \<Rightarrow> ptr option \<Rightarrow> bytes \<Rightarrow> nat \<Rightarrow> spdm_session \<Rightarrow> 'w \<Rightarrow> (status \<times> bytes) \<times> 'w"
where
  "session_send L ctx req capacity s w =
     (if \<not> isActive s then ((LIBSPDM_STATUS_INVALID_STATE_LOCAL, []), w)
      else lib_send_receive_data L ctx (sess_id s) True req capacity w)"

section \<open>The contract of a session\<close>

locale session_endpoint =
  fixes open_it :: "'s \<Rightarrow> 'w \<Rightarrow> status \<times> 's \<times> 'w"
    and close_it :: "'s \<Rightarrow> 'w \<Rightarrow> status \<times> 's \<times> 'w"
    and active :: "'s \<Rightarrow> bool"
  assumes open_active: "active s \<Longrightarrow> \<exists>st. open_it s w = (st, s, w)"
    and open_success: "open_it s w = (LIBSPDM_STATUS_SUCCESS, s', w') \<Longrightarrow> active s'"
    and open_failure: "\<not> active s \<Longrightarrow> open_it s w = (st, s', w') \<Longrightarrow> IS_ERROR st \<Longrightarrow> \<not> active s'"
    and close_inactive: "\<not> active s \<Longrightarrow> close_it s w = (LIBSPDM_STATUS_SUCCESS, s, w)"
    and close_ends: "close_it s w = (st, s', w') \<Longrightarrow> \<not> active s'"
begin

lemma open_idempotent:
  assumes "open_it s w = (LIBSPDM_STATUS_SUCCESS, s1, w1)"
  shows "\<exists>st. open_it s1 w1 = (st, s1, w1)"
  using assms open_active open_success by blast

lemma close_idempotent:
  assumes "close_it s w = (st, s1, w1)"
  shows "close_it s1 w1 = (LIBSPDM_STATUS_SUCCESS, s1, w1)"
  using assms close_ends close_inactive by blast

end

interpretation session: session_endpoint
  "\<lambda>s w. session_start L ctx slotId measHashType sessionPolicy usePsk s w"
  "\<lambda>s w. session_stop L ctx endAttrs s w" isActive
  for L ctx slotId measHashType sessionPolicy usePsk endAttrs
proof unfold_locales
  fix s :: spdm_session and w
  assume "isActive s"
  then show "\<exists>st. session_start L ctx slotId measHashType sessionPolicy usePsk s w = (st, s, w)"
    by (auto simp: session_start_def split: option.splits)
qed (auto simp: session_start_def session_stop_def Let_def
      split: option.splits if_splits prod.splits)

section \<open>Properties\<close>

text \<open>
  C16. What a successful start of an inactive session without a pre-shared key has done: libspdm gave
  the digests, the peer reports a certificate in the slot, the certificate chain was fetched, and the session
  that libspdm then opened is the one the object keeps: heartbeat, key update, data and stop go to
  its identifier, and stopping leaves the object inactive, when all of them refuse without calling
  libspdm.
\<close>

theorem session_start_success:
  assumes "\<not> isActive s"
    and "session_start L ctx slotId hash policy False s w = (LIBSPDM_STATUS_SUCCESS, s', w')"
  shows "\<exists>c mask digests w1 chain w2 st1 st2 st3.
    ctx = Some c \<and> isActive s' \<and>
    lib_get_digest L c w = ((st1, mask, digests), w1) \<and> \<not> IS_ERROR st1 \<and> slot_present mask slotId \<and>
    lib_get_certificate L c slotId LIBSPDM_MAX_CERT_CHAIN_SIZE w1 = ((st2, chain), w2) \<and>
    \<not> IS_ERROR st2 \<and>
    lib_start_session L c False hash slotId policy w2 = ((st3, sess_id s', hbPeriod s'), w') \<and>
    \<not> IS_ERROR st3 \<and>
    session_heartbeat L ctx s' v = lib_heartbeat L ctx (sess_id s') v \<and>
    session_keyUpdate L ctx single s' v = lib_key_update L ctx (sess_id s') single v \<and>
    session_send L ctx req n s' v = lib_send_receive_data L ctx (sess_id s') True req n v \<and>
    snd (snd (session_stop L ctx attrs s' v)) = snd (lib_stop_session L ctx (sess_id s') attrs v) \<and>
    (let s'' = fst (snd (session_stop L ctx attrs s' v)) in
       \<not> isActive s'' \<and>
       session_heartbeat L ctx s'' v = (LIBSPDM_STATUS_INVALID_STATE_LOCAL, v) \<and>
       session_keyUpdate L ctx single s'' v = (LIBSPDM_STATUS_INVALID_STATE_LOCAL, v) \<and>
       session_send L ctx req n s'' v = ((LIBSPDM_STATUS_INVALID_STATE_LOCAL, []), v) \<and>
       session_stop L ctx attrs s'' v = (LIBSPDM_STATUS_SUCCESS, s'', v))"
proof -
  from assms(2) obtain c where c: "ctx = Some c"
    by (auto simp: session_start_def split: option.splits)
  obtain st1 mask digests w1 where d: "lib_get_digest L c w = ((st1, mask, digests), w1)"
    by (metis prod.collapse)
  obtain st2 chain w2 where g:
    "lib_get_certificate L c slotId LIBSPDM_MAX_CERT_CHAIN_SIZE w1 = ((st2, chain), w2)"
    by (metis prod.collapse)
  obtain st3 i hb w3 where b: "lib_start_session L c False hash slotId policy w2 = ((st3, i, hb), w3)"
    by (metis prod.collapse)
  from assms c d g b have "\<not> IS_ERROR st1" "slot_present mask slotId" "\<not> IS_ERROR st2" "\<not> IS_ERROR st3"
    and s': "s' = \<lparr>sess_id = i, hbPeriod = hb, isActive = True\<rparr>" "w' = w3"
    by (auto simp: session_start_def fetchPeerCert_def Let_def split: if_splits)
  with c d g b show ?thesis
    by (simp add: session_heartbeat_def session_keyUpdate_def session_send_def session_stop_def
        split_beta Let_def)
qed

lemma session_start_success_witness:
  "\<exists>s' mask digests w1. session_start example_libspdm (Some 7) 0 0 0 False spdm_session_init () =
       (LIBSPDM_STATUS_SUCCESS, s', ()) \<and>
     lib_get_digest example_libspdm 7 () = ((LIBSPDM_STATUS_SUCCESS, mask, digests), w1) \<and>
     slot_present mask 0 \<and>
     session_heartbeat example_libspdm (Some 7) s' () = lib_heartbeat example_libspdm (Some 7) (sess_id s') ()"
proof -
  obtain s' where s': "session_start example_libspdm (Some 7) 0 0 0 False spdm_session_init () =
      (LIBSPDM_STATUS_SUCCESS, s', ())"
    by (simp add: session_start_def spdm_session_init_def fetchPeerCert_def example_libspdm_def
        slot_present_def)
  have "\<not> isActive spdm_session_init"
    by (simp add: spdm_session_init_def)
  from session_start_success [OF this s', of "()"] s' show ?thesis
    by (auto simp: example_libspdm_def)
qed

end
