(* ===== verification/Base64.thy ===== *)
theory Base64
  imports Prelude
begin

text \<open>
  Base64 and PEM: \<open>base64Encode\<close> of \<^verbatim>\<open>requester/utils.cpp\<close>, an index loop over groups of three bytes
  with a tail of one or two, and \<open>derCertsToPem\<close> of \<^verbatim>\<open>requester/component_integrity_dbus.cpp\<close>,
  which has its own copy of the encoder, cuts the text into lines and asks libspdm for the
  certificates of the chain one by one. The reference \<open>b64_ref\<close> is structural; the decoder
  \<open>b64_decode\<close> is the specification's (RFC 4648).
\<close>

section \<open>The encoder\<close>

definition b64_table :: string where
  "b64_table = ''ABCDEFGHIJKLMNOPQRSTUVWXYZabcdefghijklmnopqrstuvwxyz0123456789+/''"

text \<open>\<^verbatim>\<open>b64_table[n & 63]\<close>\<close>

definition b64_char :: "u32 \<Rightarrow> char" where
  "b64_char n = b64_table ! unat (n AND 63)"

definition b64_group :: "byte \<Rightarrow> byte \<Rightarrow> byte \<Rightarrow> u32" where
  "b64_group a b c = push_bit 16 (ucast a) OR push_bit 8 (ucast b) OR ucast c"

function b64_loop :: "bytes \<Rightarrow> nat \<Rightarrow> string \<Rightarrow> nat \<times> string" where
  "b64_loop data i base64 =
     (if i + 2 < length data then
        (let n = b64_group (data ! i) (data ! (i + 1)) (data ! (i + 2)) in
         b64_loop data (i + 3)
           (base64 @ [b64_char (drop_bit 18 n), b64_char (drop_bit 12 n),
                      b64_char (drop_bit 6 n), b64_char n]))
      else (i, base64))"
  by pat_completeness auto
termination
  by (relation "measure (\<lambda>(data, i, base64). length data - i)") auto

declare b64_loop.simps [simp del]

definition base64Encode :: "bytes \<Rightarrow> string" where
  "base64Encode data =
     (let (i, base64) = b64_loop data 0 [] in
      if i < length data then
        (let n = push_bit 16 (ucast (data ! i)) :: u32;
             base64 = base64 @ [b64_char (drop_bit 18 n)] in
         if i + 1 < length data then
           (let n = n OR push_bit 8 (ucast (data ! (i + 1))) in
            base64 @ [b64_char (drop_bit 12 n), b64_char (drop_bit 6 n)] @ ''='')
         else base64 @ [b64_char (drop_bit 12 n)] @ ''=='')
      else base64)"

text \<open>The reference, by recursion on the data.\<close>

fun b64_ref :: "bytes \<Rightarrow> string" where
  "b64_ref (a # b # c # data) =
     (let n = b64_group a b c in
      [b64_char (drop_bit 18 n), b64_char (drop_bit 12 n), b64_char (drop_bit 6 n), b64_char n] @
      b64_ref data)"
| "b64_ref [a, b] =
     (let n = b64_group a b 0 in
      [b64_char (drop_bit 18 n), b64_char (drop_bit 12 n), b64_char (drop_bit 6 n), CHR ''=''])"
| "b64_ref [a] =
     (let n = b64_group a 0 0 in
      [b64_char (drop_bit 18 n), b64_char (drop_bit 12 n), CHR ''='', CHR ''=''])"
| "b64_ref [] = []"

section \<open>The decoder of the specification\<close>

definition b64_index :: "char \<Rightarrow> u32 option" where
  "b64_index c =
     (let i = length (takeWhile (\<lambda>x. x \<noteq> c) b64_table)
      in if i < 64 then Some (word_of_nat i) else None)"

definition b64_ungroup :: "u32 \<Rightarrow> bytes" where
  "b64_ungroup n = [ucast (drop_bit 16 n), ucast (drop_bit 8 n), ucast n]"

definition b64_value :: "char \<Rightarrow> char \<Rightarrow> char \<Rightarrow> char \<Rightarrow> u32 option" where
  "b64_value p q r s =
     (case (b64_index p, b64_index q, b64_index r, b64_index s) of
        (Some x, Some y, Some z, Some w) \<Rightarrow>
          Some (push_bit 18 x OR push_bit 12 y OR push_bit 6 z OR w)
      | _ \<Rightarrow> None)"

fun b64_decode :: "string \<Rightarrow> bytes option" where
  "b64_decode [] = Some []"
| "b64_decode (p # q # r # s # rest) =
     (if s = CHR ''='' then
        (if rest \<noteq> [] then None
         else if r = CHR ''='' then
           map_option (\<lambda>n. take 1 (b64_ungroup n)) (b64_value p q CHR ''A'' CHR ''A'')
         else map_option (\<lambda>n. take 2 (b64_ungroup n)) (b64_value p q r CHR ''A''))
      else
        (case b64_value p q r s of
           None \<Rightarrow> None
         | Some n \<Rightarrow> map_option ((@) (b64_ungroup n)) (b64_decode rest)))"
| "b64_decode _ = None"

section \<open>The loop computes the reference\<close>

lemma b64_loop_ref:
  "i \<le> length data \<Longrightarrow> b64_loop data i acc = (j, base64) \<Longrightarrow>
   i \<le> j \<and> j \<le> length data \<and> length data \<le> j + 2 \<and>
   acc @ b64_ref (drop i data) = base64 @ b64_ref (drop j data)"
proof (induction data i acc arbitrary: j base64 rule: b64_loop.induct)
  case (1 data i acc)
  show ?case
  proof (cases "i + 2 < length data")
    case True
    let ?n = "b64_group (data ! i) (data ! (i + 1)) (data ! (i + 2))"
    have split: "drop i data = data ! i # data ! (i + 1) # data ! (i + 2) # drop (i + 3) data"
      using True by (simp add: Cons_nth_drop_Suc numeral_3_eq_3)
    from "1.prems" True have "b64_loop data (i + 3)
        (acc @ [b64_char (drop_bit 18 ?n), b64_char (drop_bit 12 ?n), b64_char (drop_bit 6 ?n),
                b64_char ?n]) = (j, base64)"
      by (simp add: b64_loop.simps [of data i acc] Let_def)
    from "1.IH" [OF True refl _ this] True show ?thesis
      by (simp add: split Let_def)
  next
    case False
    with "1.prems" show ?thesis
      by (simp add: b64_loop.simps [of data i acc])
  qed
qed

lemma b64_group_zero:
  "push_bit 16 (ucast a) OR push_bit 8 (ucast b) = b64_group a b 0"
  "push_bit 16 (ucast a) = b64_group a 0 0"
  by (simp_all add: b64_group_def)

lemma b64_group_one: "b64_group a 0 0 OR push_bit 8 (ucast b) = b64_group a b 0"
  by (simp add: b64_group_def)

lemma b64_shift_18: "b64_char (drop_bit 18 (b64_group a b 0)) = b64_char (drop_bit 18 (b64_group a 0 0))"
proof -
  have "drop_bit 18 (b64_group a b 0) AND mask 6 = drop_bit 18 (b64_group a 0 0) AND mask 6"
    by (rule bit_word_eqI) (auto simp: b64_group_def bit_simps dest: bit_imp_le_length)
  then show ?thesis
    by (simp add: b64_char_def mask_eq_exp_minus_1)
qed

lemma base64Encode_ref: "base64Encode data = b64_ref data"
proof -
  obtain i base64 where loop: "b64_loop data 0 [] = (i, base64)"
    by (cases "b64_loop data 0 []")
  from b64_loop_ref [OF _ this] have i: "i \<le> length data" "length data \<le> i + 2"
    and ref: "b64_ref data = base64 @ b64_ref (drop i data)"
    by auto
  from i consider (none) "length data = i" | (one) "length data = i + 1" | (two) "length data = i + 2"
    by linarith
  then show ?thesis
  proof cases
    case none
    with loop ref show ?thesis
      by (simp add: base64Encode_def)
  next
    case one
    then have "drop i data = [data ! i]"
      by (simp add: Cons_nth_drop_Suc [symmetric])
    with one loop ref show ?thesis
      by (simp add: base64Encode_def Let_def b64_group_zero)
  next
    case two
    then have "drop i data = [data ! i, data ! (i + 1)]"
      by (simp add: Cons_nth_drop_Suc [symmetric])
    with two loop ref show ?thesis
      by (simp add: base64Encode_def Let_def b64_group_zero b64_group_one b64_shift_18 [of _ "data ! Suc i"]
        del: drop_bit_or)
  qed
qed

section \<open>The decoder inverts the encoder\<close>

lemma length_b64_table: "length b64_table = 64"
  by (simp add: b64_table_def)

lemma distinct_b64_table: "distinct b64_table"
  unfolding b64_table_def by code_simp

lemma b64_table_no_padding: "CHR ''='' \<notin> set b64_table"
  by (simp add: b64_table_def)

lemma takeWhile_until_nth:
  "distinct xs \<Longrightarrow> k < length xs \<Longrightarrow> length (takeWhile (\<lambda>x. x \<noteq> xs ! k) xs) = k"
proof (induction xs arbitrary: k)
  case Nil
  then show ?case
    by simp
next
  case (Cons x xs)
  then show ?case
    by (cases k) (auto simp: in_set_conv_nth)
qed

lemma unat_and_mask_6: "unat ((n :: u32) AND 63) = unat n mod 64"
proof -
  have "unat (n AND mask 6) = take_bit 6 (unat n)"
    by (simp add: take_bit_eq_mask [symmetric] unsigned_take_bit_eq)
  then show ?thesis
    by (simp add: mask_eq_exp_minus_1 take_bit_eq_mod)
qed

lemma and_63_less: "unat ((n :: u32) AND 63) < 64"
  by (simp add: unat_and_mask_6)

lemma b64_index_char: "b64_index (b64_char n) = Some (n AND 63)"
  using and_63_less [of n]
  by (simp add: b64_index_def b64_char_def Let_def takeWhile_until_nth distinct_b64_table
      length_b64_table)

lemma b64_char_in_table: "b64_char n \<in> set b64_table"
  by (simp add: b64_char_def length_b64_table and_63_less)

lemma b64_char_not_padding [simp]: "b64_char n \<noteq> CHR ''=''"
  using b64_char_in_table [of n] b64_table_no_padding by auto

lemma b64_char_zero: "CHR ''A'' = b64_char 0"
  by (simp add: b64_char_def b64_table_def)

lemma b64_char_cong: "n AND 63 = m AND 63 \<Longrightarrow> b64_char n = b64_char m"
  by (simp add: b64_char_def)

lemma and_63_mask: "(n :: u32) AND 63 = n AND mask 6"
  by (simp add: mask_eq_exp_minus_1)

lemma b64_regroup:
  "push_bit 18 (drop_bit 18 n AND 63) OR push_bit 12 (drop_bit 12 n AND 63) OR
   push_bit 6 (drop_bit 6 n AND 63) OR (n AND 63) = n AND mask 24"
  for n :: u32
proof (rule bit_word_eqI)
  fix i
  assume "i < LENGTH(32)"
  then consider "i < 6" | "6 \<le> i" "i < 12" | "12 \<le> i" "i < 18" | "18 \<le> i" "i < 24" | "24 \<le> i" "i < 32"
    by fastforce
  then show "bit (push_bit 18 (drop_bit 18 n AND 63) OR push_bit 12 (drop_bit 12 n AND 63) OR
      push_bit 6 (drop_bit 6 n AND 63) OR (n AND 63)) i = bit (n AND mask 24) i"
    unfolding and_63_mask by cases (auto simp: bit_simps)
qed

lemma b64_group_bits: "b64_group a b c AND mask 24 = b64_group a b c"
  by (rule bit_word_eqI) (auto simp: b64_group_def bit_simps dest: bit_imp_le_length)

lemma b64_value_chars:
  "b64_value (b64_char (drop_bit 18 (b64_group a b c))) (b64_char (drop_bit 12 (b64_group a b c)))
     (b64_char (drop_bit 6 (b64_group a b c))) (b64_char (b64_group a b c)) = Some (b64_group a b c)"
  by (simp only: b64_value_def b64_index_char option.case prod.case b64_regroup b64_group_bits)

lemma b64_ungroup_group: "b64_ungroup (b64_group a b c) = [a, b, c]"
proof -
  have "ucast (drop_bit 16 (b64_group a b c)) = a"
    by (rule bit_word_eqI) (auto simp: b64_group_def bit_simps dest: bit_imp_le_length)
  moreover have "ucast (drop_bit 8 (b64_group a b c)) = b"
    by (rule bit_word_eqI) (auto simp: b64_group_def bit_simps dest: bit_imp_le_length)
  moreover have "ucast (b64_group a b c) = c"
    by (rule bit_word_eqI) (auto simp: b64_group_def bit_simps dest: bit_imp_le_length)
  ultimately show ?thesis
    by (simp add: b64_ungroup_def)
qed

lemma b64_padding_chars:
  "CHR ''A'' = b64_char (b64_group a b 0)"
  "CHR ''A'' = b64_char (drop_bit 6 (b64_group a 0 0))"
proof -
  have "b64_group a b 0 AND 63 = 0" "drop_bit 6 (b64_group a 0 0) AND 63 = 0"
    unfolding and_63_mask
    by (rule bit_word_eqI, auto simp: b64_group_def bit_simps)+
  then show "CHR ''A'' = b64_char (b64_group a b 0)"
      "CHR ''A'' = b64_char (drop_bit 6 (b64_group a 0 0))"
    unfolding b64_char_zero by (auto intro: b64_char_cong)
qed

lemma b64_value_two:
  "b64_value (b64_char (drop_bit 18 (b64_group a b 0))) (b64_char (drop_bit 12 (b64_group a b 0)))
     (b64_char (drop_bit 6 (b64_group a b 0))) (CHR ''A'') = Some (b64_group a b 0)"
  using b64_value_chars [of a b 0] by (simp only: b64_padding_chars(1) [of a b])

lemma b64_value_one:
  "b64_value (b64_char (drop_bit 18 (b64_group a 0 0))) (b64_char (drop_bit 12 (b64_group a 0 0)))
     (CHR ''A'') (CHR ''A'') = Some (b64_group a 0 0)"
  using b64_value_two [of a 0] by (simp only: b64_padding_chars(2) [of a, symmetric])

lemma b64_decode_ref: "b64_decode (b64_ref data) = Some data"
  by (induction data rule: b64_ref.induct)
    (simp_all add: Let_def b64_value_chars b64_value_two b64_value_one b64_ungroup_group
      del: drop_bit_or)

lemma length_b64_ref: "length (b64_ref data) = 4 * ((length data + 2) div 3)"
proof (induction data rule: b64_ref.induct)
  case (1 a b c data)
  have "(length (a # b # c # data) + 2) div 3 = (length data + 2) div 3 + 1"
    by simp
  with 1 show ?case
    by (simp add: Let_def)
qed (simp_all add: Let_def)

lemma b64_ref_alphabet: "set (b64_ref data) \<subseteq> insert (CHR ''='') (set b64_table)"
  by (induction data rule: b64_ref.induct) (auto simp: Let_def b64_char_in_table)

lemma b64_ref_append: "length xs mod 3 = 0 \<Longrightarrow> b64_ref (xs @ ys) = b64_ref xs @ b64_ref ys"
proof (induction xs rule: b64_ref.induct)
  case (1 a b c data)
  have "length (a # b # c # data) mod 3 = length data mod 3"
    by simp
  with 1 show ?case
    by (simp add: Let_def)
qed simp_all

section \<open>Properties\<close>

text \<open>
  C27. \<open>base64Encode\<close> is Base64: its text has four characters for every started group of three bytes,
  all from the alphabet or padding, decoding it gives the data back, and the text of a
  concatenation is the concatenation of the texts when the first part ends at a group.
\<close>

theorem base64Encode_correct:
  "b64_decode (base64Encode data) = Some data \<and>
   length (base64Encode data) = 4 * ((length data + 2) div 3) \<and>
   set (base64Encode data) \<subseteq> insert (CHR ''='') (set b64_table) \<and>
   base64Encode (take (3 * n) data) = take (4 * n) (base64Encode data)"
proof -
  have "b64_ref (take (3 * n) data) = take (4 * n) (b64_ref data)"
  proof (cases "3 * n \<le> length data")
    case True
    then have part: "b64_ref data = b64_ref (take (3 * n) data) @ b64_ref (drop (3 * n) data)"
      using b64_ref_append [of "take (3 * n) data" "drop (3 * n) data"] by simp
    have "length (b64_ref (take (3 * n) data)) = 4 * n"
      using True by (simp add: length_b64_ref)
    with part show ?thesis
      by simp
  next
    case False
    then have "length (b64_ref data) \<le> 4 * n"
      by (simp add: length_b64_ref)
    with False show ?thesis
      by simp
  qed
  then show ?thesis
    by (simp add: base64Encode_ref b64_decode_ref length_b64_ref b64_ref_alphabet)
qed

end
