(* ===== verification/Pem.thy ===== *)
theory Pem
  imports Base64
begin

text \<open>
  \<open>derCertsToPem\<close> of \<^verbatim>\<open>requester/component_integrity_dbus.cpp\<close>: the certificates of a DER chain, taken one
  by one through libspdm (\<^verbatim>\<open>libspdm_x509_get_cert_from_cert_chain\<close>, here the argument \<open>get_cert\<close>),
  each as one PEM block. Nothing makes the certificates advance: it is the text that grows at every
  turn, and its loop ends at the latest when there is no more memory for it. \<open>pem_parse\<close> is the reader
  of RFC 7468 that the round trip is stated with.
\<close>

section \<open>One block\<close>

definition newline :: string where
  "newline = [CHR 0x0A]"

definition pem_begin :: string where
  "pem_begin = ''-----BEGIN CERTIFICATE-----'' @ newline"

definition pem_end :: string where
  "pem_end = ''-----END CERTIFICATE-----'' @ newline"

text \<open>\<^verbatim>\<open>for (j = 0; j < base64.size(); j += 64) base64Lines += base64.substr(j, 64) + "\n"\<close>\<close>

function base64Lines_loop :: "string \<Rightarrow> nat \<Rightarrow> string \<Rightarrow> string" where
  "base64Lines_loop base64 j lines =
     (if j < length base64
      then base64Lines_loop base64 (j + 64) (lines @ take 64 (drop j base64) @ newline)
      else lines)"
  by pat_completeness auto
termination
  by (relation "measure (\<lambda>(base64, j, lines). length base64 - j)") auto

declare base64Lines_loop.simps [simp del]

text \<open>The encoder in the body of the loop repeats \<open>base64Encode\<close> statement for statement.\<close>

definition cert_pem :: "bytes \<Rightarrow> string" where
  "cert_pem cert = pem_begin @ base64Lines_loop (base64Encode cert) 0 [] @ pem_end"

section \<open>The chain\<close>

lemma length_cert_pem: "54 \<le> length (cert_pem cert)"
  by (simp add: cert_pem_def pem_begin_def pem_end_def newline_def)

text \<open>
  \<open>mem\<close> says how long the text may become; the other strings of a turn are parts of it.
\<close>

function derCertsToPem_loop ::
    "memory \<Rightarrow> (bytes \<Rightarrow> nat \<Rightarrow> bytes option) \<Rightarrow> bytes \<Rightarrow> nat \<Rightarrow> nat \<Rightarrow> string \<Rightarrow> bytes
     \<Rightarrow> cpp_exception + (string \<times> bytes)"
where
  "derCertsToPem_loop mem get_cert derCerts index currentCertLen pemChain lastCert =
     (if currentCertLen < length derCerts then
        (case get_cert derCerts index of
           None \<Rightarrow> Inr (pemChain, lastCert)
         | Some cert \<Rightarrow>
             if \<not> string_fits mem (length pemChain + length (cert_pem cert)) then Inl Bad_alloc
             else
               derCertsToPem_loop mem get_cert derCerts (index + 1) (currentCertLen + length cert)
                 (pemChain @ cert_pem cert) cert)
      else Inr (pemChain, lastCert))"
  by pat_completeness auto
termination
proof (relation "measure (\<lambda>(mem, get_cert, derCerts, index, n, pemChain, lastCert).
      string_max_size - length pemChain)", simp)
  fix mem :: memory and get_cert :: "bytes \<Rightarrow> nat \<Rightarrow> bytes option" and derCerts lastCert cert :: bytes
    and index n :: nat and pemChain :: string
  assume "\<not> \<not> string_fits mem (length pemChain + length (cert_pem cert))"
  then show "((mem, get_cert, derCerts, index + 1, n + length cert, pemChain @ cert_pem cert, cert),
        mem, get_cert, derCerts, index, n, pemChain, lastCert)
      \<in> measure (\<lambda>(mem, get_cert, derCerts, index, n, pemChain, lastCert).
          string_max_size - length pemChain)"
    using length_cert_pem [of cert] by (simp add: string_fits_def) arith
qed

declare derCertsToPem_loop.simps [simp del]

definition derCertsToPem ::
    "memory \<Rightarrow> (bytes \<Rightarrow> nat \<Rightarrow> bytes option) \<Rightarrow> bytes \<Rightarrow> cpp_exception + (string \<times> bytes)" where
  "derCertsToPem mem get_cert derCerts = derCertsToPem_loop mem get_cert derCerts 0 0 [] []"

text \<open>
  What libspdm documents of a well-formed chain: the \<open>i\<close>-th of the certificates it consists of, and
  failure past the last one.
\<close>

definition chain_of :: "(bytes \<Rightarrow> nat \<Rightarrow> bytes option) \<Rightarrow> bytes list \<Rightarrow> bool" where
  "chain_of get_cert certs \<longleftrightarrow>
     (\<forall>i. get_cert (concat certs) i = (if i < length certs then Some (certs ! i) else None))"

section \<open>The reader\<close>

definition strip_prefix :: "string \<Rightarrow> string \<Rightarrow> string option" where
  "strip_prefix p s = (if take (length p) s = p then Some (drop (length p) s) else None)"

lemma strip_prefix_append [simp]: "strip_prefix p (p @ s) = Some s"
  by (simp add: strip_prefix_def)

lemma length_strip_prefix: "strip_prefix p s = Some r \<Longrightarrow> length r + length p = length s"
proof -
  assume "strip_prefix p s = Some r"
  then have p: "take (length p) s = p" and r: "r = drop (length p) s"
    by (auto simp: strip_prefix_def split: if_splits)
  from p have "length p \<le> length s"
    by (metis length_take min.cobounded1)
  with r show "length r + length p = length s"
    by simp
qed

function pem_parse :: "string \<Rightarrow> bytes list option" where
  "pem_parse s =
     (if s = [] then Some []
      else
        (case strip_prefix pem_begin s of
           None \<Rightarrow> None
         | Some body \<Rightarrow>
             (case strip_prefix pem_end (dropWhile (\<lambda>c. c \<noteq> CHR ''-'') body) of
                None \<Rightarrow> None
              | Some rest \<Rightarrow>
                  (case b64_decode
                          (filter (\<lambda>c. c \<noteq> CHR 0x0A) (takeWhile (\<lambda>c. c \<noteq> CHR ''-'') body)) of
                     None \<Rightarrow> None
                   | Some cert \<Rightarrow> map_option ((#) cert) (pem_parse rest)))))"
  by pat_completeness auto
termination
proof (relation "measure length", simp, clarsimp)
  fix s body rest :: string
  assume "strip_prefix pem_begin s = Some body"
    and "strip_prefix pem_end (dropWhile (\<lambda>c. c \<noteq> CHR ''-'') body) = Some rest"
  then have "length body + length pem_begin = length s"
    and "length rest + length pem_end = length (dropWhile (\<lambda>c. c \<noteq> CHR ''-'') body)"
    by (auto dest: length_strip_prefix)
  moreover have "length (dropWhile (\<lambda>c. c \<noteq> CHR ''-'') body) \<le> length body"
    by (rule length_dropWhile_le)
  moreover have "0 < length pem_begin"
    by (simp add: pem_begin_def newline_def)
  ultimately show "length rest < length s"
    by linarith
qed

declare pem_parse.simps [simp del]

section \<open>The lines of a block\<close>

function pem_lines :: "string \<Rightarrow> string" where
  "pem_lines s = (if s = [] then [] else take 64 s @ newline @ pem_lines (drop 64 s))"
  by pat_completeness auto
termination
  by (relation "measure length") auto

declare pem_lines.simps [simp del]

lemma pem_lines_Nil [simp]: "pem_lines [] = []"
  by (simp add: pem_lines.simps)

lemma base64Lines_loop_lines: "base64Lines_loop s j lines = lines @ pem_lines (drop j s)"
proof (induction s j lines rule: base64Lines_loop.induct)
  case (1 s j lines)
  show ?case
  proof (cases "j < length s")
    case True
    then have "pem_lines (drop j s) = take 64 (drop j s) @ newline @ pem_lines (drop (j + 64) s)"
      by (subst pem_lines.simps) (simp add: add.commute)
    with 1 [OF True] True show ?thesis
      by (simp add: base64Lines_loop.simps [of s j])
  next
    case False
    then show ?thesis
      by (simp add: base64Lines_loop.simps [of s j] pem_lines.simps)
  qed
qed

lemma pem_lines_body: "CHR 0x0A \<notin> set s \<Longrightarrow> filter (\<lambda>c. c \<noteq> CHR 0x0A) (pem_lines s) = s"
proof (induction s rule: pem_lines.induct)
  case (1 s)
  show ?case
  proof (cases "s = []")
    case True
    then show ?thesis
      by (simp add: pem_lines.simps)
  next
    case False
    from 1(2) have no: "CHR 0x0A \<notin> set (take 64 s)" "CHR 0x0A \<notin> set (drop 64 s)"
      by (auto dest: in_set_takeD in_set_dropD)
    then have "filter (\<lambda>c. c \<noteq> CHR 0x0A) (take 64 s) = take 64 s"
      by (auto simp: filter_id_conv)
    with 1(1) [OF False no(2)] False show ?thesis
      by (simp add: pem_lines.simps [of s] newline_def)
  qed
qed

lemma pem_lines_set: "set (pem_lines s) \<subseteq> insert (CHR 0x0A) (set s)"
proof (induction s rule: pem_lines.induct)
  case (1 s)
  then show ?case
    by (cases "s = []")
      (auto simp: pem_lines.simps [of s] newline_def dest: in_set_takeD in_set_dropD)
qed

lemma base64_characters:
  "c \<in> set (base64Encode cert) \<Longrightarrow> c \<noteq> CHR 0x0A \<and> c \<noteq> CHR ''-''"
proof -
  assume c: "c \<in> set (base64Encode cert)"
  have "CHR 0x0A \<notin> set b64_table" "CHR ''-'' \<notin> set b64_table"
    by (simp_all add: b64_table_def)
  with c b64_ref_alphabet [of cert] show ?thesis
    by (auto simp: base64Encode_ref)
qed

section \<open>Reading a block back\<close>

lemma cert_pem_lines: "cert_pem cert = pem_begin @ pem_lines (base64Encode cert) @ pem_end"
  by (simp add: cert_pem_def base64Lines_loop_lines)

lemma pem_end_dash: "pem_end = CHR ''-'' # tl pem_end"
  by (simp add: pem_end_def)

lemma pem_parse_cert: "pem_parse (cert_pem cert @ rest) = map_option ((#) cert) (pem_parse rest)"
proof -
  let ?body = "pem_lines (base64Encode cert)"
  have no_dash: "\<forall>c \<in> set ?body. c \<noteq> CHR ''-''"
    using pem_lines_set [of "base64Encode cert"] base64_characters [of _ cert] by auto
  have take_body: "takeWhile (\<lambda>c. c \<noteq> CHR ''-'') (?body @ pem_end @ rest) = ?body"
    using no_dash by (subst pem_end_dash) (simp add: takeWhile_append)
  have drop_body: "dropWhile (\<lambda>c. c \<noteq> CHR ''-'') (?body @ pem_end @ rest) = pem_end @ rest"
    using no_dash by (subst (1 2) pem_end_dash) (simp add: dropWhile_append)
  have data: "b64_decode (filter (\<lambda>c. c \<noteq> CHR 0x0A) ?body) = Some cert"
    using base64_characters [of _ cert]
    by (subst pem_lines_body) (auto simp: base64Encode_ref b64_decode_ref)
  have ne: "cert_pem cert @ rest \<noteq> []"
    by (simp add: cert_pem_def pem_begin_def)
  have strip: "strip_prefix pem_begin (cert_pem cert @ rest) = Some (?body @ pem_end @ rest)"
    by (simp add: cert_pem_lines)
  from ne show ?thesis
    by (subst pem_parse.simps)
      (simp only: if_False strip option.case take_body drop_body strip_prefix_append data)
qed

lemma pem_parse_chain: "pem_parse (concat (map cert_pem certs)) = Some certs"
  by (induction certs) (simp_all add: pem_parse_cert pem_parse.simps [of "[]"])

section \<open>The loop over the chain\<close>

text \<open>
  The first \<open>n\<close> certificates libspdm hands out, whether there is one more to take, and whether there is
  memory for it.
\<close>

definition certs_taken :: "(bytes \<Rightarrow> nat \<Rightarrow> bytes option) \<Rightarrow> bytes \<Rightarrow> nat \<Rightarrow> bytes list" where
  "certs_taken get_cert derCerts n = map (\<lambda>i. the (get_cert derCerts i)) [0..<n]"

definition cert_left :: "(bytes \<Rightarrow> nat \<Rightarrow> bytes option) \<Rightarrow> bytes \<Rightarrow> nat \<Rightarrow> bool" where
  "cert_left get_cert derCerts n \<longleftrightarrow>
     length (concat (certs_taken get_cert derCerts n)) < length derCerts \<and> get_cert derCerts n \<noteq> None"

definition pem_text :: "bytes list \<Rightarrow> string" where
  "pem_text certs = concat (map cert_pem certs)"

definition pem_fits :: "memory \<Rightarrow> bytes list \<Rightarrow> bool" where
  "pem_fits mem certs \<longleftrightarrow> string_fits mem (length (pem_text certs))"

definition leaf_of :: "bytes list \<Rightarrow> bytes" where
  "leaf_of certs = (if certs = [] then [] else last certs)"

lemma certs_taken_Suc:
  "certs_taken get_cert derCerts (Suc n) = certs_taken get_cert derCerts n @ [the (get_cert derCerts n)]"
  by (simp add: certs_taken_def)

lemma pem_text_append [simp]: "pem_text (xs @ ys) = pem_text xs @ pem_text ys"
  "pem_text [c] = cert_pem c" "pem_text [] = []"
  by (simp_all add: pem_text_def)

lemma length_pem_text: "54 * length certs \<le> length (pem_text certs)"
proof (induction certs)
  case (Cons c certs)
  then show ?case
    using length_cert_pem [of c] by (simp add: pem_text_def)
qed simp

text \<open>One turn of the loop, and all of them.\<close>

lemma derCertsToPem_loop_turn:
  "derCertsToPem_loop mem get_cert derCerts n (length (concat (certs_taken get_cert derCerts n)))
     (pem_text (certs_taken get_cert derCerts n)) (leaf_of (certs_taken get_cert derCerts n)) =
   (if \<not> cert_left get_cert derCerts n
    then Inr (pem_text (certs_taken get_cert derCerts n), leaf_of (certs_taken get_cert derCerts n))
    else if \<not> pem_fits mem (certs_taken get_cert derCerts (Suc n)) then Inl Bad_alloc
    else derCertsToPem_loop mem get_cert derCerts (Suc n)
      (length (concat (certs_taken get_cert derCerts (Suc n))))
      (pem_text (certs_taken get_cert derCerts (Suc n)))
      (leaf_of (certs_taken get_cert derCerts (Suc n))))"
  by (subst derCertsToPem_loop.simps)
    (auto simp: cert_left_def pem_fits_def certs_taken_Suc leaf_of_def split: option.split)

lemma derCertsToPem_loop_turns:
  "\<exists>n \<ge> i. (\<forall>j. i \<le> j \<and> j < n \<longrightarrow>
       cert_left get_cert derCerts j \<and> pem_fits mem (certs_taken get_cert derCerts (Suc j))) \<and>
     \<not> (cert_left get_cert derCerts n \<and> pem_fits mem (certs_taken get_cert derCerts (Suc n))) \<and>
     derCertsToPem_loop mem get_cert derCerts i (length (concat (certs_taken get_cert derCerts i)))
       (pem_text (certs_taken get_cert derCerts i)) (leaf_of (certs_taken get_cert derCerts i)) =
     (if cert_left get_cert derCerts n then Inl Bad_alloc
      else Inr (pem_text (certs_taken get_cert derCerts n), leaf_of (certs_taken get_cert derCerts n)))"
proof (induction "string_max_size - length (pem_text (certs_taken get_cert derCerts i))" arbitrary: i
    rule: less_induct)
  case less
  show ?case
  proof (cases "cert_left get_cert derCerts i \<and> pem_fits mem (certs_taken get_cert derCerts (Suc i))")
    case True
    then have "length (pem_text (certs_taken get_cert derCerts (Suc i))) \<le> string_max_size"
      by (simp add: pem_fits_def string_fits_def)
    then have "string_max_size - length (pem_text (certs_taken get_cert derCerts (Suc i))) <
        string_max_size - length (pem_text (certs_taken get_cert derCerts i))"
      using length_cert_pem [of "the (get_cert derCerts i)"] by (simp add: certs_taken_Suc)
    from less [OF this] obtain n where n: "Suc i \<le> n"
      "\<forall>j. Suc i \<le> j \<and> j < n \<longrightarrow>
         cert_left get_cert derCerts j \<and> pem_fits mem (certs_taken get_cert derCerts (Suc j))"
      "\<not> (cert_left get_cert derCerts n \<and> pem_fits mem (certs_taken get_cert derCerts (Suc n)))"
      "derCertsToPem_loop mem get_cert derCerts (Suc i)
         (length (concat (certs_taken get_cert derCerts (Suc i))))
         (pem_text (certs_taken get_cert derCerts (Suc i)))
         (leaf_of (certs_taken get_cert derCerts (Suc i))) =
       (if cert_left get_cert derCerts n then Inl Bad_alloc
        else Inr (pem_text (certs_taken get_cert derCerts n), leaf_of (certs_taken get_cert derCerts n)))"
      by blast
    have "cert_left get_cert derCerts j \<and> pem_fits mem (certs_taken get_cert derCerts (Suc j))"
      if "i \<le> j" "j < n" for j
      using that n(2) True by (cases "j = i") simp_all
    with n True show ?thesis
      by (intro exI [of _ n] conjI) (simp_all add: derCertsToPem_loop_turn [of mem get_cert derCerts i])
  next
    case False
    then show ?thesis
      by (intro exI [of _ i]) (auto simp: derCertsToPem_loop_turn [of mem get_cert derCerts i])
  qed
qed

lemma derCertsToPem_turns:
  obtains n where
    "\<And>j. j < n \<Longrightarrow>
       cert_left get_cert derCerts j \<and> pem_fits mem (certs_taken get_cert derCerts (Suc j))"
    and "\<not> (cert_left get_cert derCerts n \<and> pem_fits mem (certs_taken get_cert derCerts (Suc n)))"
    and "derCertsToPem mem get_cert derCerts =
      (if cert_left get_cert derCerts n then Inl Bad_alloc
       else Inr (pem_text (certs_taken get_cert derCerts n), leaf_of (certs_taken get_cert derCerts n)))"
  using derCertsToPem_loop_turns [of 0 get_cert derCerts mem]
  by (auto simp: derCertsToPem_def certs_taken_def leaf_of_def)

text \<open>On a well-formed chain.\<close>

lemma chain_taken:
  assumes "chain_of get_cert certs" and "n \<le> length certs"
  shows "certs_taken get_cert (concat certs) n = take n certs"
  using assms by (intro nth_equalityI) (auto simp: certs_taken_def chain_of_def)

lemma chain_left:
  assumes "chain_of get_cert certs" and "[] \<notin> set certs" and "n \<le> length certs"
  shows "cert_left get_cert (concat certs) n \<longleftrightarrow> n < length certs"
proof (cases "n < length certs")
  case True
  then have split: "certs = take n certs @ certs ! n # drop (Suc n) certs"
    by (rule id_take_nth_drop)
  have "certs ! n \<noteq> []"
    using True assms(2) by (metis nth_mem)
  then have "length (concat (take n certs)) < length (concat certs)"
    by (subst (2) split) simp
  with True assms show ?thesis
    by (simp add: cert_left_def chain_taken) (simp add: chain_of_def)
next
  case False
  with assms show ?thesis
    by (simp add: cert_left_def chain_of_def)
qed

lemma derCertsToPem_result:
  assumes chain: "chain_of get_cert certs" "[] \<notin> set certs"
  shows "derCertsToPem mem get_cert (concat certs) =
    (if \<forall>k < length certs. pem_fits mem (take (Suc k) certs) then Inr (pem_text certs, leaf_of certs)
     else Inl Bad_alloc)"
proof -
  from derCertsToPem_turns [of get_cert "concat certs" mem] obtain n where
    before: "\<And>j. j < n \<Longrightarrow> cert_left get_cert (concat certs) j \<and>
       pem_fits mem (certs_taken get_cert (concat certs) (Suc j))"
    and last: "\<not> (cert_left get_cert (concat certs) n \<and>
       pem_fits mem (certs_taken get_cert (concat certs) (Suc n)))"
    and result: "derCertsToPem mem get_cert (concat certs) =
      (if cert_left get_cert (concat certs) n then Inl Bad_alloc
       else Inr (pem_text (certs_taken get_cert (concat certs) n),
                 leaf_of (certs_taken get_cert (concat certs) n)))"
    by blast
  have n: "n \<le> length certs"
    using before [of "length certs"] chain_left [OF chain, of "length certs"] by force
  show ?thesis
  proof (cases "n < length certs")
    case True
    then have "\<not> pem_fits mem (take (Suc n) certs)"
      using last chain_left [OF chain, of n] chain_taken [OF chain(1), of "Suc n"] by simp
    with True result chain_left [OF chain n] show ?thesis
      by auto
  next
    case False
    with n have "n = length certs"
      by simp
    with result chain_left [OF chain n] chain_taken [OF chain(1) n] before
      chain_taken [OF chain(1)] show ?thesis
      by (auto simp: Suc_le_eq)
  qed
qed

section \<open>Properties\<close>

text \<open>
  C25. The PEM text of a chain of certificates holds exactly its certificates, in order: reading it
  gives the chain back, and the certificate kept as the leaf is the last one. This needs that no
  certificate of the chain is empty; and exactly when there is no memory for the text of some first
  certificates it throws.
\<close>

theorem derCertsToPem_roundtrip:
  assumes "chain_of get_cert certs" and "certs \<noteq> []" and "[] \<notin> set certs"
  shows "if \<forall>k < length certs. string_fits mem (length (concat (map cert_pem (take (Suc k) certs))))
    then \<exists>pem. derCertsToPem mem get_cert (concat certs) = Inr (pem, last certs) \<and>
      pem_parse pem = Some certs
    else derCertsToPem mem get_cert (concat certs) = Inl Bad_alloc"
  using derCertsToPem_result [OF assms(1,3), of mem] assms(2) pem_parse_chain [of certs]
  by (simp add: pem_fits_def pem_text_def leaf_of_def)

lemma derCertsToPem_roundtrip_witness:
  "let get_cert = (\<lambda>chain i. if chain = [1, 2, 3] \<and> i < 2 then Some ([[1, 2], [3]] ! i) else None) in
   (\<exists>pem. derCertsToPem plenty get_cert [1, 2, 3] = Inr (pem, [3]) \<and> pem_parse pem = Some [[1, 2], [3]]) \<and>
   derCertsToPem (\<lambda>n. n < 100) get_cert [1, 2, 3] = Inl Bad_alloc"
proof -
  let ?get = "\<lambda>chain i. if chain = [1, 2, 3] \<and> i < 2 then Some ([[1, 2], [3]] ! i) else None"
  have chain: "chain_of ?get [[1, 2], [3]]"
    by (simp add: chain_of_def)
  have len: "length (cert_pem [1, 2]) = 59" "length (cert_pem [3]) = 59"
    by (simp_all add: cert_pem_def pem_begin_def pem_end_def newline_def base64Lines_loop.simps
        base64Encode_def b64_loop.simps Let_def)
  have all: "(\<forall>k < Suc (Suc 0). P k) \<longleftrightarrow> P 0 \<and> P (Suc 0)" for P :: "nat \<Rightarrow> bool"
    by (auto simp: less_Suc_eq)
  show ?thesis
    using derCertsToPem_roundtrip [OF chain, of plenty] derCertsToPem_roundtrip [OF chain, of "\<lambda>n. n < 100"]
    by (simp add: all len string_fits_def string_max_size_def Let_def)
qed

text \<open>
  C26. The loop over the certificates of a chain ends for every answer of libspdm, after at most one turn
  for every 54 bytes a string can hold: it takes certificate after certificate while there is one left
  and memory for its text, and then either none is left and the text is that of the certificates taken,
  the last of them the leaf, or it throws. Nothing but the memory stops it on empty certificates:
  handed out for ever, they use it up.
\<close>

theorem derCertsToPem_terminates:
  "(\<exists>n. 54 * n \<le> string_max_size \<and>
     (\<forall>j < n. cert_left get_cert derCerts j \<and>
        string_fits mem (length (concat (map cert_pem (certs_taken get_cert derCerts (Suc j)))))) \<and>
     (if cert_left get_cert derCerts n
      then \<not> string_fits mem (length (concat (map cert_pem (certs_taken get_cert derCerts (Suc n))))) \<and>
        derCertsToPem mem get_cert derCerts = Inl Bad_alloc
      else derCertsToPem mem get_cert derCerts =
        Inr (concat (map cert_pem (certs_taken get_cert derCerts n)),
             if n = 0 then [] else the (get_cert derCerts (n - 1))))) \<and>
   (derCerts \<noteq> [] \<and> (\<forall>i. get_cert derCerts i = Some []) \<longrightarrow>
      derCertsToPem mem get_cert derCerts = Inl Bad_alloc)"
proof -
  from derCertsToPem_turns [of get_cert derCerts mem] obtain n where
    before: "\<And>j. j < n \<Longrightarrow>
       cert_left get_cert derCerts j \<and> pem_fits mem (certs_taken get_cert derCerts (Suc j))"
    and last: "\<not> (cert_left get_cert derCerts n \<and> pem_fits mem (certs_taken get_cert derCerts (Suc n)))"
    and result: "derCertsToPem mem get_cert derCerts =
      (if cert_left get_cert derCerts n then Inl Bad_alloc
       else Inr (pem_text (certs_taken get_cert derCerts n), leaf_of (certs_taken get_cert derCerts n)))"
    by blast
  have "54 * n \<le> string_max_size"
  proof (cases n)
    case (Suc j)
    with before [of j] length_pem_text [of "certs_taken get_cert derCerts n"] show ?thesis
      by (simp add: pem_fits_def string_fits_def) (simp add: certs_taken_def)
  qed simp
  moreover have "leaf_of (certs_taken get_cert derCerts n) =
      (if n = 0 then [] else the (get_cert derCerts (n - 1)))"
    by (cases n) (simp_all add: leaf_of_def certs_taken_Suc, simp add: certs_taken_def)
  moreover have "cert_left get_cert derCerts n" if "derCerts \<noteq> [] \<and> (\<forall>i. get_cert derCerts i = Some [])"
  proof -
    have "concat (certs_taken get_cert derCerts n) = []"
      using that by (simp add: certs_taken_def)
    with that show ?thesis
      unfolding cert_left_def by (simp del: concat_eq_Nil_conv)
  qed
  ultimately show ?thesis
    using before last result unfolding pem_fits_def pem_text_def by (intro conjI exI [of _ n]) auto
qed

lemma derCertsToPem_terminates_witness:
  "derCertsToPem plenty (\<lambda>chain i. Some []) [7] = Inl Bad_alloc"
  using derCertsToPem_terminates [of "\<lambda>chain i. Some []" "[7]" plenty] by simp

end
