(* ===== verification/Certificate_Dbus.thy ===== *)
theory Certificate_Dbus
  imports Prelude
begin

text \<open>
  The two D-Bus objects that publish data about a device: \<open>Certificate\<close> of
  \<^verbatim>\<open>requester/certificate_dbus.hpp\<close> and \<^verbatim>\<open>.cpp\<close>, and \<open>TrustedComponent\<close> of
  \<^verbatim>\<open>requester/trusted_component_dbus.hpp\<close> and \<^verbatim>\<open>.cpp\<close>. A D-Bus object is the record of its
  properties. OpenSSL is not part of the repository: the functions of it that parsing a certificate
  calls are the fields of \<open>openssl\<close>, over abstract certificates \<open>'c\<close>, names \<open>'n\<close>, times \<open>'t\<close> and
  bit strings \<open>'b\<close>.
\<close>

section \<open>OpenSSL\<close>

record ('c, 'n, 't, 'b) openssl =
  d2i_X509 :: "bytes \<Rightarrow> 'c option"
  X509_get_issuer_name :: "'c \<Rightarrow> 'n option"
  X509_get_subject_name :: "'c \<Rightarrow> 'n option"
  X509_NAME_oneline :: "'n \<Rightarrow> nat \<Rightarrow> string option"
  X509_get0_notBefore :: "'c \<Rightarrow> 't option"
  X509_get0_notAfter :: "'c \<Rightarrow> 't option"
  ASN1_TIME_to_timegm :: "'t \<Rightarrow> int option"
  X509_get_key_usage :: "'c \<Rightarrow> 'b option"
  ASN1_BIT_STRING_get_bit :: "'b \<Rightarrow> nat \<Rightarrow> bool"

section \<open>Certificate\<close>

record certificate =
  cert_path :: string
  certificate_string :: string
  issuer :: string
  subject :: string
  valid_not_before :: u64
  valid_not_after :: u64
  key_usage :: "string list"

definition getNameOneline :: "('c, 'n, 't, 'b) openssl \<Rightarrow> 'n option \<Rightarrow> string" where
  "getNameOneline S name =
     (case name of
        None \<Rightarrow> ''''
      | Some n \<Rightarrow> (case X509_NAME_oneline S n 256 of Some s \<Rightarrow> s | None \<Rightarrow> ''''))"

text \<open>\<open>ASN1_TIME_to_tm\<close> followed by \<open>timegm\<close>; a negative epoch wraps around.\<close>

definition asn1TimeToEpoch :: "('c, 'n, 't, 'b) openssl \<Rightarrow> 't option \<Rightarrow> u64" where
  "asn1TimeToEpoch S time =
     (case time of
        None \<Rightarrow> 0
      | Some t \<Rightarrow> (case ASN1_TIME_to_timegm S t of None \<Rightarrow> 0 | Some epoch \<Rightarrow> word_of_int epoch))"

definition keyUsageMap :: "string list" where
  "keyUsageMap =
     [''DigitalSignature'', ''NonRepudiation'', ''KeyEncipherment'', ''DataEncipherment'',
      ''KeyAgreement'', ''KeyCertSign'', ''CRLSigning'', ''EncipherOnly'', ''DecipherOnly'']"

fun keyUsage_loop :: "('b \<Rightarrow> nat \<Rightarrow> bool) \<Rightarrow> 'b \<Rightarrow> nat list \<Rightarrow> string list \<Rightarrow> string list" where
  "keyUsage_loop get_bit usage [] result = result"
| "keyUsage_loop get_bit usage (i # is) result =
     keyUsage_loop get_bit usage is
       (if get_bit usage i then result @ [keyUsageMap ! i] else result)"

definition getKeyUsageStrings :: "('c, 'n, 't, 'b) openssl \<Rightarrow> 'b option \<Rightarrow> string list" where
  "getKeyUsageStrings S usage =
     (case usage of
        None \<Rightarrow> []
      | Some u \<Rightarrow> keyUsage_loop (ASN1_BIT_STRING_get_bit S) u [0..<length keyUsageMap] [])"

definition getIssuerNameFromDer :: "('c, 'n, 't, 'b) openssl \<Rightarrow> bytes option \<Rightarrow> string" where
  "getIssuerNameFromDer S certPtr =
     (case certPtr of
        None \<Rightarrow> ''''
      | Some cert \<Rightarrow>
          if cert = [] then ''''
          else (case d2i_X509 S cert of
                  None \<Rightarrow> ''''
                | Some x \<Rightarrow> getNameOneline S (X509_get_issuer_name S x)))"

definition parseCertificatePEM ::
    "('c, 'n, 't, 'b) openssl \<Rightarrow> bytes \<Rightarrow> string \<times> string \<times> u64 \<times> u64 \<times> string list" where
  "parseCertificatePEM S leafCert =
     (if leafCert = [] then ('''', '''', 0, 0, [])
      else
        (case d2i_X509 S leafCert of
           None \<Rightarrow> ('''', '''', 0, 0, [])
         | Some x \<Rightarrow>
             (getNameOneline S (X509_get_issuer_name S x),
              getNameOneline S (X509_get_subject_name S x),
              asn1TimeToEpoch S (X509_get0_notBefore S x),
              asn1TimeToEpoch S (X509_get0_notAfter S x),
              getKeyUsageStrings S (X509_get_key_usage S x))))"

definition updateCertificateProperties ::
    "('c, 'n, 't, 'b) openssl \<Rightarrow> string \<Rightarrow> bytes \<Rightarrow> certificate \<Rightarrow> certificate" where
  "updateCertificateProperties S pemChain leafCert cert =
     (let cert = cert\<lparr>certificate_string := pemChain\<rparr>;
          (i, s, notBefore, notAfter, keyUsage) = parseCertificatePEM S leafCert
      in cert\<lparr>issuer := i, subject := s, valid_not_before := notBefore,
              valid_not_after := notAfter, key_usage := keyUsage\<rparr>)"

definition certificate_new ::
    "('c, 'n, 't, 'b) openssl \<Rightarrow> string \<Rightarrow> string \<Rightarrow> bytes \<Rightarrow> certificate" where
  "certificate_new S path pemChain leafCert =
     (let (i, s, notBefore, notAfter, keyUsage) = parseCertificatePEM S leafCert
      in \<lparr>cert_path = path, certificate_string = pemChain, issuer = i, subject = s,
          valid_not_before = notBefore, valid_not_after = notAfter, key_usage = keyUsage\<rparr>)"

section \<open>TrustedComponent\<close>

datatype ComponentAttachType = Integrated | Discrete | AttachUnknown

record trusted_component =
  tc_path :: string
  trustedComponentType :: ComponentAttachType

definition updateTrustedComponentType :: "string \<Rightarrow> trusted_component \<Rightarrow> trusted_component" where
  "updateTrustedComponentType type tc =
     (if type = ''Integrated'' then tc\<lparr>trustedComponentType := Integrated\<rparr>
      else if type = ''Discrete'' then tc\<lparr>trustedComponentType := Discrete\<rparr>
      else tc\<lparr>trustedComponentType := AttachUnknown\<rparr>)"

text \<open>The type a new object starts with is the generated class's own.\<close>

definition trusted_component_new :: "ComponentAttachType \<Rightarrow> string \<Rightarrow> trusted_component" where
  "trusted_component_new initial path = \<lparr>tc_path = path, trustedComponentType = initial\<rparr>"

section \<open>Lemmas\<close>

lemma keyUsage_loop_map:
  "keyUsage_loop get_bit usage is result =
     result @ map ((!) keyUsageMap) (filter (get_bit usage) is)"
  by (induction "is" arbitrary: result) simp_all

lemma update_is_new:
  "updateCertificateProperties S pem leaf cert = certificate_new S (cert_path cert) pem leaf"
  by (cases cert)
    (simp add: updateCertificateProperties_def certificate_new_def Let_def split_beta)

section \<open>Properties\<close>

text \<open>
  C28. However often the properties of a certificate object were updated, it is the object the
  constructor makes from the last chain and leaf: nothing of an earlier certificate shows through. A
  leaf that cannot be parsed leaves every field but the chain empty; for one that can, the key usages
  are the names of the set bits, in bit order, and a validity date is its time modulo \<open>2 ^ 64\<close>.
\<close>

theorem certificate_published:
  "let c = fold (\<lambda>(pem, leaf). updateCertificateProperties S pem leaf) (updates @ [(pem, leaf)]) c0 in
   c = certificate_new S (cert_path c0) pem leaf \<and>
   (case (if leaf = [] then None else d2i_X509 S leaf) of
      None \<Rightarrow>
        c = \<lparr>cert_path = cert_path c0, certificate_string = pem, issuer = '''', subject = '''',
             valid_not_before = 0, valid_not_after = 0, key_usage = []\<rparr>
    | Some x \<Rightarrow>
        uint (valid_not_before c) =
          (case Option.bind (X509_get0_notBefore S x) (ASN1_TIME_to_timegm S) of
             None \<Rightarrow> 0 | Some e \<Rightarrow> e mod 2 ^ 64) \<and>
        uint (valid_not_after c) =
          (case Option.bind (X509_get0_notAfter S x) (ASN1_TIME_to_timegm S) of
             None \<Rightarrow> 0 | Some e \<Rightarrow> e mod 2 ^ 64) \<and>
        key_usage c =
          (case X509_get_key_usage S x of
             None \<Rightarrow> []
           | Some u \<Rightarrow>
               map snd (filter (\<lambda>(i, name). ASN1_BIT_STRING_get_bit S u i) (enumerate 0 keyUsageMap))))"
proof -
  have path: "cert_path (fold (\<lambda>(pem, leaf). updateCertificateProperties S pem leaf) us c0) = cert_path c0" for us
    by (induction us arbitrary: c0)
      (auto simp: updateCertificateProperties_def Let_def split_beta)
  then have c: "fold (\<lambda>(pem, leaf). updateCertificateProperties S pem leaf) (updates @ [(pem, leaf)]) c0 =
      certificate_new S (cert_path c0) pem leaf"
    by (simp add: update_is_new)
  have time: "uint (asn1TimeToEpoch S t) =
      (case Option.bind t (ASN1_TIME_to_timegm S) of None \<Rightarrow> 0 | Some e \<Rightarrow> e mod 2 ^ 64)" for t
    by (simp add: asn1TimeToEpoch_def uint_word_of_int split: option.split)
  have enum: "enumerate 0 keyUsageMap = map (\<lambda>i. (i, keyUsageMap ! i)) [0..<length keyUsageMap]"
    by (rule nth_equalityI) (simp_all add: nth_enumerate_eq)
  have usage: "getKeyUsageStrings S usage =
      (case usage of
         None \<Rightarrow> []
       | Some u \<Rightarrow> map snd (filter (\<lambda>(i, name). ASN1_BIT_STRING_get_bit S u i) (enumerate 0 keyUsageMap)))" for usage
    by (simp add: getKeyUsageStrings_def keyUsage_loop_map enum filter_map comp_def split: option.split)
  show ?thesis
    unfolding c Let_def
    by (simp add: certificate_new_def parseCertificatePEM_def time usage split: option.split)
qed

end
