(* ===== verification/Component_Integrity.thy ===== *)
theory Component_Integrity
  imports Session Pem Certificate_Dbus
begin

text \<open>
  \<^verbatim>\<open>requester/component_integrity_dbus.hpp\<close> and \<^verbatim>\<open>.cpp\<close>: the D-Bus object \<open>ComponentIntegrity\<close> and
  its method \<open>SPDMGetSignedMeasurements\<close>.

  The transport pointer of the object is the argument \<open>transport\<close>: \<open>None\<close> for a null pointer, else
  its \<^verbatim>\<open>spdmContext\<close>. An operation that may throw returns \<open>exn + 'a\<close> with the world. \<open>SdBusError\<close> is
  what the D-Bus library throws when an object cannot be registered. \<open>Undefined\<close> is not an exception:
  it marks a write past the end of a buffer, which no \<^verbatim>\<open>catch\<close> sees.
\<close>

datatype exn = InvalidArgument | RuntimeError string | Std_exception cpp_exception | SdBusError | Undefined

type_synonym ('w, 'a) action = "'w \<Rightarrow> (exn + 'a) \<times> 'w"

definition exn_bind :: "('w, 'a) action \<Rightarrow> ('a \<Rightarrow> ('w, 'b) action) \<Rightarrow> ('w, 'b) action" where
  "exn_bind m f w = (case m w of (Inl e, w) \<Rightarrow> (Inl e, w) | (Inr a, w) \<Rightarrow> f a w)"

record component_integrity =
  ci_path :: string
  type_version :: string
  ci_enabled :: bool
  last_updated :: u64
  certificateObject :: "certificate option"

text \<open>The constructor with \<open>initializeProperties\<close>; \<open>now\<close> is the clock.\<close>

definition component_integrity_new :: "string \<Rightarrow> u64 \<Rightarrow> component_integrity" where
  "component_integrity_new path now =
     \<lparr>ci_path = path, type_version = ''1.1'', ci_enabled = True, last_updated = now,
      certificateObject = None\<rparr>"

definition updateLastUpdateTime :: "u64 \<Rightarrow> component_integrity \<Rightarrow> component_integrity" where
  "updateLastUpdateTime now ci = ci\<lparr>last_updated := now\<rparr>"

section \<open>The requested indices\<close>

fun scan_special :: "u64 list \<Rightarrow> bool \<times> bool \<times> bool \<Rightarrow> bool \<times> bool \<times> bool" where
  "scan_special [] flags = flags"
| "scan_special (idx # rest) (hasZero, has255, hasRegular) =
     scan_special rest
       (if idx = 0 then (True, has255, hasRegular)
        else if idx = 255 then (hasZero, True, hasRegular)
        else if 1 \<le> idx \<and> idx \<le> 254 then (hasZero, has255, True)
        else (hasZero, has255, hasRegular))"

definition validateSpecialValueCombinations :: "u64 list \<Rightarrow> exn + unit" where
  "validateSpecialValueCombinations idxs =
     (let (hasZero, has255, hasRegular) = scan_special idxs (False, False, False) in
      if hasZero \<and> has255 then Inl InvalidArgument
      else if hasZero \<and> hasRegular then Inl InvalidArgument
      else if has255 \<and> hasRegular then Inl InvalidArgument
      else Inr ())"

fun validateRegularIndices :: "u64 list \<Rightarrow> exn + unit" where
  "validateRegularIndices [] = Inr ()"
| "validateRegularIndices (idx # rest) =
     (if idx < 1 \<or> idx > 254 then Inl InvalidArgument else validateRegularIndices rest)"

definition checkForDuplicateIndices :: "u64 list \<Rightarrow> exn + unit" where
  "checkForDuplicateIndices idxs =
     (if card (set idxs) \<noteq> length idxs then Inl InvalidArgument else Inr ())"

definition validateMeasurementIndices :: "u64 list \<Rightarrow> exn + unit" where
  "validateMeasurementIndices idxs =
     (if idxs = [] then Inr ()
      else if length idxs = 1 \<and> (idxs ! 0 = 0 \<or> idxs ! 0 = 255) then Inr ()
      else
        (case validateSpecialValueCombinations idxs of
           Inl e \<Rightarrow> Inl e
         | Inr _ \<Rightarrow>
             (case validateRegularIndices idxs of
                Inl e \<Rightarrow> Inl e
              | Inr _ \<Rightarrow> checkForDuplicateIndices idxs)))"

section \<open>The connection, the digests and the certificate chain\<close>

text \<open>The two null checks at the head of each operation.\<close>

definition with_context :: "ptr option option \<Rightarrow> (ptr \<Rightarrow> ('w, 'a) action) \<Rightarrow> ('w, 'a) action" where
  "with_context transport f w =
     (case transport of
        None \<Rightarrow> (Inl (RuntimeError ''SPDM transport not initialized''), w)
      | Some None \<Rightarrow> (Inl (RuntimeError ''SPDM context not initialized''), w)
      | Some (Some c) \<Rightarrow> f c w)"

definition initializeSpdmConnection ::
    "'w libspdm \<Rightarrow> ptr option option \<Rightarrow> ('w, unit) action" where
  "initializeSpdmConnection L transport =
     with_context transport (\<lambda>c w.
       (let (st, w) = lib_init_connection L c False w in
        if IS_ERROR st then (Inl (RuntimeError ''SPDM connection initialization failed''), w)
        else (Inr (), w)))"

definition popcount :: "byte \<Rightarrow> nat" where
  "popcount b = length (filter (bit b) [0..<8])"

text \<open>libspdm writes its digests into a buffer of eight times 48 bytes.\<close>

definition getCertificateDigests ::
    "'w libspdm \<Rightarrow> ptr option option \<Rightarrow> ('w, byte \<times> bytes \<times> nat) action" where
  "getCertificateDigests L transport =
     with_context transport (\<lambda>c w.
       (let DIGEST_SIZE = 48; MAX_SLOTS = 8;
            ((st, slotMask, digests), w) = lib_get_digest L c w in
        if length digests > MAX_SLOTS * DIGEST_SIZE then (Inl Undefined, w)
        else if IS_ERROR st then (Inl (RuntimeError ''Failed to get certificate digests''), w)
        else
          (let digestBuffer = vec_write 0 digests (replicate (MAX_SLOTS * DIGEST_SIZE) 0);
               totalDigestSize = popcount slotMask * DIGEST_SIZE
           in (Inr (slotMask, digestBuffer, min totalDigestSize (length digestBuffer)), w))))"

definition spdm_cert_chain_header_size :: nat where
  "spdm_cert_chain_header_size = 4"

definition getCertificate ::
    "'w libspdm \<Rightarrow> memory \<Rightarrow> ptr option option \<Rightarrow> u64 \<Rightarrow> ('w, string \<times> bytes \<times> bytes) action" where
  "getCertificate L mem transport slotId =
     with_context transport (\<lambda>c w.
       (let ((st, certChain), w) =
               lib_get_certificate L c (ucast slotId) LIBSPDM_MAX_CERT_CHAIN_SIZE w in
        if IS_ERROR st then (Inl (RuntimeError ''Failed to get certificate chain''), w)
        else
          (let hash_size = lib_get_hash_size L (lib_base_hash_algo L c w) in
           if length certChain < spdm_cert_chain_header_size + hash_size
           then (Inl (RuntimeError ''Certificate chain too small''), w)
           else
             (let derCerts = drop (spdm_cert_chain_header_size + hash_size) certChain in
              (case derCertsToPem mem (lib_x509_get_cert_from_cert_chain L) derCerts of
                 Inl e \<Rightarrow> (Inl (Std_exception e), w)
               | Inr (pemChain, leafCert) \<Rightarrow> (Inr (pemChain, certChain, leafCert), w))))))"

section \<open>The measurements\<close>

definition MAX_MEASUREMENT_SIZE :: u32 where
  "MAX_MEASUREMENT_SIZE = 4096"

text \<open>The index and the slot are cut to eight bits; the request attribute is always 0.\<close>

definition getSingleMeasurement ::
    "'w libspdm \<Rightarrow> ptr \<Rightarrow> u64 \<Rightarrow> u64 \<Rightarrow> ('w, bytes \<times> byte) action" where
  "getSingleMeasurement L c measurementIndex slotId w =
     (let measurementOperation = ucast measurementIndex :: byte;
          ((st, numberOfBlocks, measurement), w) =
             lib_get_measurement L c 0 measurementOperation (ucast slotId) MAX_MEASUREMENT_SIZE w in
      if IS_ERROR st then (Inl (RuntimeError ''Failed to get signed measurements''), w)
      else (Inr (measurement, numberOfBlocks), w))"

definition processMeasurementData :: "u64 \<Rightarrow> bytes \<Rightarrow> bytes \<Rightarrow> bytes" where
  "processMeasurementData measurementIndex measurementData allMeasurements =
     (if measurementIndex = 0 then allMeasurements else allMeasurements @ measurementData)"

fun measurement_loop ::
    "'w libspdm \<Rightarrow> ptr \<Rightarrow> u64 \<Rightarrow> u64 list \<Rightarrow> bytes \<Rightarrow> ('w, bytes) action" where
  "measurement_loop L c slotId [] allMeasurements w = (Inr allMeasurements, w)"
| "measurement_loop L c slotId (idx # rest) allMeasurements w =
     exn_bind (getSingleMeasurement L c idx slotId)
       (\<lambda>(measurementData, numberOfBlocks).
          measurement_loop L c slotId rest
            (processMeasurementData idx measurementData allMeasurements)) w"

definition getSignedMeasurements ::
    "'w libspdm \<Rightarrow> ptr option option \<Rightarrow> u64 list \<Rightarrow> string \<Rightarrow> u64 \<Rightarrow> ('w, string) action" where
  "getSignedMeasurements L transport measurementIndices nonce slotId =
     with_context transport (\<lambda>c.
       (let indicesToProcess = (if measurementIndices = [] then [255] else measurementIndices) in
        exn_bind (measurement_loop L c slotId indicesToProcess [])
          (\<lambda>allMeasurements w. (Inr (base64Encode allMeasurements), w))))"

section \<open>Names of the algorithms\<close>

definition getHashingAlgorithmStr :: "spdm_consts \<Rightarrow> u16 \<Rightarrow> string" where
  "getHashingAlgorithmStr C algo =
     (let a = ucast algo :: u32 in
      if a = BASE_HASH_SHA_256 C then ''SHA256''
      else if a = BASE_HASH_SHA_384 C then ''SHA384''
      else if a = BASE_HASH_SHA_512 C then ''SHA512''
      else ''NONE'')"

definition getSigningAlgorithmStr :: "spdm_consts \<Rightarrow> u16 \<Rightarrow> string" where
  "getSigningAlgorithmStr C algo =
     (let a = ucast algo :: u32 in
      if a = BASE_ASYM_RSASSA_2048 C then ''RSASSA2048''
      else if a = BASE_ASYM_RSAPSS_2048 C then ''RSAPSS2048''
      else if a = BASE_ASYM_ECDSA_P256 C then ''ECDSA_P256''
      else if a = BASE_ASYM_ECDSA_P384 C then ''ECDSA_P384''
      else if a = BASE_ASYM_ECDSA_P521 C then ''ECDSA_P521''
      else ''NONE'')"

section \<open>The method\<close>

text \<open>
  \<open>add\<close> is the D-Bus library's answer when an object is to be registered at a path, as the constructor
  of \<open>Certificate\<close> does first.
\<close>

definition updateCertificateObject ::
    "('c, 'n, 't, 'b) openssl \<Rightarrow> (string \<Rightarrow> bool) \<Rightarrow> string \<Rightarrow> string \<Rightarrow> bytes \<Rightarrow> component_integrity
     \<Rightarrow> (exn + string) \<times> component_integrity"
where
  "updateCertificateObject S add chassisId certPem leafCert ci =
     (let certId = ''CertChain'' in
      if certPem = [] then (Inl (RuntimeError ''Certificate PEM is empty''), ci)
      else
        (let objectPath =
               ''/xyz/openbmc_project/certs/devices/'' @ chassisId @ ''/'' @ certId in
         (case certificateObject ci of
            Some cert \<Rightarrow>
              (Inr objectPath,
               ci\<lparr>certificateObject := Some (updateCertificateProperties S certPem leafCert cert)\<rparr>)
          | None \<Rightarrow>
              if \<not> add objectPath then (Inl SdBusError, ci)
              else
                (Inr objectPath,
                 ci\<lparr>certificateObject := Some (certificate_new S objectPath certPem leafCert)\<rparr>))))"

type_synonym measurements_reply = "string \<times> string \<times> string \<times> string \<times> string \<times> string"

definition empty_reply :: "component_integrity \<Rightarrow> measurements_reply" where
  "empty_reply ci = (ci_path ci, '''', '''', '''', '''', type_version ci)"

text \<open>
  The body of the \<^verbatim>\<open>try\<close> block. \<open>filename\<close> is \<^verbatim>\<open>sdbusplus::message::object_path::filename\<close>.
\<close>

definition method_body ::
    "'w libspdm \<Rightarrow> spdm_consts \<Rightarrow> ('c, 'n, 't, 'b) openssl \<Rightarrow> (string \<Rightarrow> string) \<Rightarrow> memory
     \<Rightarrow> (string \<Rightarrow> bool) \<Rightarrow> ptr option option \<Rightarrow> u64 list \<Rightarrow> string \<Rightarrow> u64 \<Rightarrow> component_integrity \<Rightarrow> 'w
     \<Rightarrow> (exn + measurements_reply) \<times> component_integrity \<times> 'w"
where
  "method_body L C S filename mem add transport measurementIndices nonce slotId ci w =
     (case validateMeasurementIndices measurementIndices of
        Inl e \<Rightarrow> (Inl e, ci, w)
      | Inr _ \<Rightarrow>
        (case initializeSpdmConnection L transport w of
           (Inl e, w) \<Rightarrow> (Inl e, ci, w)
         | (Inr _, w) \<Rightarrow>
           (case getCertificateDigests L transport w of
              (Inl e, w) \<Rightarrow> (Inl e, ci, w)
            | (Inr _, w) \<Rightarrow>
              (case getCertificate L mem transport slotId w of
                 (Inl e, w) \<Rightarrow> (Inl e, ci, w)
               | (Inr (certPem, certRaw, certLeaf), w) \<Rightarrow>
                 (case getSignedMeasurements L transport measurementIndices nonce slotId w of
                    (Inl e, w) \<Rightarrow> (Inl e, ci, w)
                  | (Inr signedMeas, w) \<Rightarrow>
                    (let chassisId = filename (ci_path ci) in
                     (case updateCertificateObject S add chassisId certPem certLeaf ci of
                        (Inl e, ci) \<Rightarrow> (Inl e, ci, w)
                      | (Inr objectPath, ci) \<Rightarrow>
                        (case transport of
                           Some (Some c) \<Rightarrow>
                             (Inr (objectPath,
                                   getHashingAlgorithmStr C (ucast (lib_base_hash_algo L c w)),
                                   certPem, signedMeas,
                                   getSigningAlgorithmStr C (ucast (lib_base_asym_algo L c w)),
                                   type_version ci),
                              ci, w)
                         | _ \<Rightarrow> (Inl Undefined, ci, w)))))))))"

text \<open>The \<^verbatim>\<open>catch\<close> block turns every exception into a reply.\<close>

definition method_call ::
    "'w libspdm \<Rightarrow> spdm_consts \<Rightarrow> ('c, 'n, 't, 'b) openssl \<Rightarrow> (string \<Rightarrow> string) \<Rightarrow> memory
     \<Rightarrow> (string \<Rightarrow> bool) \<Rightarrow> ptr option option \<Rightarrow> u64 list \<Rightarrow> string \<Rightarrow> u64 \<Rightarrow> component_integrity \<Rightarrow> 'w
     \<Rightarrow> (exn + measurements_reply) \<times> component_integrity \<times> 'w"
where
  "method_call L C S filename mem add transport measurementIndices nonce slotId ci w =
     (case method_body L C S filename mem add transport measurementIndices nonce slotId ci w of
        (Inl Undefined, ci, w) \<Rightarrow> (Inl Undefined, ci, w)
      | (Inl e, ci, w) \<Rightarrow> (Inr (empty_reply ci), ci, w)
      | (Inr reply, ci, w) \<Rightarrow> (Inr reply, ci, w))"

section \<open>Which indices are accepted\<close>

definition indices_ok :: "u64 list \<Rightarrow> bool" where
  "indices_ok idxs \<longleftrightarrow>
     idxs = [] \<or> idxs = [0] \<or> idxs = [255] \<or>
     distinct idxs \<and> (\<forall>i \<in> set idxs. 1 \<le> i \<and> i \<le> 254)"

lemma word_ge_1_iff: "(1 :: u64) \<le> i \<longleftrightarrow> i \<noteq> 0"
  by (simp add: word_le_nat_alt Suc_le_eq unat_gt_0)

lemma validateRegularIndices_iff:
  "validateRegularIndices idxs = Inr () \<longleftrightarrow> (\<forall>i \<in> set idxs. 1 \<le> i \<and> i \<le> 254)"
  by (induction idxs) (auto simp: not_less word_ge_1_iff)

lemma scan_special_regular:
  "\<forall>i \<in> set idxs. 1 \<le> i \<and> i \<le> 254 \<Longrightarrow>
   scan_special idxs (z, f, r) = (z, f, r \<or> idxs \<noteq> [])"
  by (induction idxs arbitrary: z f r) auto

lemma validate_results: "validateMeasurementIndices idxs \<in> {Inr (), Inl InvalidArgument}"
proof -
  have "validateRegularIndices idxs \<in> {Inr (), Inl InvalidArgument}"
    by (induction idxs) auto
  moreover have "validateSpecialValueCombinations idxs \<in> {Inr (), Inl InvalidArgument}"
    by (simp add: validateSpecialValueCombinations_def split_beta Let_def)
  ultimately show ?thesis
    by (auto simp: validateMeasurementIndices_def checkForDuplicateIndices_def split: if_splits)
qed

lemma validate_iff: "validateMeasurementIndices idxs = Inr () \<longleftrightarrow> indices_ok idxs"
proof (cases "idxs = [] \<or> idxs = [0] \<or> idxs = [255]")
  case True
  then show ?thesis
    by (auto simp: validateMeasurementIndices_def indices_ok_def)
next
  case False
  then have special: "\<not> (length idxs = 1 \<and> (idxs ! 0 = 0 \<or> idxs ! 0 = 255))"
    by (auto simp: length_Suc_conv)
  show ?thesis
  proof (cases "\<forall>i \<in> set idxs. 1 \<le> i \<and> i \<le> 254")
    case True
    then have "validateSpecialValueCombinations idxs = Inr ()"
      by (simp add: validateSpecialValueCombinations_def scan_special_regular)
    with True False special show ?thesis
      using validateRegularIndices_iff [of idxs]
      by (auto simp: validateMeasurementIndices_def indices_ok_def checkForDuplicateIndices_def
          intro: card_distinct dest: distinct_card)
  next
    case irregular: False
    then have "validateRegularIndices idxs \<noteq> Inr ()"
      by (simp add: validateRegularIndices_iff)
    with False irregular special show ?thesis
      by (auto simp: validateMeasurementIndices_def indices_ok_def split: sum.split)
  qed
qed

section \<open>What the measurements are\<close>

text \<open>
  A run of GET_MEASUREMENTS without a failure: the answers to the indices, in order. It is the
  specification of the loop.
\<close>

inductive measured ::
    "'w libspdm \<Rightarrow> ptr \<Rightarrow> u64 \<Rightarrow> u64 list \<Rightarrow> 'w \<Rightarrow> bytes list \<Rightarrow> 'w \<Rightarrow> bool"
  for L c slotId
where
  measured_none: "measured L c slotId [] w [] w"
| measured_more:
    "lib_get_measurement L c 0 (ucast i) (ucast slotId) MAX_MEASUREMENT_SIZE w = ((st, n, data), w1) \<Longrightarrow>
     \<not> IS_ERROR st \<Longrightarrow> measured L c slotId is w1 datas w2 \<Longrightarrow>
     measured L c slotId (i # is) w (data # datas) w2"

inductive_cases measured_NilE: "measured L c slotId [] w datas w'"
inductive_cases measured_ConsE: "measured L c slotId (i # is) w datas w'"

text \<open>The answer to index 0 is a count, not a measurement: it is left out.\<close>

fun collected :: "u64 list \<Rightarrow> bytes list \<Rightarrow> bytes" where
  "collected (i # is) (data # datas) = (if i = 0 then [] else data) @ collected is datas"
| "collected _ _ = []"

lemma measurement_loop_iff:
  "measurement_loop L c slotId idxs acc w = (Inr all, w') \<longleftrightarrow>
   (\<exists>datas. measured L c slotId idxs w datas w' \<and> all = acc @ collected idxs datas)"
proof (induction idxs arbitrary: acc w)
  case Nil
  then show ?case
    by (auto intro: measured_none elim: measured_NilE)
next
  case (Cons i "is")
  obtain st n data w1 where
    get: "lib_get_measurement L c 0 (ucast i) (ucast slotId) MAX_MEASUREMENT_SIZE w = ((st, n, data), w1)"
    by (metis surj_pair)
  show ?case
  proof (cases "IS_ERROR st")
    case True
    with get show ?thesis
      by (auto simp: exn_bind_def getSingleMeasurement_def elim: measured_ConsE)
  next
    case False
    with get have "measurement_loop L c slotId (i # is) acc w =
        measurement_loop L c slotId is (processMeasurementData i data acc) w1"
      by (simp add: exn_bind_def getSingleMeasurement_def)
    with Cons.IH [of "processMeasurementData i data acc" w1] get False show ?thesis
      by (fastforce simp: processMeasurementData_def intro: measured_more elim: measured_ConsE)
  qed
qed

section \<open>The reply\<close>

lemma with_context_Inr:
  "with_context transport f w = (Inr a, w') \<longleftrightarrow>
   (\<exists>c. transport = Some (Some c) \<and> f c w = (Inr a, w'))"
  by (auto simp: with_context_def split: option.splits)

lemma exn_bind_Inr:
  "exn_bind m f w = (Inr b, w') \<longleftrightarrow> (\<exists>a w1. m w = (Inr a, w1) \<and> f a w1 = (Inr b, w'))"
  by (auto simp: exn_bind_def split: prod.splits sum.splits)

lemma exn_bind_not_Undefined:
  "fst (m w) \<noteq> Inl Undefined \<Longrightarrow> (\<And>a w. fst (f a w) \<noteq> Inl Undefined) \<Longrightarrow>
   fst (exn_bind m f w) \<noteq> Inl Undefined"
  by (auto simp: exn_bind_def split: prod.splits sum.splits)

lemma getSignedMeasurements_iff:
  "getSignedMeasurements L transport idxs nonce slotId w = (Inr s, w') \<longleftrightarrow>
   (\<exists>c datas. transport = Some (Some c) \<and>
      measured L c slotId (if idxs = [] then [255] else idxs) w datas w' \<and>
      s = base64Encode (collected (if idxs = [] then [255] else idxs) datas))"
  unfolding getSignedMeasurements_def with_context_Inr Let_def exn_bind_Inr measurement_loop_iff
  by auto

lemma measurement_loop_not_Undefined:
  "fst (measurement_loop L c slotId idxs acc w) \<noteq> Inl Undefined"
proof (induction idxs arbitrary: acc w)
  case (Cons i "is")
  have "fst (getSingleMeasurement L c i slotId w) \<noteq> Inl Undefined"
    by (simp add: getSingleMeasurement_def Let_def split_beta)
  then show ?case
    by (simp add: exn_bind_not_Undefined Cons split_beta)
qed simp

lemma getSignedMeasurements_not_Undefined:
  "fst (getSignedMeasurements L transport idxs nonce slotId w) \<noteq> Inl Undefined"
  by (simp add: getSignedMeasurements_def with_context_def Let_def exn_bind_not_Undefined
      measurement_loop_not_Undefined del: measurement_loop.simps split: option.split)

lemma getCertificate_not_Undefined:
  "fst (getCertificate L mem transport slotId w) \<noteq> Inl Undefined"
  by (auto simp: getCertificate_def with_context_def Let_def split_beta
      split: option.splits if_splits sum.splits)

lemma updateCertificateObject_cases:
  "updateCertificateObject S add chassisId pem leaf ci =
     (if pem = [] then (Inl (RuntimeError ''Certificate PEM is empty''), ci)
      else if certificateObject ci = None \<and>
        \<not> add (''/xyz/openbmc_project/certs/devices/'' @ chassisId @ ''/CertChain'')
      then (Inl SdBusError, ci)
      else (Inr (''/xyz/openbmc_project/certs/devices/'' @ chassisId @ ''/CertChain''),
            ci\<lparr>certificateObject := Some (certificate_new S
                (case certificateObject ci of
                   Some cert \<Rightarrow> cert_path cert
                 | None \<Rightarrow> ''/xyz/openbmc_project/certs/devices/'' @ chassisId @ ''/CertChain'')
                pem leaf)\<rparr>))"
  by (simp add: updateCertificateObject_def update_is_new Let_def split: option.split)

lemma getCertificateDigests_Undefined:
  "fst (getCertificateDigests L transport w) = Inl Undefined \<longleftrightarrow>
   (\<exists>c. transport = Some (Some c) \<and> 384 < length (snd (snd (fst (lib_get_digest L c w)))))"
  by (auto simp: getCertificateDigests_def with_context_def Let_def split_beta
      split: option.split)

lemma getCertificateDigests_Inr:
  "getCertificateDigests L (Some (Some c)) w = (Inr d, w') \<longleftrightarrow>
   (\<exists>st mask digests. lib_get_digest L c w = ((st, mask, digests), w') \<and> \<not> IS_ERROR st \<and>
      length digests \<le> 384 \<and>
      d = (mask, vec_write 0 digests (replicate 384 0),
           min (popcount mask * 48) (length (vec_write 0 digests (replicate 384 0)))))"
  by (auto simp: getCertificateDigests_def with_context_def Let_def split: prod.splits if_splits)

lemma initializeSpdmConnection_not_Undefined:
  "fst (initializeSpdmConnection L transport w) \<noteq> Inl Undefined"
  by (auto simp: initializeSpdmConnection_def with_context_def Let_def split_beta
      split: option.split)

lemma method_call_invalid:
  "\<not> indices_ok idxs \<Longrightarrow>
   method_call L C S filename mem add transport idxs nonce slotId ci w = (Inr (empty_reply ci), ci, w)"
  using validate_iff [of idxs] validate_results [of idxs]
  by (auto simp: method_call_def method_body_def)

text \<open>A reply with a certificate in it comes from a run in which every step succeeded.\<close>

lemma method_call_success:
  assumes "method_call L C S filename mem add transport idxs nonce slotId ci w =
      (Inr (path, hash, pem, meas, sign, version), ci', w')"
    and "pem \<noteq> ''''"
  obtains c d w1 w2 w3 chain leaf datas where
    "indices_ok idxs" "transport = Some (Some c)"
    "initializeSpdmConnection L transport w = (Inr (), w1)"
    "getCertificateDigests L transport w1 = (Inr d, w2)"
    "getCertificate L mem transport slotId w2 = (Inr (pem, chain, leaf), w3)"
    "measured L c slotId (if idxs = [] then [255] else idxs) w3 datas w'"
    "meas = base64Encode (collected (if idxs = [] then [255] else idxs) datas)"
    "path = ''/xyz/openbmc_project/certs/devices/'' @ filename (ci_path ci) @ ''/CertChain''"
    "updateCertificateObject S add (filename (ci_path ci)) pem leaf ci = (Inr path, ci')"
    "hash = getHashingAlgorithmStr C (ucast (lib_base_hash_algo L c w'))"
    "sign = getSigningAlgorithmStr C (ucast (lib_base_asym_algo L c w'))"
    "version = type_version ci"
proof -
  from assms have body: "method_body L C S filename mem add transport idxs nonce slotId ci w =
      (Inr (path, hash, pem, meas, sign, version), ci', w')"
    by (auto simp: method_call_def empty_reply_def split: sum.splits prod.splits exn.splits)
  from body have valid: "validateMeasurementIndices idxs = Inr ()"
    by (auto simp: method_body_def split: sum.splits)
  from body valid obtain w1 where init: "initializeSpdmConnection L transport w = (Inr (), w1)"
    by (auto simp: method_body_def split: sum.splits prod.splits)
  from body valid init obtain d w2 where digests: "getCertificateDigests L transport w1 = (Inr d, w2)"
    by (auto simp: method_body_def split: sum.splits prod.splits)
  from body valid init digests obtain pem' chain leaf w3 where
    cert: "getCertificate L mem transport slotId w2 = (Inr (pem', chain, leaf), w3)"
    by (auto simp: method_body_def split: sum.splits prod.splits)
  from body valid init digests cert obtain meas' w4 where
    meas: "getSignedMeasurements L transport idxs nonce slotId w3 = (Inr meas', w4)"
    by (auto simp: method_body_def split: sum.splits prod.splits)
  then obtain c datas where c: "transport = Some (Some c)"
    and run: "measured L c slotId (if idxs = [] then [255] else idxs) w3 datas w4"
      "meas' = base64Encode (collected (if idxs = [] then [255] else idxs) datas)"
    unfolding getSignedMeasurements_iff by auto
  from body valid init digests cert meas c obtain path' ci2 where
    update: "updateCertificateObject S add (filename (ci_path ci)) pem' leaf ci = (Inr path', ci2)"
    by (auto simp: method_body_def Let_def split: sum.splits prod.splits)
  then have same: "path' = ''/xyz/openbmc_project/certs/devices/'' @ filename (ci_path ci) @ ''/CertChain''"
    "type_version ci2 = type_version ci"
    by (auto simp: updateCertificateObject_cases split: if_splits)
  from body valid init digests cert meas c update have
    "pem' = pem" "meas' = meas" "w4 = w'" "path' = path" "ci2 = ci'"
    "hash = getHashingAlgorithmStr C (ucast (lib_base_hash_algo L c w'))"
    "sign = getSigningAlgorithmStr C (ucast (lib_base_asym_algo L c w'))"
    "version = type_version ci2"
    by (auto simp: method_body_def Let_def)
  with valid init digests cert c run update same show ?thesis
    by (intro that [of c w1 d w2 chain leaf w3 datas]) (simp_all add: validate_iff [symmetric])
qed

text \<open>
  What the method writes beyond its digest buffer: more digests than eight times 48 bytes, for a
  connection that was made.
\<close>

definition digest_overflow :: "'w libspdm \<Rightarrow> ptr option option \<Rightarrow> u64 list \<Rightarrow> 'w \<Rightarrow> bool" where
  "digest_overflow L transport idxs w \<longleftrightarrow>
     indices_ok idxs \<and>
     (\<exists>c w1. transport = Some (Some c) \<and> initializeSpdmConnection L transport w = (Inr (), w1) \<and>
        8 * 48 < length (snd (snd (fst (lib_get_digest L c w1)))))"

lemma method_body_Undefined:
  "fst (method_body L C S filename mem add transport idxs nonce slotId ci w) = Inl Undefined \<longleftrightarrow>
   digest_overflow L transport idxs w"
proof (cases "validateMeasurementIndices idxs")
  case (Inl e)
  then have "\<not> indices_ok idxs" "e \<noteq> Undefined"
    using validate_iff [of idxs] validate_results [of idxs] by auto
  with Inl show ?thesis
    by (simp add: method_body_def digest_overflow_def)
next
  case (Inr u)
  then have ok: "indices_ok idxs"
    using validate_iff [of idxs] by simp
  obtain r1 w1 where init: "initializeSpdmConnection L transport w = (r1, w1)"
    by fastforce
  obtain r2 w2 where dig: "getCertificateDigests L transport w1 = (r2, w2)"
    by fastforce
  obtain r3 w3 where cer: "getCertificate L mem transport slotId w2 = (r3, w3)"
    by fastforce
  obtain r4 w4 where meas: "getSignedMeasurements L transport idxs nonce slotId w3 = (r4, w4)"
    by fastforce
  have r: "r1 \<noteq> Inl Undefined" "r3 \<noteq> Inl Undefined" "r4 \<noteq> Inl Undefined"
    using initializeSpdmConnection_not_Undefined [of L transport w]
      getCertificate_not_Undefined [of L mem transport slotId w2]
      getSignedMeasurements_not_Undefined [of L transport idxs nonce slotId w3] init cer meas by auto
  have overflow: "digest_overflow L transport idxs w \<longleftrightarrow> \<not> isl r1 \<and> r2 = Inl Undefined"
    using getCertificateDigests_Undefined [of L transport w1] init dig ok
    by (cases r1) (auto simp: digest_overflow_def)
  have transport: "\<exists>c. transport = Some (Some c)" if "\<not> isl r4"
    using that meas getSignedMeasurements_iff [of L transport idxs nonce slotId w3 "projr r4" w4]
    by (cases r4) auto
  consider "isl r1" | "\<not> isl r1" "isl r2" | "\<not> isl r1" "\<not> isl r2" "isl r3 \<or> isl r4"
    | c where "\<not> isl r1" "\<not> isl r2" "\<not> isl r3" "\<not> isl r4" "transport = Some (Some c)"
    using transport by blast
  then show ?thesis
  proof cases
    case 1
    with Inr init r overflow show ?thesis
      by (cases r1) (simp_all add: method_body_def)
  next
    case 2
    with Inr init dig overflow show ?thesis
      by (cases r1; cases r2) (simp_all add: method_body_def)
  next
    case 3
    with Inr init dig cer meas r overflow show ?thesis
      by (cases r1; cases r2; cases r3; cases r4) (simp_all add: method_body_def split_beta)
  next
    case 4
    with Inr init dig cer meas overflow show ?thesis
      by (cases r1; cases r2; cases r3; cases r4)
        (simp_all add: method_body_def split_beta updateCertificateObject_cases Let_def)
  qed
qed

lemma method_call_replies:
  "fst (method_call L C S filename mem add transport idxs nonce slotId ci w) = Inl Undefined \<longleftrightarrow>
   digest_overflow L transport idxs w"
  "isl (fst (method_call L C S filename mem add transport idxs nonce slotId ci w)) \<longleftrightarrow>
   digest_overflow L transport idxs w"
  using method_body_Undefined [of L C S filename mem add transport idxs nonce slotId ci w]
  by (auto simp: method_call_def split: prod.splits sum.splits exn.splits)

text \<open>Nothing of the object but its certificate changes.\<close>

lemma method_call_object:
  "method_call L C S filename mem add transport idxs nonce slotId ci w = (r, ci', w') \<Longrightarrow>
   ci' = ci\<lparr>certificateObject := certificateObject ci'\<rparr>"
  by (auto simp: method_call_def method_body_def updateCertificateObject_cases Let_def
      split: prod.splits sum.splits exn.splits option.splits if_splits)

section \<open>What is asked of the device\<close>

lemma measurement_loop_attribute:
  assumes "\<And>c op slot n w. f c 0 op slot n w = g c 0 op slot n w"
  shows "measurement_loop (L\<lparr>lib_get_measurement := f\<rparr>) c slotId idxs acc =
    measurement_loop (L\<lparr>lib_get_measurement := g\<rparr>) c slotId idxs acc"
proof (induction idxs arbitrary: acc)
  case Nil
  show ?case
    by (rule ext) simp
next
  case (Cons i "is")
  have "getSingleMeasurement (L\<lparr>lib_get_measurement := f\<rparr>) c i slotId =
      getSingleMeasurement (L\<lparr>lib_get_measurement := g\<rparr>) c i slotId"
    by (rule ext) (simp add: getSingleMeasurement_def assms)
  with Cons show ?case
    by (intro ext) simp
qed

lemma method_call_attribute:
  assumes "\<And>c op slot n w. f c 0 op slot n w = g c 0 op slot n w"
  shows "method_call (L\<lparr>lib_get_measurement := f\<rparr>) C S filename mem add transport idxs nonce slotId ci w =
    method_call (L\<lparr>lib_get_measurement := g\<rparr>) C S filename mem add transport idxs nonce' slotId ci w"
proof -
  have "getSignedMeasurements (L\<lparr>lib_get_measurement := f\<rparr>) transport idxs nonce slotId =
      getSignedMeasurements (L\<lparr>lib_get_measurement := g\<rparr>) transport idxs nonce' slotId"
    using measurement_loop_attribute [of f g L, OF assms]
    by (intro ext) (simp add: getSignedMeasurements_def with_context_def exn_bind_def Let_def
        split: option.split)
  moreover have "initializeSpdmConnection (L\<lparr>lib_get_measurement := f\<rparr>) transport =
      initializeSpdmConnection (L\<lparr>lib_get_measurement := g\<rparr>) transport"
    and "getCertificateDigests (L\<lparr>lib_get_measurement := f\<rparr>) transport =
      getCertificateDigests (L\<lparr>lib_get_measurement := g\<rparr>) transport"
    and "getCertificate (L\<lparr>lib_get_measurement := f\<rparr>) mem transport slotId =
      getCertificate (L\<lparr>lib_get_measurement := g\<rparr>) mem transport slotId"
    by (rule ext, simp add: initializeSpdmConnection_def getCertificateDigests_def
        getCertificate_def with_context_def Let_def split_beta cong: option.case_cong if_cong)+
  ultimately show ?thesis
    by (simp add: method_call_def method_body_def
        cong: option.case_cong sum.case_cong prod.case_cong)
qed

section \<open>Properties\<close>

text \<open>
  C23. The requested measurement indices are accepted exactly when the list is empty, is the single
  special value 0 or 255, or consists of pairwise different values between 1 and 254; every other
  list is rejected with InvalidArgument.
\<close>

theorem measurement_indices_checked:
  "validateMeasurementIndices idxs = (if indices_ok idxs then Inr () else Inl InvalidArgument)"
  using validate_iff [of idxs] validate_results [of idxs] by auto

text \<open>The names, from the lower 16 bits.\<close>

lemma low_word: "(ucast (ucast (a :: u32) :: u16) :: u32) = word_of_nat (unat a mod 65536)"
  by (rule word_unat_eq_iff [THEN iffD2])
    (simp add: unsigned_ucast_eq unsigned_of_nat take_bit_eq_mod unat_mod)

lemma algorithm_names:
  "getHashingAlgorithmStr C (ucast (a :: u32)) =
    (let a = word_of_nat (unat a mod 65536) in
     if a = BASE_HASH_SHA_256 C then ''SHA256'' else if a = BASE_HASH_SHA_384 C then ''SHA384''
     else if a = BASE_HASH_SHA_512 C then ''SHA512'' else ''NONE'')"
  "getSigningAlgorithmStr C (ucast (a :: u32)) =
    (let a = word_of_nat (unat a mod 65536) in
     if a = BASE_ASYM_RSASSA_2048 C then ''RSASSA2048''
     else if a = BASE_ASYM_RSAPSS_2048 C then ''RSAPSS2048''
     else if a = BASE_ASYM_ECDSA_P256 C then ''ECDSA_P256''
     else if a = BASE_ASYM_ECDSA_P384 C then ''ECDSA_P384''
     else if a = BASE_ASYM_ECDSA_P521 C then ''ECDSA_P521'' else ''NONE'')"
  by (simp_all add: getHashingAlgorithmStr_def getSigningAlgorithmStr_def low_word)

text \<open>
  C10. A reply of the method with a certificate in it is sound: the indices were acceptable; then, one
  after the other and each in the state the one before left, the connection was made, the digests
  were got without an error and fit their buffer, the certificate chain was read from the asked slot,
  and the measurements were taken. The certificate read is the one published, the
  measurement field decodes to the answers of the device to the requested indices (all of them for
  an empty list), in order and without the count that index 0 asks for, and the certificate object
  exists and holds the same chain. The algorithms are named from the lower 16 bits of what was
  negotiated.
\<close>

theorem signed_measurements_sound:
  assumes "method_call L C S filename mem add transport idxs nonce slotId ci w =
      (Inr (path, hash, pem, meas, sign, version), ci', w')"
    and "pem \<noteq> ''''"
  shows "indices_ok idxs \<and>
    (\<exists>c w1 w2 w3 st mask digests chain leaf datas cert.
       transport = Some (Some c) \<and>
       initializeSpdmConnection L transport w = (Inr (), w1) \<and>
       lib_get_digest L c w1 = ((st, mask, digests), w2) \<and> \<not> IS_ERROR st \<and> length digests \<le> 384 \<and>
       getCertificate L mem transport slotId w2 = (Inr (pem, chain, leaf), w3) \<and>
       measured L c slotId (if idxs = [] then [255] else idxs) w3 datas w' \<and>
       b64_decode meas = Some (collected (if idxs = [] then [255] else idxs) datas) \<and>
       certificateObject ci' = Some cert \<and> certificate_string cert = pem \<and>
       (certificateObject ci = None \<longrightarrow> add path) \<and>
       (let a = word_of_nat (unat (lib_base_hash_algo L c w') mod 65536) in
        hash = (if a = BASE_HASH_SHA_256 C then ''SHA256'' else if a = BASE_HASH_SHA_384 C then ''SHA384''
                else if a = BASE_HASH_SHA_512 C then ''SHA512'' else ''NONE'')) \<and>
       (let a = word_of_nat (unat (lib_base_asym_algo L c w') mod 65536) in
        sign = (if a = BASE_ASYM_RSASSA_2048 C then ''RSASSA2048''
                else if a = BASE_ASYM_RSAPSS_2048 C then ''RSAPSS2048''
                else if a = BASE_ASYM_ECDSA_P256 C then ''ECDSA_P256''
                else if a = BASE_ASYM_ECDSA_P384 C then ''ECDSA_P384''
                else if a = BASE_ASYM_ECDSA_P521 C then ''ECDSA_P521'' else ''NONE''))) \<and>
    path = ''/xyz/openbmc_project/certs/devices/'' @ filename (ci_path ci) @ ''/CertChain'' \<and>
    version = type_version ci \<and> ci_path ci' = ci_path ci"
proof -
  from assms obtain c d w1 w2 w3 chain leaf datas where steps:
    "indices_ok idxs" "transport = Some (Some c)"
    "initializeSpdmConnection L transport w = (Inr (), w1)"
    and dig: "getCertificateDigests L transport w1 = (Inr d, w2)"
    and run: "getCertificate L mem transport slotId w2 = (Inr (pem, chain, leaf), w3)"
    "measured L c slotId (if idxs = [] then [255] else idxs) w3 datas w'"
    and meas: "meas = base64Encode (collected (if idxs = [] then [255] else idxs) datas)"
    and path: "path = ''/xyz/openbmc_project/certs/devices/'' @ filename (ci_path ci) @ ''/CertChain''"
      "version = type_version ci"
    and update: "updateCertificateObject S add (filename (ci_path ci)) pem leaf ci = (Inr path, ci')"
    and algo: "hash = getHashingAlgorithmStr C (ucast (lib_base_hash_algo L c w'))"
      "sign = getSigningAlgorithmStr C (ucast (lib_base_asym_algo L c w'))"
    by (rule method_call_success)
  from update obtain cert where cert: "certificateObject ci' = Some cert" "certificate_string cert = pem"
    "certificateObject ci = None \<longrightarrow> add path" "ci_path ci' = ci_path ci"
    by (auto simp: updateCertificateObject_cases certificate_new_def split_beta split: if_splits)
  obtain st mask digests where digest: "lib_get_digest L c w1 = ((st, mask, digests), w2)"
    "\<not> IS_ERROR st" "length digests \<le> 384"
    using dig by (auto simp: getCertificateDigests_Inr steps(2))
  have "b64_decode meas = Some (collected (if idxs = [] then [255] else idxs) datas)"
    unfolding meas by (metis base64Encode_ref b64_decode_ref)
  note facts = steps digest run this cert(1-3) algo [unfolded algorithm_names Let_def] path cert(4)
  show ?thesis
    unfolding Let_def by (intro conjI exI) (rule facts)+
qed

text \<open>An OpenSSL that parses nothing.\<close>

definition no_openssl :: "(unit, unit, unit, unit) openssl" where
  "no_openssl =
     \<lparr>d2i_X509 = (\<lambda>_. None), X509_get_issuer_name = (\<lambda>_. None), X509_get_subject_name = (\<lambda>_. None),
      X509_NAME_oneline = (\<lambda>_ _. None), X509_get0_notBefore = (\<lambda>_. None),
      X509_get0_notAfter = (\<lambda>_. None), ASN1_TIME_to_timegm = (\<lambda>_. None),
      X509_get_key_usage = (\<lambda>_. None), ASN1_BIT_STRING_get_bit = (\<lambda>_ _. False)\<rparr>"

lemma example_chain_pem:
  "derCertsToPem plenty (\<lambda>chain i. if i = 0 \<and> chain \<noteq> [] then Some chain else None) [0x30, 0x01, 0x00] =
     Inr (cert_pem [0x30, 0x01, 0x00], [0x30, 0x01, 0x00])"
proof -
  have "length (cert_pem [0x30, 0x01, 0x00]) = 59"
    by (simp add: cert_pem_def pem_begin_def pem_end_def newline_def base64Lines_loop.simps
        base64Encode_def b64_loop.simps Let_def)
  then show ?thesis
    unfolding derCertsToPem_def
    by (simp add: derCertsToPem_loop.simps string_fits_def string_max_size_def)
qed

lemmas example_method_simps = method_call_def method_body_def getCertificate_def
  getCertificateDigests_def getSignedMeasurements_def getSingleMeasurement_def
  initializeSpdmConnection_def with_context_def exn_bind_def example_libspdm_def
  spdm_cert_chain_header_size_def processMeasurementData_def Let_def

lemma example_method_call:
  "method_call example_libspdm dsp0274 no_openssl (\<lambda>p. ''dev'') plenty (\<lambda>p. True) (Some (Some 0))
     [3, 7] ''n'' 0 (component_integrity_new ''/dev'' 0) () =
   (Inr (''/xyz/openbmc_project/certs/devices/dev/CertChain'', ''SHA256'',
              cert_pem [0x30, 0x01, 0x00], base64Encode [3, 0xAA, 7, 0xAA], ''ECDSA_P256'', ''1.1''),
         (component_integrity_new ''/dev'' 0)\<lparr>certificateObject :=
            Some (certificate_new no_openssl ''/xyz/openbmc_project/certs/devices/dev/CertChain''
                    (cert_pem [0x30, 0x01, 0x00]) [0x30, 0x01, 0x00])\<rparr>, ())"
proof -
  have "validateMeasurementIndices [3, 7] = Inr ()"
    by (simp add: validate_iff indices_ok_def)
  moreover have "cert_pem [0x30, 0x01, 0x00] \<noteq> []"
    by (simp add: cert_pem_def pem_begin_def)
  ultimately show ?thesis
    by (simp add: example_method_simps updateCertificateObject_cases example_chain_pem
        component_integrity_new_def getHashingAlgorithmStr_def getSigningAlgorithmStr_def dsp0274_def)
qed

lemma signed_measurements_sound_witness:
  "\<exists>datas. measured example_libspdm 0 0 [3, 7] () datas () \<and>
     b64_decode (base64Encode [3, 0xAA, 7, 0xAA]) = Some (collected [3, 7] datas)"
  using signed_measurements_sound [OF example_method_call]
  by (auto simp: cert_pem_def pem_begin_def)

text \<open>
  C11. The method always returns and answers: whatever the indices, and whatever fails on the way (the
  device, the memory for the certificates, the D-Bus library), no exception leaves it. Bad indices
  get a reply with only the object's path and version in it and reach neither the object nor the
  device. The one exception is the buffer for the digests: exactly when the indices are acceptable,
  the connection is made and libspdm writes more than 384 bytes of digests (as it does with 64-byte
  hashes in seven slots), the method writes beyond the end of the buffer.
\<close>

theorem signed_measurements_reply:
  "case method_call L C S filename mem add transport idxs nonce slotId ci w of
     (r, ci', w') \<Rightarrow>
       (\<not> indices_ok idxs \<longrightarrow>
          r = Inr (ci_path ci, '''', '''', '''', '''', type_version ci) \<and> ci' = ci \<and> w' = w) \<and>
       (if indices_ok idxs \<and>
           (\<exists>c w1. transport = Some (Some c) \<and> initializeSpdmConnection L transport w = (Inr (), w1) \<and>
              384 < length (snd (snd (fst (lib_get_digest L c w1)))))
        then r = Inl Undefined else \<exists>reply. r = Inr reply)"
proof -
  obtain r ci' w' where run: "method_call L C S filename mem add transport idxs nonce slotId ci w = (r, ci', w')"
    by (metis prod_cases3)
  have "r = Inr (empty_reply ci) \<and> ci' = ci \<and> w' = w" if "\<not> indices_ok idxs"
    using method_call_invalid [OF that, of L C S filename mem add transport nonce slotId ci w] run by simp
  moreover have "if digest_overflow L transport idxs w then r = Inl Undefined else \<exists>reply. r = Inr reply"
    using method_call_replies [of L C S filename mem add transport idxs nonce slotId ci w] run
    by (cases r) auto
  ultimately show ?thesis
    using run unfolding empty_reply_def digest_overflow_def by auto
qed

text \<open>A device with seven 64-byte digests.\<close>

definition sha512_libspdm :: "unit libspdm" where
  "sha512_libspdm = example_libspdm\<lparr>lib_get_digest :=
     \<lambda>c w. ((LIBSPDM_STATUS_SUCCESS, 0x7F, replicate (7 * 64) 0), w)\<rparr>"

lemma sha512_overflow:
  "\<exists>w1. initializeSpdmConnection sha512_libspdm (Some (Some 0)) () = (Inr (), w1) \<and>
     384 < length (snd (snd (fst (lib_get_digest sha512_libspdm 0 w1))))"
  by (simp add: initializeSpdmConnection_def with_context_def sha512_libspdm_def example_libspdm_def)

lemma signed_measurements_reply_witness:
  "(\<exists>reply. fst (method_call example_libspdm dsp0274 no_openssl (\<lambda>p. p) plenty (\<lambda>p. False)
     (Some (Some 0)) [255] ''n'' 0 (component_integrity_new ''/dev'' 0) ()) = Inr reply) \<and>
   fst (method_call example_libspdm dsp0274 no_openssl (\<lambda>p. p) plenty (\<lambda>p. True)
     None [1, 1] ''n'' 0 (component_integrity_new ''/dev'' 0) ()) =
     Inr (''/dev'', '''', '''', '''', '''', ''1.1'') \<and>
   fst (method_call sha512_libspdm dsp0274 no_openssl (\<lambda>p. p) plenty (\<lambda>p. True) (Some (Some 0)) [255] ''n'' 0
     (component_integrity_new ''/dev'' 0) ()) = Inl Undefined"
proof (intro conjI)
  have "\<not> 384 < length (snd (snd (fst (lib_get_digest example_libspdm 0 w1))))" for w1
    by (simp add: example_libspdm_def)
  with signed_measurements_reply [where L = example_libspdm and C = dsp0274 and S = no_openssl and filename = "\<lambda>p. p" and mem = plenty and add = "\<lambda>p. False"
      and transport = "Some (Some 0)" and idxs = "[255]" and nonce = "''n''" and slotId = 0 and ci = "component_integrity_new ''/dev'' 0" and w = "()"]
  show "\<exists>reply. fst (method_call example_libspdm dsp0274 no_openssl (\<lambda>p. p) plenty (\<lambda>p. False)
     (Some (Some 0)) [255] ''n'' 0 (component_integrity_new ''/dev'' 0) ()) = Inr reply"
    by (auto split: prod.splits)
  have "\<not> indices_ok [1, 1]"
    by (simp add: indices_ok_def)
  with signed_measurements_reply [where L = example_libspdm and C = dsp0274 and S = no_openssl and filename = "\<lambda>p. p" and mem = plenty and add = "\<lambda>p. True"
      and transport = None and idxs = "[1, 1]" and nonce = "''n''" and slotId = 0 and ci = "component_integrity_new ''/dev'' 0" and w = "()"]
  show "fst (method_call example_libspdm dsp0274 no_openssl (\<lambda>p. p) plenty (\<lambda>p. True)
     None [1, 1] ''n'' 0 (component_integrity_new ''/dev'' 0) ()) =
     Inr (''/dev'', '''', '''', '''', '''', ''1.1'')"
    by (auto simp: component_integrity_new_def split: prod.splits)
  from sha512_overflow signed_measurements_reply [where L = sha512_libspdm and C = dsp0274 and S = no_openssl and filename = "\<lambda>p. p" and mem = plenty and add = "\<lambda>p. True"
      and transport = "Some (Some 0)" and idxs = "[255]" and nonce = "''n''" and slotId = 0 and ci = "component_integrity_new ''/dev'' 0" and w = "()"]
  show "fst (method_call sha512_libspdm dsp0274 no_openssl (\<lambda>p. p) plenty (\<lambda>p. True) (Some (Some 0)) [255] ''n'' 0
     (component_integrity_new ''/dev'' 0) ()) = Inl Undefined"
    by (auto simp: indices_ok_def split: prod.splits)
qed

text \<open>
  C24. The measurements the method returns are not signed for the caller: every GET_MEASUREMENTS
  request it makes has request attribute 0 (no signature asked for), and the caller's nonce has no
  influence on the run. Two devices that differ only in how they answer requests for a signature,
  asked with different nonces, give the same result.
\<close>

theorem signed_measurements_unsigned:
  assumes "\<And>c op slot n w. f c 0 op slot n w = g c 0 op slot n w"
  shows "method_call (L\<lparr>lib_get_measurement := f\<rparr>) C S filename mem add transport idxs nonce slotId ci w =
    method_call (L\<lparr>lib_get_measurement := g\<rparr>) C S filename mem add transport idxs nonce' slotId ci w"
  by (rule method_call_attribute) (rule assms)

lemma signed_measurements_unsigned_witness:
  "method_call (example_libspdm\<lparr>lib_get_measurement :=
       \<lambda>c attr op slot n w. ((LIBSPDM_STATUS_SUCCESS, 1, [op, attr]), w)\<rparr>)
     dsp0274 no_openssl (\<lambda>p. p) plenty (\<lambda>p. True) (Some (Some 0)) [1] ''a'' 0 (component_integrity_new ''/dev'' 0) () =
   method_call (example_libspdm\<lparr>lib_get_measurement :=
       \<lambda>c attr op slot n w. if attr = 0 then ((LIBSPDM_STATUS_SUCCESS, 1, [op, 0]), w)
                            else ((LIBSPDM_STATUS_RECEIVE_FAIL, 0, []), w)\<rparr>)
     dsp0274 no_openssl (\<lambda>p. p) plenty (\<lambda>p. True) (Some (Some 0)) [1] ''b'' 0 (component_integrity_new ''/dev'' 0) ()"
  by (rule signed_measurements_unsigned) simp

end
