(* ===== verification/Responder.thy ===== *)
theory Responder
  imports Transport_Lifecycle Component_Integrity
begin

text \<open>
  \<^verbatim>\<open>requester/spdm_dbus_responder.hpp\<close> and \<^verbatim>\<open>.cpp\<close>: \<open>SPDMDBusResponder\<close>, the D-Bus objects of one
  device and its secure session; and the polymorphic transport it is given. \<open>any_transport\<close> is the
  base class pointer: which of the two classes the object has, and the virtual calls dispatch on
  it. A transport is shared between the list of discovered devices and the responder, so it lives
  in a store and both hold a reference \<open>tref\<close> to it.
\<close>

section \<open>The virtual interface of SpdmTransport\<close>

datatype any_transport = AnyMctp mctp_transport | AnyTcp tcp_transport

fun any_context :: "any_transport \<Rightarrow> ptr option" where
  "any_context (AnyMctp t) = spdmContext t"
| "any_context (AnyTcp t) = spdmContext t"

fun any_scratch :: "any_transport \<Rightarrow> ptr option" where
  "any_scratch (AnyMctp t) = scratchBuffer t"
| "any_scratch (AnyTcp t) = scratchBuffer t"

fun any_connected :: "any_transport \<Rightarrow> bool" where
  "any_connected (AnyMctp t) = mctp_isSocketOpen (mctpIo t)"
| "any_connected (AnyTcp t) = tcp_isSocketOpen (tcpIo t)"

text \<open>The members of the base class.\<close>

fun any_base :: "any_transport \<Rightarrow> spdm_transport" where
  "any_base (AnyMctp t) = spdm_transport.truncate t"
| "any_base (AnyTcp t) = spdm_transport.truncate t"

fun any_initialize ::
    "'w libspdm \<Rightarrow> 'w os \<Rightarrow> spdm_consts \<Rightarrow> any_transport \<Rightarrow> 'w machine
     \<Rightarrow> bool \<times> any_transport \<times> 'w machine"
where
  "any_initialize L OS C (AnyMctp t) m = (let (ok, t, m) = mctp_initialize L OS C t m in (ok, AnyMctp t, m))"
| "any_initialize L OS C (AnyTcp t) m = (let (ok, t, m) = tcp_initialize L OS C t m in (ok, AnyTcp t, m))"

fun any_destroy :: "'w libspdm \<Rightarrow> any_transport \<Rightarrow> 'w machine \<Rightarrow> 'w machine" where
  "any_destroy L (AnyMctp t) m = snd (mctp_transport_destroy L t m)"
| "any_destroy L (AnyTcp t) m = snd (tcp_transport_destroy L t m)"

fun any_applySecureSessionConfig ::
    "'w libspdm \<Rightarrow> spdm_consts \<Rightarrow> any_transport \<Rightarrow> SecureSessionConfig \<Rightarrow> 'w
     \<Rightarrow> status \<times> any_transport \<times> 'w"
where
  "any_applySecureSessionConfig L C (AnyMctp t) cfg w =
     (let (st, t, w) = applySecureSessionConfig L C t cfg w in (st, AnyMctp t, w))"
| "any_applySecureSessionConfig L C (AnyTcp t) cfg w =
     (let (st, t, w) = applySecureSessionConfig L C t cfg w in (st, AnyTcp t, w))"

lemma any_apply_context [simp]:
  "any_context (fst (snd (any_applySecureSessionConfig L C t cfg w))) = any_context t"
  by (cases t) (simp_all add: split_beta)

interpretation any_life: transport_lifecycle
  "any_initialize L OS C" any_context any_scratch any_connected
  for L OS C
proof unfold_locales
  fix t m t' m'
  assume "any_initialize L OS C t m = (True, t', m')"
  then show "any_connected t' \<and> any_context t' = Some (brk (mheap m)) \<and>
      any_scratch t' = Some (Suc (brk (mheap m))) \<and>
      mheap m' = snd (malloc True (snd (malloc True (mheap m))))"
    by (cases t) (auto split: prod.splits dest: mctp_life.init_success tcp_life.init_success)
next
  fix m ok t t' m'
  assume "heap_ok (mheap m)" "any_initialize L OS C t m = (ok, t', m')"
  then show "heap_ok (mheap m') \<and> live (mheap m) \<subseteq> live (mheap m')"
    by (cases t) (auto split: prod.splits dest: mctp_life.init_heap_ok tcp_life.init_heap_ok)
qed

section \<open>The store of transports\<close>

type_synonym tref = nat
type_synonym store = "any_transport list"

definition new_transport :: "any_transport \<Rightarrow> store \<Rightarrow> tref \<times> store" where
  "new_transport t st = (length st, st @ [t])"

text \<open>A shared pointer seen by the operations that only read the context.\<close>

definition deref :: "store \<Rightarrow> tref option \<Rightarrow> ptr option option" where
  "deref st r = map_option (\<lambda>i. any_context (st ! i)) r"

section \<open>Discovered devices\<close>

datatype TransportType = MCTP | PCIE_DOE | TCP

datatype responder_data = MctpData u64 string | TcpData string u64

record responder_info =
  objectPath :: string
  deviceObjectPath :: string
  ri_transport :: "tref option"
  responderData :: responder_data
  transportType :: TransportType

section \<open>SPDMDBusResponder\<close>

record responder =
  deviceName :: string
  inventoryPath :: string
  componentIntegrity :: component_integrity
  trustedComponent :: trusted_component
  r_transport :: "tref option"
  r_session :: "spdm_session option"

text \<open>
  The constructor. The constructors of the two D-Bus objects register them on the bus and throw when
  the bus refuses the path; \<open>initializeSpdmConnection\<close> throws when libspdm fails. What the bus answers
  is the parameter \<open>add\<close>, which is given the paths that are registered already (\<open>objects\<close>) and the new
  one. An exception destroys what was constructed before it. \<open>filename\<close> is
  \<^verbatim>\<open>object_path::filename\<close>, \<open>now\<close> the clock, \<open>attach\<close> the generated class's initial type.
\<close>

definition responder_new ::
    "'w libspdm \<Rightarrow> (string \<Rightarrow> string) \<Rightarrow> (string list \<Rightarrow> string \<Rightarrow> bool) \<Rightarrow> string list \<Rightarrow> u64
     \<Rightarrow> ComponentAttachType \<Rightarrow> store \<Rightarrow> responder_info \<Rightarrow> 'w \<Rightarrow> (exn + responder) \<times> 'w"
where
  "responder_new L filename add objects now attach st info w =
     (let name = filename (deviceObjectPath info);
          componentIntegrityPath = ''/xyz/openbmc_project/ComponentIntegrity/'' @ name in
      if \<not> add objects componentIntegrityPath then (Inl SdBusError, w)
      else
        (let ci = component_integrity_new componentIntegrityPath now;
             ci_transport = (case ri_transport info of Some r \<Rightarrow> Some r | None \<Rightarrow> None);
             trustedComponentPath = ''/xyz/openbmc_project/TrustedComponent/'' @ name in
         if \<not> add (objects @ [componentIntegrityPath]) trustedComponentPath then (Inl SdBusError, w)
         else
           (let tc = trusted_component_new attach trustedComponentPath in
            case initializeSpdmConnection L (deref st ci_transport) w of
              (Inl e, w) \<Rightarrow> (Inl e, w)
            | (Inr _, w) \<Rightarrow>
                (Inr \<lparr>deviceName = name, inventoryPath = objectPath info, componentIntegrity = ci,
                      trustedComponent = tc, r_transport = ri_transport info, r_session = None\<rparr>, w))))"

text \<open>The paths at which a responder's objects are registered, and the two paths that a name takes.\<close>

definition responder_paths :: "responder \<Rightarrow> string list" where
  "responder_paths r = [ci_path (componentIntegrity r), tc_path (trustedComponent r)]"

definition name_paths :: "string \<Rightarrow> string list" where
  "name_paths name =
     [''/xyz/openbmc_project/ComponentIntegrity/'' @ name, ''/xyz/openbmc_project/TrustedComponent/'' @ name]"

lemma name_paths_inject: "set (name_paths n) \<inter> set (name_paths n') \<noteq> {} \<longleftrightarrow> n = n'"
  by (auto simp: name_paths_def)

lemma distinct_name_paths: "distinct (name_paths n)"
  by (simp add: name_paths_def)

text \<open>A responder that is constructed is named after its device and its two paths were accepted.\<close>

lemma responder_new_result:
  "responder_new L filename add objects now attach st info w = (Inr r, w') \<Longrightarrow>
   r_transport r = ri_transport info \<and> inventoryPath r = objectPath info \<and> r_session r = None \<and>
   deref st (ri_transport info) \<noteq> None"
  by (auto simp: responder_new_def initializeSpdmConnection_def with_context_def deref_def Let_def
      split: prod.splits sum.splits option.splits if_splits)

lemma responder_new_name:
  "responder_new L filename add objects now attach st info w = (Inr r, w') \<Longrightarrow>
   deviceName r = filename (deviceObjectPath info) \<and>
   responder_paths r = name_paths (deviceName r) \<and>
   add objects (hd (responder_paths r)) \<and>
   add (objects @ [hd (responder_paths r)]) (last (responder_paths r))"
  by (auto simp: responder_new_def responder_paths_def name_paths_def component_integrity_new_def
      trusted_component_new_def Let_def split: prod.splits sum.splits if_splits)

definition secureSessionActive :: "responder \<Rightarrow> bool" where
  "secureSessionActive r = (case r_session r of None \<Rightarrow> False | Some s \<Rightarrow> isActive s)"

definition openSecureSession ::
    "'w libspdm \<Rightarrow> 'w os \<Rightarrow> spdm_consts \<Rightarrow> store \<Rightarrow> SecureSessionConfig \<Rightarrow> byte \<Rightarrow> responder \<Rightarrow> 'w
     \<Rightarrow> status \<times> responder \<times> 'w"
where
  "openSecureSession L OS C st cfg slotId r w =
     (case r_transport r of
        None \<Rightarrow> (LIBSPDM_STATUS_INVALID_PARAMETER, r, w)
      | Some i \<Rightarrow>
          (let (e, w) = installPeerRootCert L OS C (any_base (st ! i)) cfg w in
           if IS_ERROR e then (e, r, w)
           else
             (let s = (case r_session r of None \<Rightarrow> spdm_session_init | Some s \<Rightarrow> s);
                  r = r\<lparr>r_session := Some s\<rparr> in
              if isActive s then (LIBSPDM_STATUS_SUCCESS, r, w)
              else
                (let (e, s, w) =
                   session_start L (any_context (st ! i)) slotId (NO_MEASUREMENT_SUMMARY_HASH C)
                     0 False s w
                 in (e, r\<lparr>r_session := Some s\<rparr>, w)))))"

text \<open>A session is only made over a transport, whose context it works on.\<close>

definition responder_context :: "store \<Rightarrow> responder \<Rightarrow> ptr option" where
  "responder_context st r =
     (case r_transport r of None \<Rightarrow> None | Some i \<Rightarrow> any_context (st ! i))"

definition closeSecureSession ::
    "'w libspdm \<Rightarrow> store \<Rightarrow> responder \<Rightarrow> 'w \<Rightarrow> status \<times> responder \<times> 'w" where
  "closeSecureSession L st r w =
     (case r_session r of
        None \<Rightarrow> (LIBSPDM_STATUS_SUCCESS, r, w)
      | Some s \<Rightarrow>
          (let (e, s, w) = session_stop L (responder_context st r) 0 s w
           in (e, r\<lparr>r_session := Some s\<rparr>, w)))"

definition sendHeartbeat ::
    "'w libspdm \<Rightarrow> store \<Rightarrow> responder \<Rightarrow> 'w \<Rightarrow> status \<times> 'w" where
  "sendHeartbeat L st r w =
     (case r_session r of
        None \<Rightarrow> (LIBSPDM_STATUS_INVALID_STATE_LOCAL, w)
      | Some s \<Rightarrow>
          if \<not> isActive s then (LIBSPDM_STATUS_INVALID_STATE_LOCAL, w)
          else session_heartbeat L (responder_context st r) s w)"

text \<open>The destructor: of the members only the session has something to do.\<close>

definition responder_destroy :: "'w libspdm \<Rightarrow> store \<Rightarrow> responder \<Rightarrow> 'w \<Rightarrow> 'w" where
  "responder_destroy L st r w =
     (case r_session r of
        None \<Rightarrow> w
      | Some s \<Rightarrow> snd (session_destroy L (responder_context st r) s w))"

section \<open>A responder is a session endpoint\<close>

lemma open_fields:
  "openSecureSession L OS C st cfg slotId r w = (e, r', w') \<Longrightarrow>
   r' = r\<lparr>r_session := r_session r'\<rparr>"
  by (auto simp: openSecureSession_def Let_def split: option.splits prod.splits if_splits)

lemma open_success_active:
  "openSecureSession L OS C st cfg slotId r w = (LIBSPDM_STATUS_SUCCESS, r', w') \<Longrightarrow>
   secureSessionActive r'"
  using session.open_success
  by (fastforce simp: openSecureSession_def secureSessionActive_def Let_def
      split: option.splits prod.splits if_splits)

text \<open>A start that fails leaves the session inactive; one that ends with a warning activates it.\<close>

lemma open_error_inactive:
  assumes "openSecureSession L OS C st cfg slotId r w = (e, r', w')"
    and "\<not> secureSessionActive r" and "IS_ERROR e"
  shows "\<not> secureSessionActive r'"
  using assms
  by (auto simp: openSecureSession_def secureSessionActive_def spdm_session_init_def Let_def
      split: option.splits prod.splits if_splits dest: session.open_failure [rotated])

lemma close_ends_inactive:
  "closeSecureSession L st r w = (e, r', w') \<Longrightarrow> \<not> secureSessionActive r'"
  using session.close_ends
  by (fastforce simp: closeSecureSession_def secureSessionActive_def Let_def
      split: option.splits prod.splits)

lemma close_fields:
  "closeSecureSession L st r w = (e, r', w') \<Longrightarrow> r' = r\<lparr>r_session := r_session r'\<rparr>"
  by (auto simp: closeSecureSession_def Let_def split: option.splits prod.splits)

lemma close_inactive_silent:
  "\<not> secureSessionActive r \<Longrightarrow> closeSecureSession L st r w = (LIBSPDM_STATUS_SUCCESS, r, w)"
  by (auto simp: closeSecureSession_def secureSessionActive_def session_stop_def
      split: option.splits)

section \<open>Properties\<close>

text \<open>
  C17. The life of a responder's secure session. A successful open leaves it active over a transport
  with a context; opening an active one again installs the root certificate again but starts no
  second session; closing always leaves it inactive, and from then on close and heartbeat do nothing
  in libspdm; and a failed open leaves an inactive session inactive.
\<close>

theorem secure_session_life:
  assumes "openSecureSession L OS C st cfg slotId r w = (e, r1, w1)"
  shows "(e = LIBSPDM_STATUS_SUCCESS \<longrightarrow>
       secureSessionActive r1 \<and> responder_context st r1 \<noteq> None \<and>
       (\<exists>i. r_transport r1 = Some i \<and>
         (case installPeerRootCert L OS C (any_base (st ! i)) cfg v of (e2, v') \<Rightarrow>
            openSecureSession L OS C st cfg slotId r1 v =
              (if IS_ERROR e2 then e2 else LIBSPDM_STATUS_SUCCESS, r1, v')))) \<and>
    (IS_ERROR e \<and> \<not> secureSessionActive r \<longrightarrow> \<not> secureSessionActive r1) \<and>
    (case closeSecureSession L st r1 v of (e3, r3, v3) \<Rightarrow>
       \<not> secureSessionActive r3 \<and> r_transport r3 = r_transport r \<and>
       closeSecureSession L st r3 v3 = (LIBSPDM_STATUS_SUCCESS, r3, v3) \<and>
       sendHeartbeat L st r3 v3 = (LIBSPDM_STATUS_INVALID_STATE_LOCAL, v3))"
proof (intro conjI impI)
  assume e: "e = LIBSPDM_STATUS_SUCCESS"
  show active: "secureSessionActive r1"
    using open_success_active assms unfolding e .
  from assms e obtain i where i: "r_transport r = Some i"
    by (auto simp: openSecureSession_def split: option.splits)
  have r1: "r_transport r1 = Some i"
    using open_fields [OF assms] i by (metis responder.select_convs(5) responder.surjective responder.update_convs(6))
  have "any_context (st ! i) \<noteq> None"
    using assms e i by (cases "st ! i")
      (auto simp: openSecureSession_def installPeerRootCert_def Let_def spdm_transport.defs
        split: option.splits prod.splits if_splits)
  with r1 show "responder_context st r1 \<noteq> None"
    by (simp add: responder_context_def)
  from active obtain s where "r_session r1 = Some s" "isActive s"
    by (auto simp: secureSessionActive_def split: option.splits)
  with r1 show "\<exists>i. r_transport r1 = Some i \<and>
         (case installPeerRootCert L OS C (any_base (st ! i)) cfg v of (e2, v') \<Rightarrow>
            openSecureSession L OS C st cfg slotId r1 v =
              (if IS_ERROR e2 then e2 else LIBSPDM_STATUS_SUCCESS, r1, v'))"
    by (simp add: openSecureSession_def split: prod.split)
next
  assume "IS_ERROR e \<and> \<not> secureSessionActive r"
  then show "\<not> secureSessionActive r1"
    using open_error_inactive [OF assms] by simp
next
  obtain e3 r3 v3 where c: "closeSecureSession L st r1 v = (e3, r3, v3)"
    by (metis prod_cases3)
  have "r_transport r3 = r_transport r"
    using close_fields [OF c] open_fields [OF assms]
    by (metis responder.select_convs(5) responder.surjective responder.update_convs(6))
  moreover have "sendHeartbeat L st r3 v3 = (LIBSPDM_STATUS_INVALID_STATE_LOCAL, v3)"
    using close_ends_inactive [OF c]
    by (auto simp: sendHeartbeat_def secureSessionActive_def split: option.splits)
  ultimately show "case closeSecureSession L st r1 v of (e3, r3, v3) \<Rightarrow>
       \<not> secureSessionActive r3 \<and> r_transport r3 = r_transport r \<and>
       closeSecureSession L st r3 v3 = (LIBSPDM_STATUS_SUCCESS, r3, v3) \<and>
       sendHeartbeat L st r3 v3 = (LIBSPDM_STATUS_INVALID_STATE_LOCAL, v3)"
    using close_ends_inactive [OF c] close_inactive_silent c by simp
qed

definition example_store :: store where
  "example_store = [AnyMctp ((mctp_transport_init dsp0274 8)\<lparr>spdmContext := Some 7\<rparr>)]"

definition example_responder :: responder where
  "example_responder =
     \<lparr>deviceName = ''d'', inventoryPath = ''/i'', componentIntegrity = component_integrity_new ''/c'' 0,
      trustedComponent = trusted_component_new Integrated ''/t'', r_transport = Some 0,
      r_session = None\<rparr>"

lemma secure_session_life_witness:
  "\<exists>r1. openSecureSession example_libspdm rich_os dsp0274 example_store
       (default_SecureSessionConfig dsp0274) 0 example_responder () = (LIBSPDM_STATUS_SUCCESS, r1, ()) \<and>
     secureSessionActive r1 \<and>
     (case closeSecureSession example_libspdm example_store r1 () of (e3, r3, v3) \<Rightarrow>
        \<not> secureSessionActive r3)"
proof -
  obtain r1 where r1: "openSecureSession example_libspdm rich_os dsp0274 example_store
      (default_SecureSessionConfig dsp0274) 0 example_responder () = (LIBSPDM_STATUS_SUCCESS, r1, ())"
    by (simp add: openSecureSession_def example_responder_def example_store_def installPeerRootCert_def
        loadPeerRootCert_def configAttempted_def default_SecureSessionConfig_def session_start_def
        spdm_session_init_def fetchPeerCert_def slot_present_def example_libspdm_def
        mctp_transport_init_def spdm_transport.defs)
  from r1 secure_session_life [OF r1, of "()"] show ?thesis
    by (auto split: prod.splits)
qed

end
