(* ===== verification/Discovery.thy ===== *)
theory Discovery
  imports Responder "HOL-Library.List_Lexorder" "HOL-Library.Char_ord"
begin

text \<open>
  \<^verbatim>\<open>requester/spdm_discovery.hpp\<close>, \<^verbatim>\<open>mctp_transport_discovery\<close>, \<^verbatim>\<open>tcp_transport_discovery\<close> and the two
  D-Bus queries of \<^verbatim>\<open>utils.cpp\<close>: which of the managed objects become devices, and which transport
  each of them gets. \<open>discovery_protocol\<close> is the abstract class \<open>DiscoveryProtocol\<close> with what its
  client relies on; both protocols provide it.

  A \<^verbatim>\<open>std::map\<close> is the list of its entries in the order of its iteration, that of the keys.
\<close>

section \<open>D-Bus data\<close>

datatype object_path = Object_path (path_str: string)

text \<open>Object paths are ordered as their strings are, byte by byte.\<close>

instantiation object_path :: linorder
begin

definition less_eq_object_path :: "object_path \<Rightarrow> object_path \<Rightarrow> bool" where
  "less_eq_object_path p q \<longleftrightarrow> path_str p \<le> path_str q"

definition less_object_path :: "object_path \<Rightarrow> object_path \<Rightarrow> bool" where
  "less_object_path p q \<longleftrightarrow> path_str p < path_str q"

instance
  by standard
    (auto simp: less_eq_object_path_def less_object_path_def object_path.expand)

end

datatype DbusPropertyValue = DString string | DByte byte | DBytes bytes | DUint64 u64

type_synonym DbusInterface = "(string \<times> DbusPropertyValue) list"
type_synonym DbusInterfaces = "(string \<times> DbusInterface) list"
type_synonym ManagedObjects = "(object_path \<times> DbusInterfaces) list"

text \<open>What a \<^verbatim>\<open>std::map\<close> guarantees.\<close>

definition managed_ok :: "ManagedObjects \<Rightarrow> bool" where
  "managed_ok mo \<longleftrightarrow> sorted (map fst mo) \<and> distinct (map fst mo)"

section \<open>The asynchronous queries\<close>

text \<open>
  Both queries move the one callback into the success handler (\<^verbatim>\<open>stdexec::then\<close>) and into the error
  handler (\<^verbatim>\<open>stdexec::upon_error\<close>), in the operands of an operator whose order of evaluation C++ does
  not fix. The handler built first gets the callback, the other one an empty \<^verbatim>\<open>std::function\<close>, whose
  call throws. What the success handler throws goes on to the error handler behind it. When the call in
  the error handler throws, the caller is not called: \<open>None\<close>. The exception then leaves the spawned
  task, and what becomes of it is the business of the D-Bus library, not of this model.
\<close>

datatype capture_order = Then_first | Error_first

definition move_callback :: "capture_order \<Rightarrow> 'f \<Rightarrow> 'f option \<times> 'f option" where
  "move_callback order callback =
     (case order of
        Then_first \<Rightarrow> (Some callback, None)
      | Error_first \<Rightarrow> (None, Some callback))"

definition handle_reply ::
    "(bool \<Rightarrow> ManagedObjects \<Rightarrow> 'b) option \<Rightarrow> (bool \<Rightarrow> ManagedObjects \<Rightarrow> 'b) option
     \<Rightarrow> ManagedObjects option \<Rightarrow> 'b option"
where
  "handle_reply on_success on_error reply =
     (let failed = map_option (\<lambda>callback. callback False []) on_error in
      case reply of
        None \<Rightarrow> failed
      | Some managedObjects \<Rightarrow>
          (case on_success of
             Some callback \<Rightarrow> Some (callback True managedObjects)
           | None \<Rightarrow> failed))"

definition getManagedObjectsAsync ::
    "capture_order \<Rightarrow> ManagedObjects option \<Rightarrow> (bool \<Rightarrow> ManagedObjects \<Rightarrow> 'b) \<Rightarrow> 'b option" where
  "getManagedObjectsAsync order reply callback =
     (let (on_success, on_error) = move_callback order callback
      in handle_reply on_success on_error reply)"

definition getManagedObjectsFromEMAsync ::
    "capture_order \<Rightarrow> ManagedObjects option \<Rightarrow> (bool \<Rightarrow> ManagedObjects \<Rightarrow> 'b) \<Rightarrow> 'b option" where
  "getManagedObjectsFromEMAsync order reply callback =
     (let (on_success, on_error) = move_callback order callback
      in handle_reply on_success on_error reply)"

section \<open>MCTP\<close>

definition MCTP_MESSAGE_TYPE_SPDM_VALUE :: byte where
  "MCTP_MESSAGE_TYPE_SPDM_VALUE = 0x05"

definition invalid_eid :: u64 where
  "invalid_eid = 255"

definition mctpEndpointIntfName :: string where
  "mctpEndpointIntfName = ''xyz.openbmc_project.MCTP.Endpoint''"

definition uuidIntfName :: string where
  "uuidIntfName = ''xyz.openbmc_project.Common.UUID''"

definition supportsSpdm :: "DbusInterface \<Rightarrow> bool" where
  "supportsSpdm mctpInterface =
     (case map_of mctpInterface ''SupportedMessageTypes'' of
        Some (DBytes messageTypes) \<Rightarrow> MCTP_MESSAGE_TYPE_SPDM_VALUE \<in> set messageTypes
      | _ \<Rightarrow> False)"

definition extractEid :: "DbusInterface \<Rightarrow> u64" where
  "extractEid mctpInterface =
     (case map_of mctpInterface ''EID'' of
        Some (DByte eid8) \<Rightarrow> (let eid = ucast eid8 in if eid = invalid_eid then invalid_eid else eid)
      | _ \<Rightarrow> invalid_eid)"

definition extractUuid :: "DbusInterfaces \<Rightarrow> string" where
  "extractUuid interfaces =
     (case map_of interfaces uuidIntfName of
        None \<Rightarrow> ''''
      | Some props \<Rightarrow>
          (case map_of props ''UUID'' of
             Some (DString uuid) \<Rightarrow> if uuid = '''' then '''' else uuid
           | _ \<Rightarrow> ''''))"

definition mctp_createDeviceFromInterfaces ::
    "spdm_consts \<Rightarrow> DbusInterfaces \<Rightarrow> string \<Rightarrow> store \<Rightarrow> responder_info option \<times> store" where
  "mctp_createDeviceFromInterfaces C interfaces path st =
     (case map_of interfaces mctpEndpointIntfName of
        None \<Rightarrow> (None, st)
      | Some mctpInterface \<Rightarrow>
          if \<not> supportsSpdm mctpInterface then (None, st)
          else
            (let e = extractEid mctpInterface in
             if e = invalid_eid then (None, st)
             else
               (let uuid = extractUuid interfaces in
                if uuid = '''' then (None, st)
                else
                  (let (r, st) = new_transport (AnyMctp (mctp_transport_init C (ucast e))) st in
                   (Some \<lparr>objectPath = path, deviceObjectPath = '''', ri_transport = Some r,
                          responderData = MctpData e uuid, transportType = MCTP\<rparr>, st)))))"

fun process_objects ::
    "(DbusInterfaces \<Rightarrow> string \<Rightarrow> store \<Rightarrow> responder_info option \<times> store)
     \<Rightarrow> ManagedObjects \<Rightarrow> responder_info list \<Rightarrow> store \<Rightarrow> responder_info list \<times> store"
where
  "process_objects create [] devices st = (devices, st)"
| "process_objects create ((path, interfaces) # rest) devices st =
     (let (device, st) = create interfaces (path_str path) st in
      case device of
        Some d \<Rightarrow> process_objects create rest (devices @ [d]) st
      | None \<Rightarrow> process_objects create rest devices st)"

definition mctp_processManagedObjects ::
    "spdm_consts \<Rightarrow> ManagedObjects \<Rightarrow> store \<Rightarrow> responder_info list \<times> store" where
  "mctp_processManagedObjects C mo st = process_objects (mctp_createDeviceFromInterfaces C) mo [] st"

definition SpdmMctpRequesterIntf :: string where
  "SpdmMctpRequesterIntf = ''xyz.openbmc_project.Configuration.SpdmMctpRequester''"

fun em_search :: "responder_info \<Rightarrow> ManagedObjects \<Rightarrow> responder_info" where
  "em_search device [] = device"
| "em_search device ((emObjPath, emIfaces) # rest) =
     (case map_of emIfaces SpdmMctpRequesterIntf of
        None \<Rightarrow> em_search device rest
      | Some requester \<Rightarrow>
          (case map_of requester ''EID'' of
             Some (DUint64 eidVal) \<Rightarrow>
               (case responderData device of
                  MctpData e uuid \<Rightarrow>
                    if transportType device = MCTP \<and> eidVal = e
                    then device\<lparr>deviceObjectPath := path_str emObjPath\<rparr>
                    else em_search device rest
                | TcpData _ _ \<Rightarrow> em_search device rest)
           | _ \<Rightarrow> em_search device rest))"

definition parseSpdmEMConfig :: "responder_info list \<Rightarrow> ManagedObjects \<Rightarrow> responder_info list" where
  "parseSpdmEMConfig devices emManagedObjects = map (\<lambda>d. em_search d emManagedObjects) devices"

text \<open>
  \<open>discoverDevices\<close> with the answers to its two queries: what the callback is called with, or
  \<open>None\<close> if it is not called. When the second query fails, the devices are dropped, and with them
  the transports just made, which hold no resources yet.
\<close>

definition mctp_getSpdmEMConfigs ::
    "capture_order \<Rightarrow> ManagedObjects option \<Rightarrow> responder_info list \<times> store \<Rightarrow> store
     \<Rightarrow> (responder_info list \<times> store) option"
where
  "mctp_getSpdmEMConfigs order em_reply found st0 =
     getManagedObjectsFromEMAsync order em_reply
       (\<lambda>success em. if \<not> success then ([], st0)
                      else (let (devices, st) = found in (parseSpdmEMConfig devices em, st)))"

definition mctp_discoverDevices ::
    "spdm_consts \<Rightarrow> bool \<Rightarrow> (capture_order \<times> ManagedObjects option) \<times> (capture_order \<times> ManagedObjects option)
     \<Rightarrow> store \<Rightarrow> (responder_info list \<times> store) option"
where
  "mctp_discoverDevices C asyncCtx replies st =
     (if \<not> asyncCtx then Some ([], st)
      else
        (case replies of
           ((order, reply), (em_order, em_reply)) \<Rightarrow>
             (case getManagedObjectsAsync order reply
                 (\<lambda>success mo.
                    if \<not> success then Some ([], st)
                    else mctp_getSpdmEMConfigs em_order em_reply
                           (mctp_processManagedObjects C mo st) st) of
                None \<Rightarrow> None
              | Some r \<Rightarrow> r)))"

section \<open>TCP\<close>

definition SpdmTcpEndpointIntf :: string where
  "SpdmTcpEndpointIntf = ''xyz.openbmc_project.Configuration.SpdmTcpEndpoint''"

fun tcp_properties :: "DbusInterface \<Rightarrow> string \<times> u64 \<Rightarrow> (string \<times> u64) option" where
  "tcp_properties [] info = Some info"
| "tcp_properties ((propName, propValue) # rest) (ip, p) =
     (if propName = ''HostName'' then
        (case propValue of
           DString s \<Rightarrow> tcp_properties rest (s, p)
         | _ \<Rightarrow> None)
      else if propName = ''Port'' then
        (case propValue of
           DUint64 n \<Rightarrow> tcp_properties rest (ip, n)
         | _ \<Rightarrow> None)
      else tcp_properties rest (ip, p))"

definition tcp_createDeviceFromInterfaces ::
    "spdm_consts \<Rightarrow> DbusInterfaces \<Rightarrow> string \<Rightarrow> store \<Rightarrow> responder_info option \<times> store" where
  "tcp_createDeviceFromInterfaces C interfaces path st =
     (case map_of interfaces SpdmTcpEndpointIntf of
        None \<Rightarrow> (None, st)
      | Some properties \<Rightarrow>
          (case tcp_properties properties ('''', 0) of
             None \<Rightarrow> (None, st)
           | Some (ip, p) \<Rightarrow>
               if ip = '''' then (None, st)
               else if p = 0 then (None, st)
               else
                 (let (r, st) = new_transport (AnyTcp (tcp_transport_init C ip (ucast p))) st in
                  (Some \<lparr>objectPath = path, deviceObjectPath = path, ri_transport = Some r,
                         responderData = TcpData ip p, transportType = TCP\<rparr>, st))))"

definition tcp_processManagedObjects ::
    "spdm_consts \<Rightarrow> ManagedObjects \<Rightarrow> store \<Rightarrow> responder_info list \<times> store" where
  "tcp_processManagedObjects C mo st = process_objects (tcp_createDeviceFromInterfaces C) mo [] st"

definition tcp_discoverDevices ::
    "spdm_consts \<Rightarrow> bool \<Rightarrow> capture_order \<times> ManagedObjects option \<Rightarrow> store
     \<Rightarrow> (responder_info list \<times> store) option"
where
  "tcp_discoverDevices C asyncCtx reply st =
     (if \<not> asyncCtx then Some ([], st)
      else
        getManagedObjectsFromEMAsync (fst reply) (snd reply)
          (\<lambda>success mo. if \<not> success then ([], st) else tcp_processManagedObjects C mo st))"

text \<open>\<open>SPDMDiscovery::discover\<close> hands the devices of its protocol to the callback.\<close>

definition spdm_discover ::
    "(responder_info list \<times> store) option \<Rightarrow> (responder_info list \<Rightarrow> store \<Rightarrow> 's) \<Rightarrow> 's option" where
  "spdm_discover found callback = map_option (\<lambda>(devices, st). callback devices st) found"

section \<open>The contract of a discovery protocol\<close>

text \<open>A transport that has not been initialized holds no resources.\<close>

definition fresh_transport :: "any_transport \<Rightarrow> bool" where
  "fresh_transport t \<longleftrightarrow> any_context t = None \<and> any_scratch t = None \<and> \<not> any_connected t"

locale discovery_protocol =
  fixes discover :: "'r \<Rightarrow> store \<Rightarrow> (responder_info list \<times> store) option"
  assumes found: "discover r st = Some (devices, st') \<Longrightarrow>
    \<exists>new. st' = st @ new \<and> list_all fresh_transport new \<and>
      map ri_transport devices = map Some [length st..<length st']"
begin

lemma found_extends: "discover r st = Some (devices, st') \<Longrightarrow> \<exists>new. st' = st @ new"
  using found by blast

lemma found_own_transports:
  "discover r st = Some (devices, st') \<Longrightarrow> distinct (map ri_transport devices)"
  by (drule found) (metis distinct_map distinct_upt inj_Some inj_on_subset subset_UNIV)

lemma found_transport:
  assumes "discover r st = Some (devices, st')" and "d \<in> set devices"
  obtains i where "ri_transport d = Some i" "length st \<le> i" "i < length st'"
    "fresh_transport (st' ! i)"
proof -
  from found [OF assms(1)] obtain new where st': "st' = st @ new"
    and fresh: "list_all fresh_transport new"
    and refs: "map ri_transport devices = map Some [length st..<length st']"
    by blast
  from assms(2) have "ri_transport d \<in> set (map ri_transport devices)"
    by simp
  then obtain i where i: "ri_transport d = Some i" "length st \<le> i" "i < length st'"
    unfolding refs by auto
  with fresh st' have "fresh_transport (st' ! i)"
    by (auto simp: nth_append list_all_length)
  with i show ?thesis
    by (rule that)
qed

end

section \<open>Both protocols provide it\<close>

text \<open>
  A factory makes a device or not, whatever the store is, and its transport is the next one of the
  store.
\<close>

definition makes ::
    "(DbusInterfaces \<Rightarrow> string \<Rightarrow> store \<Rightarrow> responder_info option \<times> store)
     \<Rightarrow> (DbusInterfaces \<Rightarrow> string \<Rightarrow> ((tref \<Rightarrow> responder_info) \<times> any_transport) option) \<Rightarrow> bool"
where
  "makes create device \<longleftrightarrow>
     (\<forall>interfaces path st. create interfaces path st =
        (case device interfaces path of
           None \<Rightarrow> (None, st)
         | Some (mk, t) \<Rightarrow> (Some (mk (length st)), st @ [t])))"

definition selected ::
    "(DbusInterfaces \<Rightarrow> string \<Rightarrow> 'd option) \<Rightarrow> ManagedObjects \<Rightarrow> 'd list" where
  "selected device mo = List.map_filter (\<lambda>(path, interfaces). device interfaces (path_str path)) mo"

definition numbered :: "nat \<Rightarrow> ((tref \<Rightarrow> responder_info) \<times> any_transport) list \<Rightarrow> responder_info list" where
  "numbered n sel = map2 (\<lambda>(mk, t) r. mk r) sel [n..<n + length sel]"

lemma numbered_Cons: "numbered n ((mk, t) # sel) = mk n # numbered (Suc n) sel"
  by (simp add: numbered_def upt_rec)

lemma process_objects_selected:
  assumes "makes create device"
  shows "process_objects create mo devices st =
    (devices @ numbered (length st) (selected device mo), st @ map snd (selected device mo))"
proof (induction mo arbitrary: devices st)
  case Nil
  then show ?case
    by (simp add: selected_def map_filter_simps numbered_def)
next
  case (Cons o1 mo)
  obtain path interfaces where o1: "o1 = (path, interfaces)"
    by fastforce
  show ?case
  proof (cases "device interfaces (path_str path)")
    case None
    with Cons assms o1 show ?thesis
      by (simp add: makes_def selected_def map_filter_simps)
  next
    case (Some mt)
    with Cons assms o1 show ?thesis
      by (cases mt) (simp add: makes_def selected_def map_filter_simps numbered_Cons)
  qed
qed

lemma em_search_transport [simp]: "ri_transport (em_search d mo) = ri_transport d"
  by (induction d mo rule: em_search.induct)
    (auto split: option.split DbusPropertyValue.split responder_data.split)

definition mctp_device ::
    "spdm_consts \<Rightarrow> DbusInterfaces \<Rightarrow> string \<Rightarrow> ((tref \<Rightarrow> responder_info) \<times> any_transport) option"
where
  "mctp_device C interfaces path =
     (case map_of interfaces mctpEndpointIntfName of
        None \<Rightarrow> None
      | Some props \<Rightarrow>
          (case (map_of props ''SupportedMessageTypes'', map_of props ''EID'',
                 Option.bind (map_of interfaces uuidIntfName) (\<lambda>p. map_of p ''UUID'')) of
             (Some (DBytes types), Some (DByte e), Some (DString uuid)) \<Rightarrow>
               if 0x05 \<in> set types \<and> e \<noteq> 255 \<and> uuid \<noteq> [] then
                 Some (\<lambda>r. \<lparr>objectPath = path, deviceObjectPath = '''', ri_transport = Some r,
                           responderData = MctpData (ucast e) uuid, transportType = MCTP\<rparr>,
                       AnyMctp (mctp_transport_init C e))
               else None
           | _ \<Rightarrow> None))"

lemma ucast_byte_id [simp]: "ucast (ucast (e :: byte) :: u64) = e"
  by (rule bit_word_eqI) (simp add: bit_simps)

lemma ucast_byte_255: "ucast (e :: byte) = (255 :: u64) \<longleftrightarrow> e = 255"
proof
  assume "ucast e = (255 :: u64)"
  then have "ucast (ucast e :: u64) = (ucast (255 :: u64) :: byte)"
    by simp
  then show "e = 255"
    by simp
qed simp

lemma mctp_makes: "makes (mctp_createDeviceFromInterfaces C) (mctp_device C)"
proof -
  have "mctp_createDeviceFromInterfaces C interfaces path st =
      (case mctp_device C interfaces path of
         None \<Rightarrow> (None, st)
       | Some (mk, t) \<Rightarrow> (Some (mk (length st)), st @ [t]))" for interfaces path st
  proof (cases "map_of interfaces mctpEndpointIntfName")
    case None
    then show ?thesis
      by (simp add: mctp_createDeviceFromInterfaces_def mctp_device_def)
  next
    case (Some props)
    show ?thesis
      by (cases "map_of interfaces uuidIntfName")
        (simp_all add: Some mctp_createDeviceFromInterfaces_def mctp_device_def supportsSpdm_def
          MCTP_MESSAGE_TYPE_SPDM_VALUE_def extractEid_def invalid_eid_def extractUuid_def
          new_transport_def Let_def ucast_byte_255
          split: option.split DbusPropertyValue.split, auto)
  qed
  then show ?thesis
    by (simp add: makes_def)
qed

definition tcp_device ::
    "spdm_consts \<Rightarrow> DbusInterfaces \<Rightarrow> string \<Rightarrow> ((tref \<Rightarrow> responder_info) \<times> any_transport) option"
where
  "tcp_device C interfaces path =
     (case Option.bind (map_of interfaces SpdmTcpEndpointIntf) (\<lambda>props. tcp_properties props ('''', 0)) of
        None \<Rightarrow> None
      | Some (ip, p) \<Rightarrow>
          if ip \<noteq> '''' \<and> p \<noteq> 0 then
            Some (\<lambda>r. \<lparr>objectPath = path, deviceObjectPath = path, ri_transport = Some r,
                      responderData = TcpData ip p, transportType = TCP\<rparr>,
                  AnyTcp (tcp_transport_init C ip (ucast p)))
          else None)"

lemma tcp_makes: "makes (tcp_createDeviceFromInterfaces C) (tcp_device C)"
  by (auto simp: makes_def tcp_createDeviceFromInterfaces_def tcp_device_def new_transport_def Let_def
      split: option.split bind_splits)

text \<open>The order of the properties of an endpoint does not matter: each has one value.\<close>

lemma tcp_properties_result:
  "distinct (map fst props) \<Longrightarrow>
   tcp_properties props (ip0, p0) =
     (case (map_of props ''HostName'', map_of props ''Port'') of
        (None, None) \<Rightarrow> Some (ip0, p0)
      | (Some (DString ip), None) \<Rightarrow> Some (ip, p0)
      | (None, Some (DUint64 p)) \<Rightarrow> Some (ip0, p)
      | (Some (DString ip), Some (DUint64 p)) \<Rightarrow> Some (ip, p)
      | _ \<Rightarrow> None)"
proof (induction props arbitrary: ip0 p0)
  case Nil
  then show ?case
    by simp
next
  case (Cons kv props)
  obtain key v where kv: "kv = (key, v)"
    by fastforce
  from Cons.prems kv have d: "distinct (map fst props)" and new: "map_of props key = None"
    by (auto simp: map_of_eq_None_iff)
  consider "key = ''HostName''" | "key = ''Port''" | "key \<noteq> ''HostName''" "key \<noteq> ''Port''"
    by blast
  then show ?case
  proof cases
    case 1
    with Cons.IH [OF d] new kv show ?thesis
      by (auto split: DbusPropertyValue.split option.split)
  next
    case 2
    with Cons.IH [OF d] new kv show ?thesis
      by (auto split: DbusPropertyValue.split option.split)
  next
    case 3
    with Cons.IH [OF d] kv show ?thesis
      by simp
  qed
qed

lemma length_numbered [simp]: "length (numbered n sel) = length sel"
  by (simp add: numbered_def)

lemma numbered_refs:
  assumes "\<And>mk t r. (mk, t) \<in> set sel \<Longrightarrow> ri_transport (mk r) = Some r"
  shows "map ri_transport (numbered n sel) = map Some [n..<n + length sel]"
  using assms
proof (induction sel arbitrary: n)
  case Nil
  then show ?case
    by (simp add: numbered_def)
next
  case (Cons mt sel)
  obtain mk t where mt: "mt = (mk, t)"
    by fastforce
  from Cons.prems mt have "ri_transport (mk n) = Some n"
    by (metis list.set_intros(1))
  moreover have "map ri_transport (numbered (Suc n) sel) = map Some [Suc n..<Suc n + length sel]"
    by (rule Cons.IH) (metis Cons.prems list.set_intros(2))
  ultimately show ?case
    unfolding mt numbered_Cons by (simp add: upt_conv_Cons del: upt_Suc)
qed

lemma selected_mem: "x \<in> set (selected device mo) \<Longrightarrow> \<exists>i p. device i p = Some x"
  by (induction mo) (auto simp: selected_def map_filter_simps split: option.splits)

lemma mctp_device_parts:
  "mctp_device C interfaces path = Some (mk, t) \<Longrightarrow>
   ri_transport (mk r) = Some r \<and> fresh_transport t"
  by (auto simp: mctp_device_def fresh_transport_def mctp_transport_init_def spdm_transport_init_def
      spdm_transport.defs mctp_isSocketOpen_def mctp_io_init_def
      split: option.splits DbusPropertyValue.splits if_splits)

lemma tcp_device_parts:
  "tcp_device C interfaces path = Some (mk, t) \<Longrightarrow>
   ri_transport (mk r) = Some r \<and> fresh_transport t"
  by (auto simp: tcp_device_def fresh_transport_def tcp_transport_init_def spdm_transport_init_def
      spdm_transport.defs tcp_isSocketOpen_def tcp_io_init_def
      split: option.splits if_splits)

lemma process_objects_contract:
  assumes "makes create device"
    and parts: "\<And>i p mk t r. device i p = Some (mk, t) \<Longrightarrow> ri_transport (mk r) = Some r \<and> fresh_transport t"
    and run: "process_objects create mo [] st = (devices, st')"
  shows "\<exists>new. st' = st @ new \<and> list_all fresh_transport new \<and>
    map ri_transport devices = map Some [length st..<length st']"
proof -
  let ?sel = "selected device mo"
  from run process_objects_selected [OF assms(1), of mo "[]" st]
  have d: "devices = numbered (length st) ?sel" and st': "st' = st @ map snd ?sel"
    by auto
  have mem: "ri_transport (mk r) = Some r \<and> fresh_transport t" if "(mk, t) \<in> set ?sel" for mk t r
    using selected_mem [OF that] parts by blast
  then have "map ri_transport devices = map Some [length st..<length st + length ?sel]"
    unfolding d by (intro numbered_refs) blast
  moreover have "list_all fresh_transport (map snd ?sel)"
    using mem by (auto simp: list_all_iff)
  ultimately show ?thesis
    using st' by simp
qed

lemma parseSpdmEMConfig_transports [simp]:
  "map ri_transport (parseSpdmEMConfig devices em) = map ri_transport devices"
  by (simp add: parseSpdmEMConfig_def comp_def)

lemma mctp_processManagedObjects_contract:
  assumes "mctp_processManagedObjects C mo st = (devices, st')"
  shows "\<exists>new. st' = st @ new \<and> list_all fresh_transport new \<and>
    map ri_transport devices = map Some [length st..<length st']"
  using assms unfolding mctp_processManagedObjects_def
  by (rule process_objects_contract [where device = "mctp_device C", OF mctp_makes, rotated])
    (rule mctp_device_parts)

lemma tcp_processManagedObjects_contract:
  assumes "tcp_processManagedObjects C mo st = (devices, st')"
  shows "\<exists>new. st' = st @ new \<and> list_all fresh_transport new \<and>
    map ri_transport devices = map Some [length st..<length st']"
  using assms unfolding tcp_processManagedObjects_def
  by (rule process_objects_contract [where device = "tcp_device C", OF tcp_makes, rotated])
    (rule tcp_device_parts)

text \<open>What the callback of each protocol gets, for every answer to its queries.\<close>

lemma handle_reply_result:
  "(case move_callback order callback of (f, g) \<Rightarrow> handle_reply f g reply) =
     (if order = Error_first then Some (callback False [])
      else map_option (callback True) reply)"
  by (cases order; cases reply) (simp_all add: move_callback_def handle_reply_def)

lemmas query_result =
  getManagedObjectsAsync_def [unfolded handle_reply_result Let_def]
  getManagedObjectsFromEMAsync_def [unfolded handle_reply_result Let_def]

lemma mctp_discoverDevices_result:
  "mctp_discoverDevices C asyncCtx ((order, reply), (em_order, em_reply)) st =
     (if \<not> asyncCtx \<or> order = Error_first then Some ([], st)
      else
        (case reply of
           None \<Rightarrow> None
         | Some mo \<Rightarrow>
             if em_order = Error_first then Some ([], st)
             else
               (case em_reply of
                  None \<Rightarrow> None
                | Some em \<Rightarrow>
                    Some (parseSpdmEMConfig (fst (mctp_processManagedObjects C mo st)) em,
                          snd (mctp_processManagedObjects C mo st)))))"
  by (simp add: mctp_discoverDevices_def query_result mctp_getSpdmEMConfigs_def split_beta
      split: option.split)

lemma tcp_discoverDevices_result:
  "tcp_discoverDevices C asyncCtx (order, reply) st =
     (if \<not> asyncCtx \<or> order = Error_first then Some ([], st)
      else map_option (\<lambda>mo. tcp_processManagedObjects C mo st) reply)"
  by (simp add: tcp_discoverDevices_def query_result)

interpretation mctp_discovery: discovery_protocol
  "\<lambda>replies st. mctp_discoverDevices C asyncCtx replies st"
  for C asyncCtx
proof unfold_locales
  fix r st devices st'
  assume run: "mctp_discoverDevices C asyncCtx r st = Some (devices, st')"
  obtain o1 reply o2 em_reply where r: "r = ((o1, reply), (o2, em_reply))"
    by (metis surj_pair)
  show "\<exists>new. st' = st @ new \<and> list_all fresh_transport new \<and>
      map ri_transport devices = map Some [length st..<length st']"
  proof (cases "devices = [] \<and> st' = st")
    case False
    with run have "\<exists>mo em. devices = parseSpdmEMConfig (fst (mctp_processManagedObjects C mo st)) em \<and>
        st' = snd (mctp_processManagedObjects C mo st)"
      unfolding r mctp_discoverDevices_result
      by (cases asyncCtx; cases o1; cases o2; cases reply; cases em_reply) auto
    then obtain mo em where
      "devices = parseSpdmEMConfig (fst (mctp_processManagedObjects C mo st)) em"
      "st' = snd (mctp_processManagedObjects C mo st)"
      by blast
    moreover obtain ds st1 where P: "mctp_processManagedObjects C mo st = (ds, st1)"
      by fastforce
    ultimately show ?thesis
      using mctp_processManagedObjects_contract [OF P] by simp
  qed simp
qed

interpretation tcp_discovery: discovery_protocol
  "\<lambda>reply st. tcp_discoverDevices C asyncCtx reply st"
  for C asyncCtx
proof unfold_locales
  fix r st devices st'
  assume run: "tcp_discoverDevices C asyncCtx r st = Some (devices, st')"
  show "\<exists>new. st' = st @ new \<and> list_all fresh_transport new \<and>
      map ri_transport devices = map Some [length st..<length st']"
  proof (cases "devices = [] \<and> st' = st")
    case False
    with run obtain mo where "tcp_processManagedObjects C mo st = (devices, st')"
      by (cases r) (auto simp: tcp_discoverDevices_result split: if_splits option.splits)
    then show ?thesis
      by (rule tcp_processManagedObjects_contract)
  qed simp
qed

section \<open>Which configuration object a device gets\<close>

definition em_match :: "u64 \<Rightarrow> DbusInterfaces \<Rightarrow> bool" where
  "em_match e ifaces \<longleftrightarrow>
     Option.bind (map_of ifaces SpdmMctpRequesterIntf) (\<lambda>r. map_of r ''EID'') = Some (DUint64 e)"

lemma em_search_find:
  assumes "responderData d = MctpData e uuid" "transportType d = MCTP"
  shows "em_search d em =
    (case find (\<lambda>(p, ifaces). em_match e ifaces) em of
       None \<Rightarrow> d
     | Some (p, _) \<Rightarrow> d\<lparr>deviceObjectPath := path_str p\<rparr>)"
  using assms
proof (induction em)
  case (Cons o1 em)
  obtain p ifaces where o1: "o1 = (p, ifaces)"
    by fastforce
  show ?case
  proof (cases "em_match e ifaces")
    case True
    then obtain r where "map_of ifaces SpdmMctpRequesterIntf = Some r" "map_of r ''EID'' = Some (DUint64 e)"
      by (auto simp: em_match_def bind_eq_Some_conv)
    with Cons.prems True o1 show ?thesis
      by simp
  next
    case False
    with Cons o1 show ?thesis
      by (auto simp: em_match_def split: option.split DbusPropertyValue.split)
  qed
qed simp

text \<open>In a sorted map the first match is the least one.\<close>

lemma find_sorted_Min:
  fixes em :: "('k :: linorder \<times> 'v) list"
  assumes "sorted (map fst em)" and "find (\<lambda>(p, v). P v) em = Some (p, v)"
  shows "p = Min {q. \<exists>v. (q, v) \<in> set em \<and> P v}"
  using assms
proof (induction em)
  case (Cons o1 em)
  obtain q u where o1: "o1 = (q, u)"
    by fastforce
  let ?M = "{q. \<exists>v. (q, v) \<in> set (o1 # em) \<and> P v}"
  have fin: "finite ?M"
    by (rule finite_subset [of _ "set (map fst (o1 # em))"]) force+
  show ?case
  proof (cases "P u")
    case True
    with Cons.prems o1 have "p = q"
      by simp
    moreover have "Min ?M = q"
      using fin Cons.prems(1) True o1 by (intro Min_eqI) auto
    ultimately show ?thesis
      by simp
  next
    case False
    with o1 have "?M = {q. \<exists>v. (q, v) \<in> set em \<and> P v}"
      by auto
    with Cons False o1 show ?thesis
      by simp
  qed
qed simp

lemma makes_Some:
  assumes "makes create device"
  shows "create interfaces path st = (Some d, st') \<longleftrightarrow>
    (\<exists>mk t. device interfaces path = Some (mk, t) \<and> d = mk (length st) \<and> st' = st @ [t])"
  using assms by (auto simp: makes_def split: option.split)

lemma mctp_device_Some:
  "mctp_device C interfaces path = Some (mk, t) \<longleftrightarrow>
   (\<exists>props types e uuid_props uuid.
      map_of interfaces mctpEndpointIntfName = Some props \<and>
      map_of props ''SupportedMessageTypes'' = Some (DBytes types) \<and> 5 \<in> set types \<and>
      map_of props ''EID'' = Some (DByte e) \<and> e \<noteq> 255 \<and>
      map_of interfaces uuidIntfName = Some uuid_props \<and>
      map_of uuid_props ''UUID'' = Some (DString uuid) \<and> uuid \<noteq> [] \<and>
      mk = (\<lambda>r. \<lparr>objectPath = path, deviceObjectPath = [], ri_transport = Some r,
                 responderData = MctpData (ucast e) uuid, transportType = MCTP\<rparr>) \<and>
      t = AnyMctp (mctp_transport_init C e))"
  by (auto simp: mctp_device_def bind_eq_Some_conv
      split: option.splits DbusPropertyValue.splits if_splits)

lemma tcp_device_Some:
  assumes "\<And>props. map_of interfaces SpdmTcpEndpointIntf = Some props \<Longrightarrow> distinct (map fst props)"
  shows "tcp_device C interfaces path = Some (mk, t) \<longleftrightarrow>
   (\<exists>props ip p.
      map_of interfaces SpdmTcpEndpointIntf = Some props \<and>
      map_of props ''HostName'' = Some (DString ip) \<and> ip \<noteq> [] \<and>
      map_of props ''Port'' = Some (DUint64 p) \<and> p \<noteq> 0 \<and>
      mk = (\<lambda>r. \<lparr>objectPath = path, deviceObjectPath = path, ri_transport = Some r,
                 responderData = TcpData ip p, transportType = TCP\<rparr>) \<and>
      t = AnyTcp (tcp_transport_init C ip (ucast p)))"
proof (cases "map_of interfaces SpdmTcpEndpointIntf")
  case None
  then show ?thesis
    by (simp add: tcp_device_def)
next
  case (Some props)
  with assms have "distinct (map fst props)"
    by simp
  note props = tcp_properties_result [OF this]
  from Some show ?thesis
    by (auto simp: tcp_device_def props split: option.splits DbusPropertyValue.splits if_splits)
qed

section \<open>Properties\<close>

text \<open>
  C21. A managed object becomes an MCTP device exactly when it has the MCTP endpoint interface,
  lists message type 5 (SPDM), has an EID byte other than 255 and a non-empty UUID string; the
  device carries that EID and UUID and a new transport for that EID, and its configuration path is
  still empty.
\<close>

theorem mctp_device_selected:
  "mctp_createDeviceFromInterfaces C interfaces path st = (Some d, st') \<longleftrightarrow>
   (\<exists>props types e uuid_props uuid.
      map_of interfaces ''xyz.openbmc_project.MCTP.Endpoint'' = Some props \<and>
      map_of props ''SupportedMessageTypes'' = Some (DBytes types) \<and> 5 \<in> set types \<and>
      map_of props ''EID'' = Some (DByte e) \<and> e \<noteq> 255 \<and>
      map_of interfaces ''xyz.openbmc_project.Common.UUID'' = Some uuid_props \<and>
      map_of uuid_props ''UUID'' = Some (DString uuid) \<and> uuid \<noteq> '''' \<and>
      d = \<lparr>objectPath = path, deviceObjectPath = '''', ri_transport = Some (length st),
           responderData = MctpData (ucast e) uuid, transportType = MCTP\<rparr> \<and>
      st' = st @ [AnyMctp (mctp_transport_init C e)])"
  unfolding makes_Some [OF mctp_makes] mctp_device_Some
  by (fastforce simp: mctpEndpointIntfName_def uuidIntfName_def)

text \<open>
  C20. A managed object whose properties have distinct names becomes a TCP device exactly when it
  has the TCP endpoint interface with a non-empty HostName string and a Port that is a 64-bit number
  other than 0; its transport connects to that host, at the port cut to 16 bits, so that 65536 is
  accepted and becomes port 0.
\<close>

theorem tcp_device_selected:
  assumes "\<And>props. map_of interfaces ''xyz.openbmc_project.Configuration.SpdmTcpEndpoint'' = Some props \<Longrightarrow>
      distinct (map fst props)"
  shows "tcp_createDeviceFromInterfaces C interfaces path st = (Some d, st') \<longleftrightarrow>
   (\<exists>props ip p.
      map_of interfaces ''xyz.openbmc_project.Configuration.SpdmTcpEndpoint'' = Some props \<and>
      map_of props ''HostName'' = Some (DString ip) \<and> ip \<noteq> '''' \<and>
      map_of props ''Port'' = Some (DUint64 p) \<and> p \<noteq> 0 \<and>
      d = \<lparr>objectPath = path, deviceObjectPath = path, ri_transport = Some (length st),
           responderData = TcpData ip p, transportType = TCP\<rparr> \<and>
      st' = st @ [AnyTcp (tcp_transport_init C ip (word_of_nat (unat p mod 65536)))])"
proof -
  have port: "(ucast p :: u16) = word_of_nat (unat p mod 65536)" for p :: u64
    by (rule word_unat_eq_iff [THEN iffD2])
      (simp add: unsigned_ucast_eq unsigned_of_nat take_bit_eq_mod)
  have distinct: "distinct (map fst props)" if "map_of interfaces SpdmTcpEndpointIntf = Some props" for props
    using assms that by (simp add: SpdmTcpEndpointIntf_def)
  show ?thesis
    unfolding makes_Some [OF tcp_makes] tcp_device_Some [of interfaces, OF distinct, simplified]
    unfolding port SpdmTcpEndpointIntf_def
    by fastforce
qed

lemma tcp_device_selected_witness:
  "\<exists>d st'. tcp_createDeviceFromInterfaces dsp0274
     [(''xyz.openbmc_project.Configuration.SpdmTcpEndpoint'',
       [(''HostName'', DString ''h''), (''Port'', DUint64 65536)])] ''/d'' [] = (Some d, st') \<and>
     st' = [AnyTcp (tcp_transport_init dsp0274 ''h'' 0)]"
  by (subst tcp_device_selected) (auto split: if_splits)

text \<open>
  C22. Of the Entity Manager objects that configure a device's EID, an MCTP device gets the path of
  the least one, in the order of the paths; without one its configuration path is left as it is.
\<close>

theorem em_config_least:
  assumes "managed_ok em" and "responderData d = MctpData e uuid" and "transportType d = MCTP"
  shows "em_search d em =
    (let paths = {p. \<exists>ifaces. (p, ifaces) \<in> set em \<and> em_match e ifaces} in
     if paths = {} then d else d\<lparr>deviceObjectPath := path_str (Min paths)\<rparr>)"
proof (cases "find (\<lambda>(p, ifaces). em_match e ifaces) em")
  case None
  then have "{p. \<exists>ifaces. (p, ifaces) \<in> set em \<and> em_match e ifaces} = {}"
    by (auto simp: find_None_iff)
  with None em_search_find [OF assms(2,3)] show ?thesis
    by simp
next
  case (Some pi)
  obtain p ifaces where pi: "pi = (p, ifaces)"
    by fastforce
  from find_sorted_Min [of em "em_match e" p ifaces] Some assms(1) pi
  have "p = Min {q. \<exists>v. (q, v) \<in> set em \<and> em_match e v}"
    by (simp add: managed_ok_def)
  moreover have "{q. \<exists>v. (q, v) \<in> set em \<and> em_match e v} \<noteq> {}"
    using Some pi by (auto simp: find_Some_iff in_set_conv_nth)
  ultimately show ?thesis
    using em_search_find [OF assms(2,3), of em] Some pi by (auto simp: Let_def)
qed

definition example_em_objects :: ManagedObjects where
  "example_em_objects =
     [(Object_path ''/a'', []),
      (Object_path ''/b'', [(SpdmMctpRequesterIntf, [(''EID'', DUint64 8)])]),
      (Object_path ''/c'', [(SpdmMctpRequesterIntf, [(''EID'', DUint64 8)])])]"

definition example_mctp_device :: responder_info where
  "example_mctp_device =
     \<lparr>objectPath = ''/o'', deviceObjectPath = [], ri_transport = Some 0,
      responderData = MctpData 8 ''u'', transportType = MCTP\<rparr>"

lemma em_config_least_witness:
  "em_search example_mctp_device example_em_objects =
     example_mctp_device\<lparr>deviceObjectPath := ''/b''\<rparr>"
proof -
  have match: "{p. \<exists>ifaces. (p, ifaces) \<in> set example_em_objects \<and> em_match 8 ifaces} =
      {Object_path ''/b'', Object_path ''/c''}"
    by (auto simp: example_em_objects_def em_match_def SpdmMctpRequesterIntf_def)
  have "Object_path ''/b'' \<le> Object_path ''/c''"
    by (simp add: less_eq_object_path_def)
  then have "Min {Object_path ''/b'', Object_path ''/c''} = Object_path ''/b''"
    by (simp add: min_def)
  moreover have "managed_ok example_em_objects"
    by (simp add: managed_ok_def example_em_objects_def less_eq_object_path_def)
  ultimately show ?thesis
    using em_config_least [of example_em_objects example_mctp_device 8 "''u''"]
    by (simp add: match Let_def example_mctp_device_def)
qed

definition example_tcp_objects :: ManagedObjects where
  "example_tcp_objects =
     [(Object_path ''/a'', [(''xyz.openbmc_project.Configuration.SpdmTcpEndpoint'',
         [(''HostName'', DString ''h''), (''Port'', DUint64 2323)])])]"

lemma example_tcp_discovery:
  "tcp_discoverDevices dsp0274 True (Then_first, Some example_tcp_objects) [] =
     Some ([\<lparr>objectPath = ''/a'', deviceObjectPath = ''/a'', ri_transport = Some 0,
             responderData = TcpData ''h'' 2323, transportType = TCP\<rparr>],
           [AnyTcp (tcp_transport_init dsp0274 ''h'' 2323)])"
  by (simp add: tcp_discoverDevices_result tcp_processManagedObjects_def example_tcp_objects_def
      tcp_createDeviceFromInterfaces_def SpdmTcpEndpointIntf_def new_transport_def)

text \<open>
  C37. Of the two outcomes of a D-Bus query, success and failure, only one can be told as it is,
  whichever way the compiler orders the two captures. With the success handler first, a failed query
  calls an empty function object and the caller never hears of it. With the error handler first, every
  query of either protocol, a successful one too, is told as a failure: no device is ever discovered.
\<close>

theorem discovery_one_outcome:
  "(case order of
      Then_first \<Rightarrow>
        tcp_discoverDevices C True (order, None) st = None \<and>
        tcp_discoverDevices C True (order, Some mo) st = Some (tcp_processManagedObjects C mo st) \<and>
        mctp_discoverDevices C True ((order, None), em_query) st = None \<and>
        mctp_discoverDevices C True ((order, Some mo), (order, None)) st = None \<and>
        mctp_discoverDevices C True ((order, Some mo), (order, Some em)) st =
          (let (devices, st') = mctp_processManagedObjects C mo st
           in Some (parseSpdmEMConfig devices em, st'))
    | Error_first \<Rightarrow>
        tcp_discoverDevices C True (order, reply) st = Some ([], st) \<and>
        mctp_discoverDevices C True ((order, reply), em_query) st = Some ([], st) \<and>
        mctp_discoverDevices C True ((Then_first, Some mo), (order, reply)) st = Some ([], st))"
  by (cases order; cases em_query)
    (simp_all add: tcp_discoverDevices_result mctp_discoverDevices_result split_beta)

end
