(* ===== verification/Policy_Manager.thy ===== *)
theory Policy_Manager
  imports Prelude
begin

text \<open>
  \<^verbatim>\<open>requester/policy_manager.hpp\<close> and \<^verbatim>\<open>.cpp\<close>: the two policy flags, their setters with the change
  callbacks, and the cache file. A callback is a function of the old value, the new value, the
  manager as it is when the callback runs (the program's callbacks read it) and the state \<open>'s\<close> it
  works on. The interface \<open>observed_property\<close> is what the daemon relies on; both flags provide it.

  nlohmann::json is not part of the repository: what the code uses of it are the fields of
  \<open>json_api\<close> over an abstract \<open>'j\<close>.
\<close>

section \<open>The state\<close>

record 'j policy =
  pm_enabled :: bool
  pm_secure_session_enabled :: bool
  config :: 'j

type_synonym ('j, 's) change_callback = "bool \<Rightarrow> bool \<Rightarrow> 'j policy \<Rightarrow> 's \<Rightarrow> 's"

record ('j, 's) policy_callbacks =
  enabledChangeCallback :: "('j, 's) change_callback option"
  secureSessionEnabledChangeCallback :: "('j, 's) change_callback option"

definition no_callbacks :: "('j, 's) policy_callbacks" where
  "no_callbacks =
     \<lparr>enabledChangeCallback = None, secureSessionEnabledChangeCallback = None\<rparr>"

definition registerEnabledChangeCallback ::
    "('j, 's) change_callback option \<Rightarrow> ('j, 's) policy_callbacks \<Rightarrow> ('j, 's) policy_callbacks" where
  "registerEnabledChangeCallback callback cbs = cbs\<lparr>enabledChangeCallback := callback\<rparr>"

definition registerSecureSessionEnabledChangeCallback ::
    "('j, 's) change_callback option \<Rightarrow> ('j, 's) policy_callbacks \<Rightarrow> ('j, 's) policy_callbacks" where
  "registerSecureSessionEnabledChangeCallback callback cbs =
     cbs\<lparr>secureSessionEnabledChangeCallback := callback\<rparr>"

section \<open>The setters\<close>

text \<open>
  \<^verbatim>\<open>std::swap\<close> leaves the old value in the parameter, and the setter returns
  whether member and parameter are equal.
\<close>

definition set_property_enabled ::
    "('j, 's) policy_callbacks \<Rightarrow> bool \<Rightarrow> 'j policy \<Rightarrow> 's \<Rightarrow> bool \<times> 'j policy \<times> 's" where
  "set_property_enabled cbs enabled p s =
     (let oldValue = pm_enabled p;
          (new, enabled) = (enabled, pm_enabled p);
          p = p\<lparr>pm_enabled := new\<rparr>;
          s = (if pm_enabled p \<noteq> oldValue then
                 (case enabledChangeCallback cbs of
                    Some callback \<Rightarrow> callback oldValue (pm_enabled p) p s
                  | None \<Rightarrow> s)
               else s)
      in (pm_enabled p = enabled, p, s))"

definition set_property_secure_session_enabled ::
    "('j, 's) policy_callbacks \<Rightarrow> bool \<Rightarrow> 'j policy \<Rightarrow> 's \<Rightarrow> bool \<times> 'j policy \<times> 's" where
  "set_property_secure_session_enabled cbs secure_session_enabled p s =
     (let oldValue = pm_secure_session_enabled p;
          (new, secure_session_enabled) = (secure_session_enabled, pm_secure_session_enabled p);
          p = p\<lparr>pm_secure_session_enabled := new\<rparr>;
          s = (if pm_secure_session_enabled p \<noteq> oldValue then
                 (case secureSessionEnabledChangeCallback cbs of
                    Some callback \<Rightarrow> callback oldValue (pm_secure_session_enabled p) p s
                  | None \<Rightarrow> s)
               else s)
      in (secure_session_enabled = pm_secure_session_enabled p, p, s))"

section \<open>The cache file\<close>

record 'j json_api =
  json_parse :: "bytes \<Rightarrow> 'j option"
  json_items :: "'j \<Rightarrow> (string \<times> 'j) list"
  json_get_bool :: "'j \<Rightarrow> bool option"
  json_dump :: "'j \<Rightarrow> nat \<Rightarrow> bytes"

text \<open>
  \<open>Expected\<close> and \<open>Unexpected\<close> are the two sides of \<^verbatim>\<open>std::expected\<close>; \<open>Thrown\<close> is an exception of the
  JSON library, which nothing in \<open>load\<close> catches. \<open>file\<close> is what is found at the cache path: \<open>None\<close>
  for no file, \<open>Some None\<close> for one that cannot be opened.
\<close>

datatype 'a outcome = Expected 'a | Unexpected | Thrown

definition read_cache ::
    "'j json_api \<Rightarrow> bytes option \<Rightarrow> 'j policy \<Rightarrow> unit outcome \<times> 'j policy" where
  "read_cache J file p =
     (case file of
        None \<Rightarrow> (Unexpected, p)
      | Some content \<Rightarrow>
          (case json_parse J content of
             None \<Rightarrow> (Thrown, p)
           | Some j \<Rightarrow> (Expected (), p\<lparr>config := j\<rparr>)))"

fun load_items ::
    "'j json_api \<Rightarrow> ('j, 's) policy_callbacks \<Rightarrow> (string \<times> 'j) list \<Rightarrow> 'j policy \<Rightarrow> 's
     \<Rightarrow> unit outcome \<times> 'j policy \<times> 's"
where
  "load_items J cbs [] p s = (Expected (), p, s)"
| "load_items J cbs ((key, value) # rest) p s =
     (if key = ''enabled'' then
        (case json_get_bool J value of
           None \<Rightarrow> (Thrown, p, s)
         | Some b \<Rightarrow>
             (let (_, p, s) = set_property_enabled cbs b p s in load_items J cbs rest p s))
      else load_items J cbs rest p s)"

definition load ::
    "'j json_api \<Rightarrow> ('j, 's) policy_callbacks \<Rightarrow> bytes option option \<Rightarrow> 'j policy \<Rightarrow> 's
     \<Rightarrow> unit outcome \<times> 'j policy \<times> 's"
where
  "load J cbs file p s =
     (case file of
        None \<Rightarrow> (Expected (), p, s)
      | Some f \<Rightarrow>
          (case read_cache J f p of
             (Expected _, p) \<Rightarrow> load_items J cbs (json_items J (config p)) p s
           | (Unexpected, p) \<Rightarrow> (Unexpected, p, s)
           | (Thrown, p) \<Rightarrow> (Thrown, p, s)))"

text \<open>\<open>dump\<close>: whether the directories were made and the file could be opened, and what is written.\<close>

definition dump ::
    "'j json_api \<Rightarrow> bool \<Rightarrow> bool \<Rightarrow> 'j policy \<Rightarrow> bytes option \<Rightarrow> unit outcome \<times> bytes option" where
  "dump J directories_ok open_ok p file =
     (if \<not> directories_ok then (Unexpected, file)
      else if \<not> open_ok then (Unexpected, file)
      else (Expected (), Some (json_dump J (config p) 4)))"

section \<open>The contract of a flag\<close>

fun set_sequence :: "(bool \<Rightarrow> 'p \<Rightarrow> 's \<Rightarrow> bool \<times> 'p \<times> 's) \<Rightarrow> bool list \<Rightarrow> 'p \<Rightarrow> 's \<Rightarrow> 'p \<times> 's" where
  "set_sequence set_it [] p s = (p, s)"
| "set_sequence set_it (v # vs) p s =
     (let (_, p, s) = set_it v p s in set_sequence set_it vs p s)"

text \<open>The changes in a sequence of values, each with its predecessor.\<close>

fun changes :: "bool \<Rightarrow> bool list \<Rightarrow> (bool \<times> bool) list" where
  "changes old [] = []"
| "changes old (v # vs) = (if v = old then changes old vs else (old, v) # changes v vs)"

locale observed_property =
  fixes set_it :: "bool \<Rightarrow> 'p \<Rightarrow> 's \<Rightarrow> bool \<times> 'p \<times> 's"
    and get :: "'p \<Rightarrow> bool"
    and put :: "bool \<Rightarrow> 'p \<Rightarrow> 'p"
    and notify :: "bool \<Rightarrow> bool \<Rightarrow> 'p \<Rightarrow> 's \<Rightarrow> 's"
  assumes get_put: "get (put v p) = v"
    and set_same: "v = get p \<Longrightarrow> set_it v p s = (True, p, s)"
    and set_change: "v \<noteq> get p \<Longrightarrow> set_it v p s = (False, put v p, notify (get p) v (put v p) s)"
begin

lemma set_get: "set_it v p s = (r, p', s') \<Longrightarrow> get p' = v"
  by (cases "v = get p") (auto simp: set_same set_change get_put)

text \<open>The result says that nothing changed.\<close>

lemma set_result: "fst (set_it v p s) \<longleftrightarrow> v = get p"
  by (cases "v = get p") (auto simp: set_same set_change)

lemma set_sequence_get: "get (fst (set_sequence set_it vs p s)) = last (get p # vs)"
proof (induction vs arbitrary: p s)
  case (Cons v vs)
  obtain r p' s' where "set_it v p s = (r, p', s')"
    by (metis prod_cases3)
  with Cons [of p' s'] set_get [OF this] show ?case
    by simp
qed simp

end

definition call_back ::
    "('j, 's) change_callback option \<Rightarrow> ('j, 's) change_callback" where
  "call_back cb old new p s = (case cb of Some f \<Rightarrow> f old new p s | None \<Rightarrow> s)"

interpretation enabled_property: observed_property
  "set_property_enabled cbs" pm_enabled "\<lambda>v p. p\<lparr>pm_enabled := v\<rparr>"
  "call_back (enabledChangeCallback cbs)"
  for cbs
  by unfold_locales (auto simp: set_property_enabled_def call_back_def Let_def split: option.split)

interpretation secure_property: observed_property
  "set_property_secure_session_enabled cbs" pm_secure_session_enabled
  "\<lambda>v p. p\<lparr>pm_secure_session_enabled := v\<rparr>"
  "call_back (secureSessionEnabledChangeCallback cbs)"
  for cbs
  by unfold_locales (auto simp: set_property_secure_session_enabled_def call_back_def Let_def split: option.split)

section \<open>Sequences of changes of both flags\<close>

datatype policy_flag = Enabled_flag | Secure_flag

fun flag_value :: "policy_flag \<Rightarrow> 'j policy \<Rightarrow> bool" where
  "flag_value Enabled_flag p = pm_enabled p"
| "flag_value Secure_flag p = pm_secure_session_enabled p"

fun set_flags ::
    "('j, 's) policy_callbacks \<Rightarrow> (policy_flag \<times> bool) list \<Rightarrow> 'j policy \<Rightarrow> 's
     \<Rightarrow> bool list \<times> 'j policy \<times> 's"
where
  "set_flags cbs [] p s = ([], p, s)"
| "set_flags cbs ((Enabled_flag, v) # ops) p s =
     (let (r, p, s) = set_property_enabled cbs v p s; (rs, p, s) = set_flags cbs ops p s
      in (r # rs, p, s))"
| "set_flags cbs ((Secure_flag, v) # ops) p s =
     (let (r, p, s) = set_property_secure_session_enabled cbs v p s; (rs, p, s) = set_flags cbs ops p s
      in (r # rs, p, s))"

text \<open>The values given to one flag, and what was logged for it.\<close>

definition values_for :: "policy_flag \<Rightarrow> (policy_flag \<times> 'a) list \<Rightarrow> 'a list" where
  "values_for f ops = map snd (filter (\<lambda>op. fst op = f) ops)"

lemma values_for_simps [simp]:
  "values_for f [] = []"
  "values_for f (op # ops) = (if fst op = f then snd op # values_for f ops else values_for f ops)"
  "values_for f (ops @ ops') = values_for f ops @ values_for f ops'"
  by (simp_all add: values_for_def)

definition logging_callbacks :: "('j, (policy_flag \<times> bool \<times> bool) list) policy_callbacks" where
  "logging_callbacks =
     \<lparr>enabledChangeCallback = Some (\<lambda>old new p log. log @ [(Enabled_flag, old, new)]),
      secureSessionEnabledChangeCallback = Some (\<lambda>old new p log. log @ [(Secure_flag, old, new)])\<rparr>"

lemma logged_call_back:
  "call_back (enabledChangeCallback logging_callbacks) old new p log = log @ [(Enabled_flag, old, new)]"
  "call_back (secureSessionEnabledChangeCallback logging_callbacks) old new p log = log @ [(Secure_flag, old, new)]"
  by (simp_all add: call_back_def logging_callbacks_def)

lemma set_flags_step:
  "set_flags logging_callbacks ((f, v) # ops) p log =
    (let u = flag_value f p;
         q = (case f of Enabled_flag \<Rightarrow> p\<lparr>pm_enabled := v\<rparr> | Secure_flag \<Rightarrow> p\<lparr>pm_secure_session_enabled := v\<rparr>);
         (rs, p', log') = set_flags logging_callbacks ops q (if v = u then log else log @ [(f, u, v)])
     in ((v = u) # rs, p', log'))"
proof (cases f)
  case Enabled_flag
  then show ?thesis
    by (cases "v = pm_enabled p") (simp_all add: enabled_property.set_same enabled_property.set_change logged_call_back Let_def)
next
  case Secure_flag
  then show ?thesis
    by (cases "v = pm_secure_session_enabled p")
      (simp_all add: secure_property.set_same secure_property.set_change logged_call_back Let_def)
qed

lemma set_flags_result:
  assumes "set_flags logging_callbacks ops p log = (rs, p', log')"
  shows "(\<forall>f. flag_value f p' = last (flag_value f p # values_for f ops)) \<and> config p' = config p \<and>
    length rs = length ops \<and>
    (\<exists>entries. log' = log @ entries \<and> length entries = length (filter Not rs) \<and>
       (\<forall>f. values_for f entries = changes (flag_value f p) (values_for f ops)))"
  using assms
proof (induction ops arbitrary: p log rs p' log')
  case Nil
  then show ?case
    by simp
next
  case (Cons op ops)
  obtain f v where op: "op = (f, v)"
    by fastforce
  let ?u = "flag_value f p"
  let ?q = "case f of Enabled_flag \<Rightarrow> p\<lparr>pm_enabled := v\<rparr> | Secure_flag \<Rightarrow> p\<lparr>pm_secure_session_enabled := v\<rparr>"
  let ?log = "if v = ?u then log else log @ [(f, ?u, v)]"
  have q: "flag_value g ?q = (if g = f then v else flag_value g p)" "config ?q = config p" for g
    by (cases f; cases g; simp)+
  obtain rs1 where run: "set_flags logging_callbacks ops ?q ?log = (rs1, p', log')" and rs: "rs = (v = ?u) # rs1"
    using Cons.prems unfolding op set_flags_step by (auto simp: Let_def split: prod.splits)
  from Cons.IH [OF run] obtain entries where
    last: "\<forall>g. flag_value g p' = last (flag_value g ?q # values_for g ops)" and "config p' = config p"
    "length rs1 = length ops" and log: "log' = ?log @ entries" "length entries = length (filter Not rs1)"
    "\<forall>g. values_for g entries = changes (flag_value g ?q) (values_for g ops)"
    using q(2) by auto
  moreover have "\<forall>g. flag_value g p' = last (flag_value g p # values_for g (op # ops))"
    using last q(1) by (auto simp: op)
  moreover have "\<exists>entries. log' = log @ entries \<and> length entries = length (filter Not rs) \<and>
      (\<forall>g. values_for g entries = changes (flag_value g p) (values_for g (op # ops)))"
    using log q(1) by (intro exI [of _ "(if v = ?u then [] else [(f, ?u, v)]) @ entries"]) (auto simp: op rs)
  ultimately show ?case
    by (simp add: rs)
qed

section \<open>Properties\<close>

text \<open>
  C36. Setting the two flags any number of times in any order leaves each at the last value given to
  it; the registered callbacks have run exactly once for each change of a flag, in order, with the old
  and the new value, and not for a value the flag already had. A setter returns false exactly for the
  changes, the opposite of what a property server takes it for; and no change reaches the cache: the
  file that \<open>dump\<close> writes is the one it would have written before.
\<close>

theorem enabled_changes_notified:
  assumes "set_flags logging_callbacks ops p log = (rs, p', log')"
  shows "pm_enabled p' = last (pm_enabled p # values_for Enabled_flag ops) \<and>
    pm_secure_session_enabled p' = last (pm_secure_session_enabled p # values_for Secure_flag ops) \<and>
    (\<exists>entries. log' = log @ entries \<and>
       values_for Enabled_flag entries = changes (pm_enabled p) (values_for Enabled_flag ops) \<and>
       values_for Secure_flag entries = changes (pm_secure_session_enabled p) (values_for Secure_flag ops) \<and>
       length rs = length ops \<and> length entries = length (filter Not rs)) \<and>
    dump J directories_ok open_ok p' file = dump J directories_ok open_ok p file"
  using set_flags_result [OF assms] by (fastforce simp: dump_def dest: spec [of _ Enabled_flag] spec [of _ Secure_flag])

lemma enabled_changes_notified_witness:
  "\<exists>p' log'. set_flags logging_callbacks [(Enabled_flag, True), (Secure_flag, True), (Enabled_flag, True)]
       \<lparr>pm_enabled = False, pm_secure_session_enabled = True, config = (0 :: nat)\<rparr> [] =
       ([False, True, True], p', log') \<and>
     pm_enabled p' \<and> values_for Enabled_flag log' = [(False, True)] \<and> values_for Secure_flag log' = []"
proof -
  let ?ops = "[(Enabled_flag, True), (Secure_flag, True), (Enabled_flag, True)]"
  let ?p = "\<lparr>pm_enabled = False, pm_secure_session_enabled = True, config = (0 :: nat)\<rparr>"
  obtain p' log' where run: "set_flags logging_callbacks ?ops ?p [] = ([False, True, True], p', log')"
    by (simp add: set_property_enabled_def set_property_secure_session_enabled_def logging_callbacks_def Let_def)
  from run enabled_changes_notified [OF run] show ?thesis
    by auto
qed

text \<open>The value a setter returns is the opposite of whether there is a change to announce.\<close>

lemma setters_return_unchanged:
  "fst (set_property_enabled cbs v p s) = (v = pm_enabled p) \<and>
   fst (set_property_secure_session_enabled cbs v p s) = (v = pm_secure_session_enabled p)"
  by (simp add: enabled_property.set_result secure_property.set_result)

lemma set_config [simp]:
  "config (fst (snd (set_property_enabled cbs v p s))) = config p"
  "config (fst (snd (set_property_secure_session_enabled cbs v p s))) = config p"
  by (simp_all add: set_property_enabled_def set_property_secure_session_enabled_def Let_def)

lemma set_sequence_config:
  "config (fst (set_sequence (set_property_enabled cbs) vs p s)) = config p"
  "config (fst (set_sequence (set_property_secure_session_enabled cbs) vs p s)) = config p"
  by (induction vs arbitrary: p s) (simp_all add: split_beta)

lemma load_items_secure:
  "pm_secure_session_enabled (fst (snd (load_items J cbs items p s))) = pm_secure_session_enabled p"
  by (induction J cbs items p s rule: load_items.induct)
    (simp_all add: split_beta set_property_enabled_def Let_def split: option.split)

text \<open>
  Whatever callbacks are registered, no change reaches the cache; and loading never touches the
  secure-session flag, whatever the file holds.
\<close>

lemma policy_not_persisted:
  "dump J d o1 (fst (set_sequence (set_property_enabled cbs) vs
     (fst (set_sequence (set_property_secure_session_enabled cbs) us p s)) s')) file =
     dump J d o1 p file \<and>
   pm_secure_session_enabled (fst (snd (load J cbs cache p s))) = pm_secure_session_enabled p"
  by (auto simp: dump_def set_sequence_config load_def read_cache_def load_items_secure
      split: option.split)

end
