(* ===== verification/Daemon.thy ===== *)
theory Daemon
  imports Discovery Policy_Manager "HOL-Library.Sublist"
begin

text \<open>
  \<^verbatim>\<open>requester/spdmd.cpp\<close>: the daemon. \<open>main\<close> loads the policy, starts the discovery and registers the
  callbacks; from then on everything happens in callbacks. The state \<open>daemon\<close> is what the callbacks
  share (the store of transports, the machine, the responders, the discovered devices), the policy
  and whether the discovery is still to answer; \<open>step\<close> has one rule for each thing that may happen,
  and \<open>reachable\<close> are the states of a run.
\<close>

section \<open>The state\<close>

text \<open>
  What stays the same during a run: the libraries and the session configuration of \<open>main\<close>.
  \<open>env_add_object\<close> is whether the D-Bus library registers an object at a path, given the paths of the
  responders that are registered already; \<open>env_memory\<close> is the allocator.
\<close>

record 'w env =
  env_lib :: "'w libspdm"
  env_os :: "'w os"
  env_consts :: spdm_consts
  env_filename :: "string \<Rightarrow> string"
  env_attach :: ComponentAttachType
  env_now :: "'w \<Rightarrow> u64"
  env_asyncCtx :: bool
  env_add_object :: "string list \<Rightarrow> string \<Rightarrow> bool"
  env_memory :: memory

definition sessionCfg :: "'w env \<Rightarrow> SecureSessionConfig" where
  "sessionCfg E =
     (default_SecureSessionConfig (env_consts E))\<lparr>peerRootCertBaseDir := ''/usr/share/spdm-emu''\<rparr>"

record 'w shared =
  d_store :: store
  d_machine :: "'w machine"
  responders :: "responder list"
  discoveredDevices :: "responder_info list"

record ('w, 'j) daemon =
  d_policy :: "'j policy"
  d_shared :: "'w shared"
  d_awaiting :: bool

definition put_world :: "'w \<Rightarrow> 'w machine \<Rightarrow> 'w machine" where
  "put_world w m = m\<lparr>world := w\<rparr>"

text \<open>
  The paths of the responders on the bus. The objects of the certificates have paths under another
  prefix, named after the responder, and are left out.
\<close>

definition bus_objects :: "responder list \<Rightarrow> string list" where
  "bus_objects rs = concat (map responder_paths rs)"

section \<open>tearDownResponders\<close>

fun close_active ::
    "'w libspdm \<Rightarrow> store \<Rightarrow> responder list \<Rightarrow> 'w \<Rightarrow> responder list \<times> 'w" where
  "close_active L st [] w = ([], w)"
| "close_active L st (r # rs) w =
     (let (r, w) =
        (if secureSessionActive r
         then (let (e, r, w) = closeSecureSession L st r w in (r, w))
         else (r, w));
          (rs, w) = close_active L st rs w
      in (r # rs, w))"

text \<open>\<^verbatim>\<open>responders.clear()\<close>: the destructors, in order.\<close>

definition clear_responders :: "'w libspdm \<Rightarrow> store \<Rightarrow> responder list \<Rightarrow> 'w \<Rightarrow> 'w" where
  "clear_responders L st rs w = fold (responder_destroy L st) rs w"

definition tearDownResponders :: "'w env \<Rightarrow> 'w shared \<Rightarrow> 'w shared" where
  "tearDownResponders E s =
     (let (rs, w) = close_active (env_lib E) (d_store s) (responders s) (world (d_machine s));
          w = clear_responders (env_lib E) (d_store s) rs w
      in s\<lparr>responders := [], d_machine := put_world w (d_machine s)\<rparr>)"

section \<open>processDiscoveredDevices\<close>

text \<open>
  Opening a session and the heartbeat that follows it, as \<open>processDiscoveredDevices\<close> and the
  callback for the secure-session flag both do; the results are only logged.
\<close>

definition open_and_heartbeat :: "'w env \<Rightarrow> store \<Rightarrow> responder \<Rightarrow> 'w \<Rightarrow> responder \<times> 'w" where
  "open_and_heartbeat E st r w =
     (let (e, r, w) = openSecureSession (env_lib E) (env_os E) (env_consts E) st (sessionCfg E) 0 r w in
      if IS_ERROR e then (r, w)
      else (let (e, w) = sendHeartbeat (env_lib E) st r w in (r, w)))"

text \<open>The first half of the loop body: whether the device's transport is ready, if it has one.\<close>

definition prepare_transport ::
    "'w env \<Rightarrow> responder_info \<Rightarrow> store \<Rightarrow> 'w machine \<Rightarrow> bool \<times> store \<times> 'w machine" where
  "prepare_transport E device st m =
     (case ri_transport device of
        None \<Rightarrow> (True, st, m)
      | Some i \<Rightarrow>
          (let (ok, t, m) = any_initialize (env_lib E) (env_os E) (env_consts E) (st ! i) m;
               st = st[i := t] in
           if \<not> ok then (False, st, m)
           else
             (let (e, t, w) =
                any_applySecureSessionConfig (env_lib E) (env_consts E) t (sessionCfg E) (world m);
                  st = st[i := t];
                  m = put_world w m in
              if IS_ERROR e then (False, st, m) else (True, st, m))))"

definition process_device ::
    "'w env \<Rightarrow> bool \<Rightarrow> responder_info \<Rightarrow> 'w shared \<Rightarrow> 'w shared" where
  "process_device E secureSessionEnabled device s =
     (let (ready, st, m) = prepare_transport E device (d_store s) (d_machine s);
          s = s\<lparr>d_store := st, d_machine := m\<rparr> in
      if \<not> ready then s
      else
        (case responder_new (env_lib E) (env_filename E) (env_add_object E) (bus_objects (responders s))
                (env_now E (world m)) (env_attach E) st device (world m) of
           (Inl e, w) \<Rightarrow> s\<lparr>d_machine := put_world w m\<rparr>
         | (Inr r, w) \<Rightarrow>
             (let (r, w) =
                (if ri_transport device \<noteq> None \<and> secureSessionEnabled
                 then open_and_heartbeat E st r w else (r, w))
              in s\<lparr>responders := responders s @ [r], d_machine := put_world w m\<rparr>)))"

definition processDiscoveredDevices ::
    "'w env \<Rightarrow> responder_info list \<Rightarrow> bool \<Rightarrow> 'w shared \<Rightarrow> 'w shared" where
  "processDiscoveredDevices E devices secureSessionEnabled s =
     (let s = tearDownResponders E s in
      if devices = [] then s
      else fold (process_device E secureSessionEnabled) devices s)"

section \<open>The callbacks\<close>

definition discovery_callback ::
    "'w env \<Rightarrow> 'j policy \<Rightarrow> responder_info list \<Rightarrow> 'w shared \<Rightarrow> 'w shared" where
  "discovery_callback E policy devices s =
     (let s = s\<lparr>discoveredDevices := devices\<rparr> in
      if pm_enabled policy
      then processDiscoveredDevices E (discoveredDevices s) (pm_secure_session_enabled policy) s
      else s)"

definition enabled_callback :: "'w env \<Rightarrow> ('j, 'w shared) change_callback" where
  "enabled_callback E oldValue newValue policy s =
     (if \<not> oldValue \<and> newValue
      then processDiscoveredDevices E (discoveredDevices s) (pm_secure_session_enabled policy) s
      else if oldValue \<and> \<not> newValue then tearDownResponders E s
      else s)"

fun open_inactive ::
    "'w env \<Rightarrow> store \<Rightarrow> responder list \<Rightarrow> 'w \<Rightarrow> responder list \<times> 'w" where
  "open_inactive E st [] w = ([], w)"
| "open_inactive E st (r # rs) w =
     (let (r, w) = (if \<not> secureSessionActive r then open_and_heartbeat E st r w else (r, w));
          (rs, w) = open_inactive E st rs w
      in (r # rs, w))"

definition secure_callback :: "'w env \<Rightarrow> ('j, 'w shared) change_callback" where
  "secure_callback E oldValue newValue policy s =
     (if oldValue = newValue then s
      else if \<not> pm_enabled policy then s
      else
        (let (rs, w) =
           (if \<not> oldValue \<and> newValue
            then open_inactive E (d_store s) (responders s) (world (d_machine s))
            else close_active (env_lib E) (d_store s) (responders s) (world (d_machine s)))
         in s\<lparr>responders := rs, d_machine := put_world w (d_machine s)\<rparr>))"

definition daemon_callbacks :: "'w env \<Rightarrow> ('j, 'w shared) policy_callbacks" where
  "daemon_callbacks E =
     registerSecureSessionEnabledChangeCallback (Some (secure_callback E))
       (registerEnabledChangeCallback (Some (enabled_callback E)) no_callbacks)"

section \<open>main\<close>

text \<open>
  Up to the event loop. \<open>p0\<close> is the policy object as constructed, \<open>file\<close> what is at the cache path;
  the callbacks are registered only after the load. A load that fails ends \<open>main\<close> with
  \<open>EXIT_FAILURE\<close> (\<open>Load_failed\<close>), one that throws with an exception that nothing catches
  (\<open>Load_threw\<close>).
\<close>

datatype ('w, 'j) start_result = Started "('w, 'j) daemon" | Load_failed | Load_threw

definition main_start ::
    "'j json_api \<Rightarrow> bytes option option \<Rightarrow> 'j policy \<Rightarrow> 'w machine \<Rightarrow> ('w, 'j) start_result" where
  "main_start J file p0 m =
     (let s = \<lparr>d_store = [], d_machine = m, responders = [], discoveredDevices = []\<rparr> in
      case load J no_callbacks file p0 s of
        (Expected _, p, s) \<Rightarrow> Started \<lparr>d_policy = p, d_shared = s, d_awaiting = True\<rparr>
      | (Unexpected, p, s) \<Rightarrow> Load_failed
      | (Thrown, p, s) \<Rightarrow> Load_threw)"

text \<open>
  The answers of the bus, for the transport the daemon is built for
  (\<^verbatim>\<open>SPDM_USE_MCTP_TRANSPORT\<close>).
\<close>

datatype bus_replies =
    Mctp_replies "capture_order \<times> ManagedObjects option" "capture_order \<times> ManagedObjects option"
  | Tcp_reply "capture_order \<times> ManagedObjects option"

fun daemon_discover :: "'w env \<Rightarrow> bus_replies \<Rightarrow> store \<Rightarrow> (responder_info list \<times> store) option" where
  "daemon_discover E (Mctp_replies q em) st =
     mctp_discoverDevices (env_consts E) (env_asyncCtx E) (q, em) st"
| "daemon_discover E (Tcp_reply q) st =
     tcp_discoverDevices (env_consts E) (env_asyncCtx E) q st"

text \<open>After the event loop: the responders, then the devices with their transports.\<close>

definition main_cleanup :: "'w env \<Rightarrow> 'w shared \<Rightarrow> 'w shared" where
  "main_cleanup E s =
     (let w = clear_responders (env_lib E) (d_store s) (responders s) (world (d_machine s));
          m = fold (any_destroy (env_lib E)) (d_store s) (put_world w (d_machine s))
      in s\<lparr>responders := [], discoveredDevices := [], d_store := [], d_machine := m\<rparr>)"

text \<open>A call of the D-Bus method on one responder.\<close>

definition measure_responder ::
    "'w env \<Rightarrow> ('c, 'n, 't, 'b) openssl \<Rightarrow> nat \<Rightarrow> u64 list \<Rightarrow> string \<Rightarrow> u64 \<Rightarrow> 'w shared
     \<Rightarrow> (exn + measurements_reply) \<times> 'w shared"
where
  "measure_responder E S k idxs nonce slotId s =
     (let r = responders s ! k;
          (reply, ci, w) =
            method_call (env_lib E) (env_consts E) S (env_filename E) (env_memory E)
              (env_add_object E (bus_objects (responders s))) (deref (d_store s) (r_transport r))
              idxs nonce slotId (componentIntegrity r) (world (d_machine s))
      in (reply, s\<lparr>responders := (responders s)[k := r\<lparr>componentIntegrity := ci\<rparr>],
                   d_machine := put_world w (d_machine s)\<rparr>))"

inductive step :: "'w env \<Rightarrow> ('w, 'j) daemon \<Rightarrow> ('w, 'j) daemon \<Rightarrow> bool" for E where
  step_discovered:
    "d_awaiting d \<Longrightarrow> daemon_discover E replies (d_store (d_shared d)) = Some (devices, st) \<Longrightarrow>
     step E d (d\<lparr>d_awaiting := False,
                 d_shared := discovery_callback E (d_policy d) devices ((d_shared d)\<lparr>d_store := st\<rparr>)\<rparr>)"
| step_not_called:
    "d_awaiting d \<Longrightarrow> daemon_discover E replies (d_store (d_shared d)) = None \<Longrightarrow>
     step E d (d\<lparr>d_awaiting := False\<rparr>)"
| step_set_enabled:
    "set_property_enabled (daemon_callbacks E) v (d_policy d) (d_shared d) = (r, p, s) \<Longrightarrow>
     step E d (d\<lparr>d_policy := p, d_shared := s\<rparr>)"
| step_set_secure:
    "set_property_secure_session_enabled (daemon_callbacks E) v (d_policy d) (d_shared d) = (r, p, s) \<Longrightarrow>
     step E d (d\<lparr>d_policy := p, d_shared := s\<rparr>)"
| step_measure:
    "k < length (responders (d_shared d)) \<Longrightarrow>
     measure_responder E (S :: (bytes, bytes, bytes, bytes) openssl) k idxs nonce slotId (d_shared d) = (Inr reply, s) \<Longrightarrow>
     step E d (d\<lparr>d_shared := s\<rparr>)"
| step_world:
    "step E d (d\<lparr>d_shared := (d_shared d)\<lparr>d_machine := put_world w (d_machine (d_shared d))\<rparr>\<rparr>)"

inductive_cases stepE: "step E d d'"

inductive reachable :: "'w env \<Rightarrow> 'j json_api \<Rightarrow> ('w, 'j) daemon \<Rightarrow> bool" for E J where
  reachable_start:
    "heap_ok (mheap m) \<Longrightarrow> main_start J file p0 m = Started d \<Longrightarrow> reachable E J d"
| reachable_step: "reachable E J d \<Longrightarrow> step E d d' \<Longrightarrow> reachable E J d'"

section \<open>What the operations preserve\<close>

text \<open>A responder without its session: what opening and closing never touch.\<close>

definition sans_session :: "responder \<Rightarrow> responder" where
  "sans_session r = r\<lparr>r_session := None\<rparr>"

lemma sans_session_cong:
  assumes "sans_session r = sans_session r'"
  shows "r_transport r = r_transport r'" "inventoryPath r = inventoryPath r'"
    "componentIntegrity r = componentIntegrity r'" "deviceName r = deviceName r'"
    "responder_paths r = responder_paths r'"
  using arg_cong [OF assms, of r_transport] arg_cong [OF assms, of inventoryPath]
    arg_cong [OF assms, of componentIntegrity] arg_cong [OF assms, of deviceName]
    arg_cong [OF assms, of trustedComponent]
  by (simp_all add: sans_session_def responder_paths_def)

lemma open_sans_session:
  "sans_session (fst (snd (openSecureSession L OS C st cfg slotId r w))) = sans_session r"
  by (simp add: openSecureSession_def sans_session_def Let_def split_beta split: option.split)

lemma close_sans_session:
  "sans_session (fst (snd (closeSecureSession L st r w))) = sans_session r"
  by (simp add: closeSecureSession_def sans_session_def Let_def split_beta split: option.split)

lemma open_and_heartbeat_sans_session:
  "sans_session (fst (open_and_heartbeat E st r w)) = sans_session r"
  by (simp add: open_and_heartbeat_def Let_def split_beta open_sans_session)

lemma close_active_result:
  "map sans_session (fst (close_active L st rs w)) = map sans_session rs \<and>
   list_all (\<lambda>r. \<not> secureSessionActive r) (fst (close_active L st rs w))"
proof (induction rs arbitrary: w)
  case (Cons r rs)
  have "\<not> secureSessionActive (fst (snd (closeSecureSession L st r w)))"
    by (metis close_ends_inactive prod.collapse)
  with Cons show ?case
    by (simp add: split_beta Let_def close_sans_session)
qed simp

lemma open_inactive_sans_session:
  "map sans_session (fst (open_inactive E st rs w)) = map sans_session rs"
  by (induction rs arbitrary: w) (simp_all add: split_beta Let_def open_and_heartbeat_sans_session)

lemma map_sans_session_cong:
  assumes "map sans_session rs = map sans_session rs'"
  shows "map r_transport rs = map r_transport rs'" "map inventoryPath rs = map inventoryPath rs'"
  using assms
  by (induction rs rs' rule: list_induct2') (auto dest: sans_session_cong)

definition device_key :: "responder_info \<Rightarrow> string \<times> tref option" where
  "device_key d = (objectPath d, ri_transport d)"

definition responder_key :: "responder \<Rightarrow> string \<times> tref option" where
  "responder_key r = (inventoryPath r, r_transport r)"

lemma map_responder_key_cong:
  assumes "map sans_session rs = map sans_session rs'"
  shows "map responder_key rs = map responder_key rs'"
  using map_sans_session_cong [OF assms] unfolding responder_key_def
  by (induction rs rs' rule: list_induct2') auto

lemma tearDownResponders_result [simp]:
  "responders (tearDownResponders E s) = []"
  "d_store (tearDownResponders E s) = d_store s"
  "discoveredDevices (tearDownResponders E s) = discoveredDevices s"
  "mheap (d_machine (tearDownResponders E s)) = mheap (d_machine s)"
  by (simp_all add: tearDownResponders_def put_world_def Let_def split_beta)

section \<open>One device\<close>

lemma put_world_heap [simp]: "mheap (put_world w m) = mheap m"
  by (simp add: put_world_def)

lemma prepare_transport_result:
  assumes prep: "prepare_transport E device st m = (ready, st', m')"
    and i: "ri_transport device = Some i" "i < length st" and heap: "heap_ok (mheap m)"
  shows "length st' = length st \<and> (\<forall>j. j \<noteq> i \<longrightarrow> st' ! j = st ! j) \<and> heap_ok (mheap m') \<and>
    (ready \<longrightarrow> any_context (st' ! i) \<noteq> None)"
proof -
  obtain ok t m1 where init:
    "any_initialize (env_lib E) (env_os E) (env_consts E) (st ! i) m = (ok, t, m1)"
    by (metis prod_cases3)
  have heap1: "heap_ok (mheap m1)"
    using any_life.init_heap_ok [OF heap init] by simp
  have ctx: "any_context t \<noteq> None" if ok
    using that init by (auto dest: any_life.init_context)
  show ?thesis
  proof (cases ok)
    case False
    with prep i init heap1 show ?thesis
      by (auto simp: prepare_transport_def)
  next
    case True
    let ?a = "any_applySecureSessionConfig (env_lib E) (env_consts E) t (sessionCfg E) (world m1)"
    have "any_context (fst (snd ?a)) \<noteq> None"
      using ctx [OF True] by simp
    with prep i init heap1 True show ?thesis
      by (auto simp: prepare_transport_def split_beta Let_def split: if_splits)
  qed
qed

lemma responder_key_sans_session:
  "sans_session r = sans_session r' \<Longrightarrow> responder_key r = responder_key r'"
  by (simp add: responder_key_def sans_session_cong [of r r'])

text \<open>Processing a device adds at most its responder and touches no transport but its own.\<close>

lemma process_device_result:
  assumes i: "ri_transport device = Some i" "i < length (d_store s)"
    and heap: "heap_ok (mheap (d_machine s))"
    and s'_def: "s' = process_device E sec device s"
  shows "length (d_store s') = length (d_store s) \<and>
    (\<forall>j. j \<noteq> i \<longrightarrow> d_store s' ! j = d_store s ! j) \<and>
    heap_ok (mheap (d_machine s')) \<and> discoveredDevices s' = discoveredDevices s \<and>
    (responders s' = responders s \<or>
     (\<exists>r. responders s' = responders s @ [r] \<and> responder_key r = device_key device \<and>
          any_context (d_store s' ! i) \<noteq> None \<and> (\<not> sec \<longrightarrow> \<not> secureSessionActive r)))"
proof -
  obtain ready st m where prep: "prepare_transport E device (d_store s) (d_machine s) = (ready, st, m)"
    by (metis prod_cases3)
  note p = prepare_transport_result [OF prep i heap]
  obtain e w where new: "responder_new (env_lib E) (env_filename E) (env_add_object E)
      (bus_objects (responders s)) (env_now E (world m)) (env_attach E) st device (world m) = (e, w)"
    by fastforce
  consider "\<not> ready" | "ready" "isl e" | r where "ready" "e = Inr r"
    by (cases e) auto
  then show ?thesis
  proof cases
    case 1
    with prep p show ?thesis
      by (simp add: s'_def process_device_def Let_def)
  next
    case 2
    with prep p new show ?thesis
      by (cases e) (simp_all add: s'_def process_device_def Let_def)
  next
    case 3
    note r = responder_new_result [OF new [unfolded 3(2)]]
    let ?o = "if ri_transport device \<noteq> None \<and> sec then open_and_heartbeat E st r w else (r, w)"
    have "responder_key (fst ?o) = device_key device"
      using r responder_key_sans_session [OF open_and_heartbeat_sans_session, of E st r w]
      by (simp add: responder_key_def device_key_def)
    moreover have "\<not> sec \<longrightarrow> \<not> secureSessionActive (fst ?o)"
      using r by (simp add: secureSessionActive_def)
    moreover have "d_store s' = st" "heap_ok (mheap (d_machine s'))"
      "discoveredDevices s' = discoveredDevices s" "responders s' = responders s @ [fst ?o]"
      using prep new 3 p unfolding s'_def process_device_def by (simp_all add: split_beta Let_def)
    ultimately show ?thesis
      using p 3 by auto
  qed
qed

text \<open>
  A device without a transport is only warned about, but its responder is not made: the constructor
  throws, and the loop goes on with the next device.
\<close>

lemma process_device_without_transport:
  fixes E :: "'w env"
  assumes "ri_transport device = None"
  shows "responders (process_device E sec device s) = responders s \<and>
    d_store (process_device E sec device s) = d_store s \<and>
    mheap (d_machine (process_device E sec device s)) = mheap (d_machine s)"
proof -
  have "responder_new L filename add objects now attach st device w \<noteq> (Inr r, w')"
    for L :: "'w libspdm" and filename add objects now attach st w r w'
    using responder_new_result [of L filename add objects now attach st device w r w'] assms
    by (auto simp: deref_def)
  then show ?thesis
    using assms by (auto simp: process_device_def prepare_transport_def Let_def
        split: prod.splits sum.splits)
qed

section \<open>All devices\<close>

definition refs :: "responder_info list \<Rightarrow> tref option list" where
  "refs devices = map ri_transport devices"

text \<open>Each device has a transport of the store, and no two have the same one.\<close>

definition devices_ok :: "store \<Rightarrow> responder_info list \<Rightarrow> bool" where
  "devices_ok st devices \<longleftrightarrow>
     distinct (refs devices) \<and> (\<forall>d \<in> set devices. \<exists>i < length st. ri_transport d = Some i)"

text \<open>Each responder works over an initialized transport of the store.\<close>

definition responder_ok :: "store \<Rightarrow> responder \<Rightarrow> bool" where
  "responder_ok st r \<longleftrightarrow>
     (\<exists>i. r_transport r = Some i \<and> i < length st \<and> any_context (st ! i) \<noteq> None)"

lemma responder_ok_other:
  "responder_ok st r \<Longrightarrow> length st' = length st \<Longrightarrow> (\<And>j. Some j = r_transport r \<Longrightarrow> st' ! j = st ! j) \<Longrightarrow>
   responder_ok st' r"
  by (auto simp: responder_ok_def)

lemma process_devices_result:
  assumes "devices_ok (d_store s) devices" and "heap_ok (mheap (d_machine s))"
    and s': "s' = fold (process_device E sec) devices s"
  shows "length (d_store s') = length (d_store s) \<and>
    (\<forall>j. Some j \<notin> set (refs devices) \<longrightarrow> d_store s' ! j = d_store s ! j) \<and>
    heap_ok (mheap (d_machine s')) \<and> discoveredDevices s' = discoveredDevices s \<and>
    (\<exists>new. responders s' = responders s @ new \<and>
       subseq (map responder_key new) (map device_key devices) \<and>
       list_all (responder_ok (d_store s')) new \<and>
       (\<not> sec \<longrightarrow> list_all (\<lambda>r. \<not> secureSessionActive r) new))"
  using assms
proof (induction devices arbitrary: s)
  case Nil
  then show ?case
    by simp
next
  case (Cons d ds)
  from Cons.prems(1) obtain i where i: "ri_transport d = Some i" "i < length (d_store s)"
    and d_new: "ri_transport d \<notin> set (refs ds)"
    by (auto simp: devices_ok_def refs_def)
  let ?s1 = "process_device E sec d s"
  note one = process_device_result [OF i Cons.prems(2) refl, of E sec]
  then have ok1: "devices_ok (d_store ?s1) ds" "heap_ok (mheap (d_machine ?s1))"
    using Cons.prems(1) by (auto simp: devices_ok_def refs_def)
  from Cons.prems(3) have s': "s' = fold (process_device E sec) ds ?s1"
    by simp
  from Cons.IH [OF ok1 s'] obtain new where
    len: "length (d_store s') = length (d_store ?s1)"
    and same: "\<forall>j. Some j \<notin> set (refs ds) \<longrightarrow> d_store s' ! j = d_store ?s1 ! j"
    and rest: "heap_ok (mheap (d_machine s'))" "discoveredDevices s' = discoveredDevices ?s1"
    and new: "responders s' = responders ?s1 @ new"
      "subseq (map responder_key new) (map device_key ds)"
      "list_all (responder_ok (d_store s')) new"
      "\<not> sec \<longrightarrow> list_all (\<lambda>r. \<not> secureSessionActive r) new"
    by blast
  have unchanged: "d_store s' ! i = d_store ?s1 ! i"
    using same d_new i by simp
  have outside: "\<forall>j. Some j \<notin> set (refs (d # ds)) \<longrightarrow> d_store s' ! j = d_store s ! j"
    using same one i by (auto simp: refs_def)
  from one consider "responders ?s1 = responders s"
    | r where "responders ?s1 = responders s @ [r]" "responder_key r = device_key d"
      "any_context (d_store ?s1 ! i) \<noteq> None" "\<not> sec \<longrightarrow> \<not> secureSessionActive r"
    by blast
  then have "\<exists>new. responders s' = responders s @ new \<and>
       subseq (map responder_key new) (map device_key (d # ds)) \<and>
       list_all (responder_ok (d_store s')) new \<and>
       (\<not> sec \<longrightarrow> list_all (\<lambda>r. \<not> secureSessionActive r) new)"
  proof cases
    case 1
    with new show ?thesis
      by (intro exI [of _ new]) auto
  next
    case 2
    have "responder_ok (d_store s') r"
      using 2 i unchanged len one by (auto simp: responder_ok_def responder_key_def device_key_def)
    with 2 new show ?thesis
      by (intro exI [of _ "r # new"]) auto
  qed
  with len one rest outside show ?case
    by simp
qed

lemma processDiscoveredDevices_result:
  assumes "devices_ok (d_store s) devices" and "heap_ok (mheap (d_machine s))"
    and s': "s' = processDiscoveredDevices E devices sec s"
  shows "length (d_store s') = length (d_store s) \<and>
    heap_ok (mheap (d_machine s')) \<and> discoveredDevices s' = discoveredDevices s \<and>
    subseq (map responder_key (responders s')) (map device_key devices) \<and>
    list_all (responder_ok (d_store s')) (responders s') \<and>
    (\<not> sec \<longrightarrow> list_all (\<lambda>r. \<not> secureSessionActive r) (responders s'))"
proof (cases "devices = []")
  case True
  with assms show ?thesis
    by (simp add: processDiscoveredDevices_def)
next
  case False
  with s' have "s' = fold (process_device E sec) devices (tearDownResponders E s)"
    by (simp add: processDiscoveredDevices_def)
  from process_devices_result [OF _ _ this] assms show ?thesis
    by auto
qed

section \<open>The invariant\<close>

text \<open>
  What holds between two steps: no responder while the daemon is disabled, no active session while
  secure sessions are disabled, responders only for discovered devices (in their order, at most one
  for each) and each over its own initialized transport, and a consistent heap.
\<close>

definition shared_ok :: "'w shared \<Rightarrow> bool" where
  "shared_ok s \<longleftrightarrow>
     devices_ok (d_store s) (discoveredDevices s) \<and> heap_ok (mheap (d_machine s)) \<and>
     subseq (map responder_key (responders s)) (map device_key (discoveredDevices s)) \<and>
     list_all (responder_ok (d_store s)) (responders s)"

definition daemon_ok :: "('w, 'j) daemon \<Rightarrow> bool" where
  "daemon_ok d \<longleftrightarrow>
     shared_ok (d_shared d) \<and>
     (\<not> pm_enabled (d_policy d) \<longrightarrow> responders (d_shared d) = []) \<and>
     (\<not> pm_secure_session_enabled (d_policy d) \<longrightarrow>
        list_all (\<lambda>r. \<not> secureSessionActive r) (responders (d_shared d))) \<and>
     (d_awaiting d \<longrightarrow> discoveredDevices (d_shared d) = [])"

lemma shared_ok_process:
  assumes "devices_ok (d_store s) (discoveredDevices s)" "heap_ok (mheap (d_machine s))"
    and "s' = processDiscoveredDevices E (discoveredDevices s) sec s"
  shows "shared_ok s' \<and> (\<not> sec \<longrightarrow> list_all (\<lambda>r. \<not> secureSessionActive r) (responders s'))"
  using processDiscoveredDevices_result [OF assms] assms(1)
  by (simp add: shared_ok_def devices_ok_def)

lemma shared_ok_tearDown: "shared_ok s \<Longrightarrow> shared_ok (tearDownResponders E s)"
  by (simp add: shared_ok_def)

lemma list_all_responder_ok:
  "list_all (responder_ok st) rs =
     list_all (\<lambda>t. \<exists>i. t = Some i \<and> i < length st \<and> any_context (st ! i) \<noteq> None) (map r_transport rs)"
  by (simp add: list_all_iff responder_ok_def)

lemma shared_ok_sessions:
  assumes "shared_ok s" and "map sans_session rs = map sans_session (responders s)"
  shows "shared_ok (s\<lparr>responders := rs, d_machine := put_world w (d_machine s)\<rparr>)"
proof -
  have "list_all (responder_ok (d_store s)) rs = list_all (responder_ok (d_store s)) (responders s)"
    unfolding list_all_responder_ok map_sans_session_cong(1) [OF assms(2)] ..
  then show ?thesis
    using assms(1) map_responder_key_cong [OF assms(2)] by (simp add: shared_ok_def)
qed

lemma main_start_result:
  assumes "main_start J file p0 m = Started d"
  shows "d_shared d = \<lparr>d_store = [], d_machine = m, responders = [], discoveredDevices = []\<rparr> \<and> d_awaiting d"
proof -
  have items: "snd (snd (load_items J no_callbacks items p s)) = s" for items p and s :: "'w shared"
    by (induction items arbitrary: p s)
      (auto simp: split_beta set_property_enabled_def no_callbacks_def Let_def split: option.split)
  have same: "snd (snd (load J no_callbacks file p s)) = s" for p and s :: "'w shared"
    by (auto simp: load_def read_cache_def items split: option.split)
  obtain r p s where load: "load J no_callbacks file p0
      \<lparr>d_store = [], d_machine = m, responders = [], discoveredDevices = []\<rparr> = (r, p, s)"
    by (metis prod_cases3)
  then have "s = \<lparr>d_store = [], d_machine = m, responders = [], discoveredDevices = []\<rparr>"
    using same [of p0] by (metis snd_conv)
  with assms load show ?thesis
    by (auto simp: main_start_def split: outcome.splits)
qed

lemma daemon_ok_start:
  assumes "heap_ok (mheap m)" and "main_start J file p0 m = Started d"
  shows "daemon_ok d"
  using main_start_result [OF assms(2)] assms(1)
  by (simp add: daemon_ok_def shared_ok_def devices_ok_def refs_def)

lemma daemon_discover_ok:
  assumes "daemon_discover E replies st = Some (devices, st')"
  shows "devices_ok st' devices"
proof -
  have "map ri_transport devices = map Some [length st..<length st']"
    using assms mctp_discovery.found tcp_discovery.found by (cases replies) fastforce+
  then have refs: "refs devices = map Some [length st..<length st']"
    by (simp add: refs_def)
  have "distinct (refs devices)"
    unfolding refs by (simp add: distinct_map)
  moreover have "\<exists>i < length st'. ri_transport d = Some i" if "d \<in> set devices" for d
  proof -
    have "ri_transport d \<in> set (refs devices)"
      using that by (simp add: refs_def)
    then show ?thesis
      unfolding refs by auto
  qed
  ultimately show ?thesis
    by (simp add: devices_ok_def)
qed

lemma discovery_callback_ok:
  assumes "devices_ok (d_store s) devices" "heap_ok (mheap (d_machine s))" "responders s = []"
    and s': "s' = discovery_callback E p devices s"
  shows "shared_ok s' \<and> (\<not> pm_enabled p \<longrightarrow> responders s' = []) \<and>
    (\<not> pm_secure_session_enabled p \<longrightarrow> list_all (\<lambda>r. \<not> secureSessionActive r) (responders s'))"
proof (cases "pm_enabled p")
  case True
  with s' have "s' = processDiscoveredDevices E (discoveredDevices (s\<lparr>discoveredDevices := devices\<rparr>))
      (pm_secure_session_enabled p) (s\<lparr>discoveredDevices := devices\<rparr>)"
    by (simp add: discovery_callback_def Let_def)
  from shared_ok_process [OF _ _ this] assms True show ?thesis
    by simp
next
  case False
  with assms show ?thesis
    by (simp add: discovery_callback_def shared_ok_def)
qed

lemma enabled_step_ok:
  assumes ok: "daemon_ok d"
    and set: "set_property_enabled (daemon_callbacks E) v (d_policy d) (d_shared d) = (r, p, s)"
  shows "daemon_ok (d\<lparr>d_policy := p, d_shared := s\<rparr>)"
proof (cases "v = pm_enabled (d_policy d)")
  case True
  with set enabled_property.set_same [OF True, of "daemon_callbacks E" "d_shared d"] ok show ?thesis
    by (auto simp: daemon_ok_def)
next
  case False
  let ?p = "(d_policy d)\<lparr>pm_enabled := v\<rparr>"
  have cb: "enabledChangeCallback (daemon_callbacks E) = Some (enabled_callback E)"
    by (simp add: daemon_callbacks_def registerEnabledChangeCallback_def
        registerSecureSessionEnabledChangeCallback_def)
  from set enabled_property.set_change [OF False, of "daemon_callbacks E" "d_shared d"]
  have p: "p = ?p" and s: "s = enabled_callback E (\<not> v) v ?p (d_shared d)"
    using False by (auto simp: call_back_def cb)
  show ?thesis
  proof (cases v)
    case True
    with s have s: "s = processDiscoveredDevices E (discoveredDevices (d_shared d))
        (pm_secure_session_enabled (d_policy d)) (d_shared d)"
      by (simp add: enabled_callback_def)
    have pre: "devices_ok (d_store (d_shared d)) (discoveredDevices (d_shared d))"
      "heap_ok (mheap (d_machine (d_shared d)))"
      using ok by (simp_all add: daemon_ok_def shared_ok_def)
    have "discoveredDevices s = discoveredDevices (d_shared d)"
      using processDiscoveredDevices_result [OF pre s] by simp
    with shared_ok_process [OF pre s] ok p True show ?thesis
      by (auto simp: daemon_ok_def)
  next
    case False
    with s have "s = tearDownResponders E (d_shared d)"
      by (simp add: enabled_callback_def)
    with ok p False show ?thesis
      by (simp add: daemon_ok_def shared_ok_tearDown)
  qed
qed

lemma secure_step_ok:
  assumes ok: "daemon_ok d"
    and set: "set_property_secure_session_enabled (daemon_callbacks E) v (d_policy d) (d_shared d) =
      (r, p, s)"
  shows "daemon_ok (d\<lparr>d_policy := p, d_shared := s\<rparr>)"
proof (cases "v = pm_secure_session_enabled (d_policy d)")
  case True
  with set secure_property.set_same [OF True, of "daemon_callbacks E" "d_shared d"] ok show ?thesis
    by (auto simp: daemon_ok_def)
next
  case False
  let ?p = "(d_policy d)\<lparr>pm_secure_session_enabled := v\<rparr>" and ?s = "d_shared d"
  have cb: "secureSessionEnabledChangeCallback (daemon_callbacks E) = Some (secure_callback E)"
    by (simp add: daemon_callbacks_def registerSecureSessionEnabledChangeCallback_def)
  from set secure_property.set_change [OF False, of "daemon_callbacks E" ?s]
  have p: "p = ?p" and s: "s = secure_callback E (\<not> v) v ?p ?s"
    using False by (auto simp: call_back_def cb)
  show ?thesis
  proof (cases "pm_enabled (d_policy d)")
    case False
    with s have "s = ?s"
      by (simp add: secure_callback_def)
    with ok p False show ?thesis
      by (simp add: daemon_ok_def)
  next
    case True
    have shared: "shared_ok ?s"
      using ok by (simp add: daemon_ok_def)
    let ?close = "close_active (env_lib E) (d_store ?s) (responders ?s) (world (d_machine ?s))"
    let ?open = "open_inactive E (d_store ?s) (responders ?s) (world (d_machine ?s))"
    from s True have "s = (let (rs, w) = (if v then ?open else ?close)
        in ?s\<lparr>responders := rs, d_machine := put_world w (d_machine ?s)\<rparr>)"
      by (simp add: secure_callback_def)
    moreover note close_active_result [of "env_lib E" "d_store ?s" "responders ?s" "world (d_machine ?s)"]
      open_inactive_sans_session [of E "d_store ?s" "responders ?s" "world (d_machine ?s)"]
    ultimately show ?thesis
      using ok p True shared_ok_sessions [OF shared]
      by (cases v) (auto simp: daemon_ok_def split_beta)
  qed
qed

lemma measure_step_ok:
  assumes ok: "daemon_ok d" and k: "k < length (responders (d_shared d))"
    and call: "measure_responder E S k idxs nonce slotId (d_shared d) = (reply, s)"
  shows "daemon_ok (d\<lparr>d_shared := s\<rparr>)"
proof -
  let ?rs = "responders (d_shared d)"
  from call obtain ci w where s: "s = (d_shared d)\<lparr>responders := ?rs[k := (?rs ! k)\<lparr>componentIntegrity := ci\<rparr>],
      d_machine := put_world w (d_machine (d_shared d))\<rparr>"
    by (auto simp: measure_responder_def Let_def split: prod.splits)
  let ?r = "(?rs ! k)\<lparr>componentIntegrity := ci\<rparr>"
  have "map responder_key (?rs[k := ?r]) = map responder_key ?rs"
    using k by (simp add: map_update responder_key_def list_update_same_conv)
  moreover have "list_all (responder_ok (d_store (d_shared d))) (?rs[k := ?r])"
    if "list_all (responder_ok (d_store (d_shared d))) ?rs"
    using that k by (auto simp: list_all_length nth_list_update responder_ok_def)
  moreover have "list_all (\<lambda>r. \<not> secureSessionActive r) (?rs[k := ?r])"
    if "list_all (\<lambda>r. \<not> secureSessionActive r) ?rs"
    using that k by (auto simp: list_all_length nth_list_update secureSessionActive_def)
  ultimately show ?thesis
    using ok k by (auto simp: s daemon_ok_def shared_ok_def)
qed

lemma step_ok:
  assumes "step E d d'" and ok: "daemon_ok d"
  shows "daemon_ok d'"
  using assms(1)
proof cases
  case (step_discovered replies devices st)
  from ok step_discovered(2) have r: "responders (d_shared d) = []" "heap_ok (mheap (d_machine (d_shared d)))"
    by (auto simp: daemon_ok_def shared_ok_def)
  from discovery_callback_ok [OF _ _ _ refl, of "(d_shared d)\<lparr>d_store := st\<rparr>" devices]
    daemon_discover_ok [OF step_discovered(3)] r
  show ?thesis
    by (simp add: step_discovered(1) daemon_ok_def)
next
  case step_not_called
  with ok show ?thesis
    by (simp add: daemon_ok_def)
next
  case step_set_enabled
  with enabled_step_ok [OF ok] show ?thesis
    by simp
next
  case step_set_secure
  with secure_step_ok [OF ok] show ?thesis
    by simp
next
  case step_measure
  with measure_step_ok [OF ok] show ?thesis
    by simp
next
  case step_world
  with ok show ?thesis
    by (simp add: daemon_ok_def shared_ok_def)
qed

lemma reachable_ok: "reachable E J d \<Longrightarrow> daemon_ok d"
  by (induction rule: reachable.induct) (auto intro: daemon_ok_start step_ok)


section \<open>Names on the bus\<close>

text \<open>
  A responder takes the two paths of its device's name, the last part of the configuration path. What
  the D-Bus library promises (\<^verbatim>\<open>sd_bus_add_object_vtable\<close>) is that a valid path is registered unless it
  is registered already.
\<close>

definition bus_name :: "'w env \<Rightarrow> responder_info \<Rightarrow> string" where
  "bus_name E d = env_filename E (deviceObjectPath d)"

definition bus_accepts :: "'w env \<Rightarrow> responder_info \<Rightarrow> bool" where
  "bus_accepts E d = list_all (env_add_object E []) (name_paths (bus_name E d))"

definition sd_bus :: "'w env \<Rightarrow> bool" where
  "sd_bus E \<longleftrightarrow>
     (\<forall>objects path. env_add_object E objects path \<longleftrightarrow>
        env_add_object E [] path \<and> path \<notin> set objects)"

definition responder_named :: "responder \<Rightarrow> bool" where
  "responder_named r \<longleftrightarrow> responder_paths r = name_paths (deviceName r)"

lemma responder_named_sans_session:
  "sans_session r = sans_session r' \<Longrightarrow> responder_named r = responder_named r'"
  by (simp add: responder_named_def sans_session_cong [of r r'])

lemma bus_objects_Cons: "bus_objects (r # rs) = responder_paths r @ bus_objects rs"
  by (simp add: bus_objects_def)

lemma bus_objects_meet:
  "list_all responder_named rs \<Longrightarrow>
   set (name_paths n) \<inter> set (bus_objects rs) \<noteq> {} \<longleftrightarrow> n \<in> set (map deviceName rs)"
proof (induction rs)
  case (Cons r rs)
  have "set (name_paths n) \<inter> set (name_paths (deviceName r)) \<noteq> {} \<longleftrightarrow> n = deviceName r"
    by (rule name_paths_inject)
  with Cons show ?case
    by (auto simp: bus_objects_Cons responder_named_def Int_Un_distrib)
qed (simp add: bus_objects_def)

lemma bus_objects_distinct:
  "list_all responder_named rs \<Longrightarrow> distinct (map deviceName rs) \<Longrightarrow> distinct (bus_objects rs)"
proof (induction rs)
  case (Cons r rs)
  then have "set (name_paths (deviceName r)) \<inter> set (bus_objects rs) = {}"
    using bus_objects_meet [of rs "deviceName r"] by simp
  with Cons show ?case
    using distinct_name_paths by (simp add: bus_objects_Cons responder_named_def)
qed (simp add: bus_objects_def)

text \<open>Both paths of a device are registered when the bus accepts them and no responder has its name.\<close>

definition registers :: "'w env \<Rightarrow> responder list \<Rightarrow> responder_info \<Rightarrow> bool" where
  "registers E rs d \<longleftrightarrow>
     env_add_object E (bus_objects rs) (hd (name_paths (bus_name E d))) \<and>
     env_add_object E (bus_objects rs @ [hd (name_paths (bus_name E d))]) (last (name_paths (bus_name E d)))"

lemma registers_iff:
  assumes bus: "sd_bus E" and named: "list_all responder_named rs"
  shows "registers E rs d \<longleftrightarrow> bus_accepts E d \<and> bus_name E d \<notin> set (map deviceName rs)"
proof -
  have add: "env_add_object E objects path \<longleftrightarrow> env_add_object E [] path \<and> path \<notin> set objects"
    for objects path
    using bus unfolding sd_bus_def by blast
  have "registers E rs d \<longleftrightarrow>
      bus_accepts E d \<and> set (name_paths (bus_name E d)) \<inter> set (bus_objects rs) = {}"
    unfolding registers_def add [of "bus_objects rs"] add [of "bus_objects rs @ objects" for objects]
    by (auto simp: bus_accepts_def name_paths_def)
  with bus_objects_meet [OF named, of "bus_name E d"] show ?thesis
    by blast
qed

lemma new_registers:
  assumes "responder_new (env_lib E) (env_filename E) (env_add_object E) (bus_objects rs) now attach st d w =
    (Inr r, w')"
  shows "registers E rs d \<and> deviceName r = bus_name E d \<and> responder_named r"
  unfolding registers_def bus_name_def responder_named_def using responder_new_name [OF assms] by auto

lemma new_not_registers:
  "\<not> registers E rs d \<Longrightarrow>
   responder_new (env_lib E) (env_filename E) (env_add_object E) (bus_objects rs) now attach st d w =
     (Inl SdBusError, w)"
  by (simp add: registers_def responder_new_def name_paths_def bus_name_def Let_def)

text \<open>A device whose paths the bus refuses gets no responder; one that gets one is registered.\<close>

lemma process_device_registers:
  "responders (process_device E sec d s) = responders s \<or>
   (\<exists>r. responders (process_device E sec d s) = responders s @ [r] \<and> registers E (responders s) d \<and>
        responder_key r = device_key d \<and> deviceName r = bus_name E d \<and> responder_named r)"
proof -
  obtain ready st m where prep: "prepare_transport E d (d_store s) (d_machine s) = (ready, st, m)"
    by (metis prod_cases3)
  obtain e w where new: "responder_new (env_lib E) (env_filename E) (env_add_object E)
      (bus_objects (responders s)) (env_now E (world m)) (env_attach E) st d (world m) = (e, w)"
    by fastforce
  consider "\<not> ready \<or> isl e" | r where "ready" "e = Inr r"
    by (cases e) auto
  then show ?thesis
  proof cases
    case 1
    with prep new show ?thesis
      by (cases e) (auto simp: process_device_def Let_def)
  next
    case 2
    note r = responder_new_result [OF new [unfolded 2(2)]] new_registers [OF new [unfolded 2(2)]]
    let ?o = "if ri_transport d \<noteq> None \<and> sec then open_and_heartbeat E st r w else (r, w)"
    have same: "sans_session (fst ?o) = sans_session r"
      by (simp add: open_and_heartbeat_sans_session)
    have "responders (process_device E sec d s) = responders s @ [fst ?o]"
      using prep new 2 by (simp add: process_device_def split_beta Let_def)
    moreover have "responder_key (fst ?o) = device_key d"
      using r responder_key_sans_session [OF same] by (simp add: responder_key_def device_key_def)
    moreover have "deviceName (fst ?o) = bus_name E d"
      using r sans_session_cong(4) [OF same] by simp
    moreover have "responder_named (fst ?o)"
      using r responder_named_sans_session [OF same] by simp
    ultimately show ?thesis
      using r by blast
  qed
qed

section \<open>Cooperative devices\<close>

text \<open>
  The system and the devices answer every call of libspdm and of the operating system that starting a
  responder makes (\<open>cooperative\<close>), and every call that opening a session makes (\<open>secure_device\<close>). What
  the bus does with the names of the devices is not among them: of the devices whose paths it accepts,
  the first of each name are \<open>published\<close>.
\<close>

fun first_named :: "('a \<Rightarrow> 'b) \<Rightarrow> 'a list \<Rightarrow> 'a list" where
  "first_named f [] = []"
| "first_named f (x # xs) = x # filter (\<lambda>y. f y \<noteq> f x) (first_named f xs)"

definition published :: "'w env \<Rightarrow> responder_info list \<Rightarrow> responder_info list" where
  "published E devices = first_named (bus_name E) (filter (bus_accepts E) devices)"

lemma first_named_distinct: "distinct (map f xs) \<Longrightarrow> first_named f xs = xs"
proof (induction xs)
  case (Cons x xs)
  then have "filter (\<lambda>y. f y \<noteq> f x) xs = xs"
    by (intro filter_True) (metis distinct.simps(2) image_eqI image_set list.simps(9))
  with Cons show ?case
    by simp
qed simp

lemma published_all:
  assumes "list_all (bus_accepts E) devices" and "distinct (map (bus_name E) devices)"
  shows "published E devices = devices"
proof -
  have "filter (bus_accepts E) devices = devices"
    using assms(1) by (simp add: list_all_iff)
  then show ?thesis
    using first_named_distinct [OF assms(2)] by (simp add: published_def)
qed

definition cooperative :: "'w env \<Rightarrow> bool" where
  "cooperative E \<longleftrightarrow>
     (\<forall>n w. fst (os_malloc (env_os E) n w)) \<and>
     (\<forall>w. 0 \<le> fst (fst (os_mctp_socket (env_os E) w)) \<and> 0 \<le> snd (fst (os_mctp_socket (env_os E) w))) \<and>
     (\<forall>ip p w. 0 \<le> socket_ret (fst (os_tcp_connect (env_os E) ip p w)) \<and>
               0 < pton_ret (fst (os_tcp_connect (env_os E) ip p w)) \<and>
               0 \<le> connect_ret (fst (os_tcp_connect (env_os E) ip p w))) \<and>
     (\<forall>c w. fst (lib_init_context (env_lib E) c w) = LIBSPDM_STATUS_SUCCESS) \<and>
     (\<forall>c k loc v w. \<not> IS_ERROR (fst (lib_set_data (env_lib E) c k loc v w))) \<and>
     (\<forall>c w. lib_check_context (env_lib E) c w) \<and>
     (\<forall>c b w. \<not> IS_ERROR (fst (lib_init_connection (env_lib E) c b w)))"

definition secure_device :: "'w env \<Rightarrow> bool" where
  "secure_device E \<longleftrightarrow>
     (\<forall>c w. loadPeerRootCert (env_lib E) (env_os E) (env_consts E) c (sessionCfg E) w \<noteq> None) \<and>
     (\<forall>c k loc v w. \<not> IS_ERROR (fst (lib_set_data (env_lib E) c k loc v w))) \<and>
     (\<forall>c w. \<not> IS_ERROR (fst (fst (lib_get_digest (env_lib E) c w))) \<and>
            slot_present (fst (snd (fst (lib_get_digest (env_lib E) c w)))) 0) \<and>
     (\<forall>c slot n w. \<not> IS_ERROR (fst (fst (lib_get_certificate (env_lib E) c slot n w)))) \<and>
     (\<forall>c psk h slot pol w. \<not> IS_ERROR (fst (fst (lib_start_session (env_lib E) c psk h slot pol w))))"

lemma cooperative_malloc:
  assumes "cooperative E"
  shows "machine_malloc (env_os E) n m =
    (Some (brk (mheap m)), m\<lparr>mheap := snd (malloc True (mheap m)), world := snd (os_malloc (env_os E) n (world m))\<rparr>)"
proof -
  have "fst (os_malloc (env_os E) n (world m))"
    using assms by (simp add: cooperative_def)
  then show ?thesis
    by (simp add: machine_malloc_def split_beta malloc_works)
qed

lemma cooperative_init:
  "cooperative E \<Longrightarrow> fst (lib_init_context (env_lib E) c w) = LIBSPDM_STATUS_SUCCESS"
  by (simp add: cooperative_def)

lemma register_ok: "fst (transport_registerFunctions L codec t m)"
  by (simp add: transport_registerFunctions_def Let_def split: option.split)

lemma configure_ok: "fst (transport_configureContext L C t m)"
  by (simp add: transport_configureContext_def Let_def split: option.split)

lemma cooperative_scratch:
  "cooperative E \<Longrightarrow> spdmContext t = Some c \<Longrightarrow> fst (transport_setupScratchBuffer L (env_os E) t m)"
  by (simp add: transport_setupScratchBuffer_def Let_def cooperative_malloc)

lemma cooperative_initialize:
  assumes "cooperative E"
  shows "fst (any_initialize (env_lib E) (env_os E) (env_consts E) t m)"
proof (cases t)
  case (AnyMctp t1)
  have "\<not> fst (fst (os_mctp_socket (env_os E) (world m))) < 0"
    "\<not> snd (fst (os_mctp_socket (env_os E) (world m))) < 0"
    using assms by (simp_all add: cooperative_def not_less)
  then have open_ok: "fst (mctp_openSocket (env_os E) t1 m)"
    by (simp add: mctp_openSocket_def mctp_createSocket_def Let_def split_beta)
  have alloc: "fst (mctp_allocateContext (env_lib E) (env_os E) t m) \<and>
      spdmContext (fst (snd (mctp_allocateContext (env_lib E) (env_os E) t m))) = Some (brk (mheap m))" for t m
    using assms by (simp add: mctp_allocateContext_def cooperative_malloc cooperative_init Let_def split_beta)
  show ?thesis
    using open_ok alloc
    by (auto simp: AnyMctp mctp_initialize_def Let_def split_beta mctp_registerFunctions_def
        register_ok mctp_setupScratchBuffer_def cooperative_scratch [OF assms]
        mctp_configureContext_def configure_ok)
next
  case (AnyTcp t1)
  let ?e = "fst (os_tcp_connect (env_os E) (tcpIpAddr (tcpIo t1)) (tcpPort (tcpIo t1)) (world m))"
  have "\<not> socket_ret ?e < 0" "\<not> pton_ret ?e \<le> 0" "\<not> connect_ret ?e < 0"
    using assms by (simp_all add: cooperative_def not_less not_le)
  then have open_ok: "fst (tcp_openSocket (env_os E) t1 m)"
    by (simp add: tcp_openSocket_def tcp_createSocket_def Let_def split_beta)
  have alloc: "fst (tcp_allocateContext (env_lib E) (env_os E) t m) \<and>
      spdmContext (fst (snd (tcp_allocateContext (env_lib E) (env_os E) t m))) = Some (brk (mheap m))" for t m
    using assms by (simp add: tcp_allocateContext_def cooperative_malloc cooperative_init Let_def split_beta)
  show ?thesis
    using open_ok alloc
    by (auto simp: AnyTcp tcp_initialize_def Let_def split_beta tcp_registerFunctions_def
        register_ok tcp_setupScratchBuffer_def cooperative_scratch [OF assms]
        tcp_configureContext_def configure_ok)
qed

lemma set_all_accepts:
  "(\<And>c k loc v w. \<not> IS_ERROR (fst (lib_set_data L c k loc v w))) \<Longrightarrow> fst (set_all L c kvs w) = None"
proof (induction kvs arbitrary: w)
  case (Cons kv kvs)
  then show ?case
    by (cases kv) (simp add: split_beta Let_def)
qed simp

lemma cooperative_applySecureSessionConfig:
  assumes "cooperative E" and "spdmContext t = Some c"
  shows "\<not> IS_ERROR (fst (applySecureSessionConfig (env_lib E) (env_consts E) t cfg w))"
proof -
  obtain r w' where all: "set_all (env_lib E) c (session_settings (env_consts E) cfg) w = (r, w')"
    by fastforce
  have "fst (set_all (env_lib E) c (session_settings (env_consts E) cfg) w) = None"
    using assms(1) by (intro set_all_accepts) (simp add: cooperative_def)
  with all have "r = None"
    by simp
  with applySecureSessionConfig_result [OF assms(2) all] assms(1) show ?thesis
    by (simp add: cooperative_def)
qed

lemma cooperative_apply:
  "cooperative E \<Longrightarrow> any_context t = Some c \<Longrightarrow>
   \<not> IS_ERROR (fst (any_applySecureSessionConfig (env_lib E) (env_consts E) t cfg w))"
  by (cases t) (simp_all add: split_beta cooperative_applySecureSessionConfig)

lemma cooperative_responder_new:
  assumes "cooperative E" and "ri_transport d = Some i" "any_context (st ! i) = Some c"
    and "registers E rs d"
  shows "\<not> isl (fst (responder_new (env_lib E) (env_filename E) (env_add_object E) (bus_objects rs) now attach
    st d w))"
  using assms
  by (simp add: responder_new_def initializeSpdmConnection_def with_context_def deref_def registers_def
      name_paths_def bus_name_def cooperative_def Let_def split_beta)

lemma secure_open_active:
  assumes sec: "secure_device E" and r: "r_transport r = Some i" "any_context (st ! i) = Some c"
  shows "secureSessionActive (fst (open_and_heartbeat E st r w))"
proof -
  obtain e r' w' where open1:
    "openSecureSession (env_lib E) (env_os E) (env_consts E) st (sessionCfg E) 0 r w = (e, r', w')"
    by (metis prod_cases3)
  have ctx: "spdmContext (any_base (st ! i)) = Some c"
    using r by (cases "st ! i") (simp_all add: spdm_transport.defs)
  have cert: "fst (installPeerRootCert (env_lib E) (env_os E) (env_consts E) (any_base (st ! i))
      (sessionCfg E) w) = LIBSPDM_STATUS_SUCCESS" for w
  proof -
    obtain data source where "loadPeerRootCert (env_lib E) (env_os E) (env_consts E) c (sessionCfg E) w =
        Some (data, source)"
      using sec by (metis not_None_eq prod.collapse secure_device_def)
    then show ?thesis
      using ctx sec by (simp add: installPeerRootCert_def split_beta Let_def secure_device_def)
  qed
  have start: "fst (session_start (env_lib E) (Some c) 0 h 0 False s w) = LIBSPDM_STATUS_SUCCESS" for h s w
    using sec by (simp add: session_start_def fetchPeerCert_def secure_device_def Let_def split_beta)
  have "e = LIBSPDM_STATUS_SUCCESS"
    using open1 cert [of w] start r
    by (auto simp: openSecureSession_def Let_def split: option.splits prod.splits if_splits)
      (metis fst_conv)+
  with open1 have "secureSessionActive r'"
    by (auto intro: open_success_active)
  then show ?thesis
    by (simp add: open_and_heartbeat_def open1 Let_def split_beta)
qed

lemma cooperative_prepare:
  assumes "cooperative E" and i: "ri_transport d = Some i" "i < length st"
  shows "fst (prepare_transport E d st m)"
proof -
  obtain t m1 where init:
    "any_initialize (env_lib E) (env_os E) (env_consts E) (st ! i) m = (True, t, m1)"
    using cooperative_initialize [OF assms(1), of "st ! i" m] by (metis (full_types) prod.collapse)
  then obtain c where c: "any_context t = Some c"
    using any_life.init_context by blast
  from init i cooperative_apply [OF assms(1) c] show ?thesis
    by (simp add: prepare_transport_def Let_def split_beta)
qed

lemma cooperative_process_device:
  assumes coop: "cooperative E" and i: "ri_transport d = Some i" "i < length (d_store s)"
    and heap: "heap_ok (mheap (d_machine s))" and registers: "registers E (responders s) d"
  shows "\<exists>r. responders (process_device E sec d s) = responders s @ [r] \<and>
    responder_key r = device_key d \<and> (sec \<and> secure_device E \<longrightarrow> secureSessionActive r)"
proof -
  obtain st m where prep: "prepare_transport E d (d_store s) (d_machine s) = (True, st, m)"
    using cooperative_prepare [OF coop i, of "d_machine s"] by (metis (full_types) prod.collapse)
  from prepare_transport_result [OF prep i heap] obtain c where c: "any_context (st ! i) = Some c"
    by auto
  obtain e w where new: "responder_new (env_lib E) (env_filename E) (env_add_object E)
      (bus_objects (responders s)) (env_now E (world m)) (env_attach E) st d (world m) = (e, w)"
    by fastforce
  with cooperative_responder_new [OF coop i(1) c registers, of "env_now E (world m)" "env_attach E" "world m"]
  obtain r where e: "e = Inr r"
    by (cases e) auto
  note r = responder_new_result [OF new [unfolded e]]
  let ?o = "if ri_transport d \<noteq> None \<and> sec then open_and_heartbeat E st r w else (r, w)"
  have "responders (process_device E sec d s) = responders s @ [fst ?o]"
    using prep new e by (simp add: process_device_def split_beta Let_def)
  moreover have "responder_key (fst ?o) = device_key d"
    using r responder_key_sans_session [OF open_and_heartbeat_sans_session, of E st r w]
    by (simp add: responder_key_def device_key_def)
  moreover have "secureSessionActive (fst ?o)" if "sec" "secure_device E"
    using that secure_open_active [OF that(2), of r i st c w] r i c by simp
  ultimately show ?thesis
    by blast
qed

text \<open>A device is published behind the responders so far if none of them has its name.\<close>

definition unnamed_in :: "'w env \<Rightarrow> responder list \<Rightarrow> responder_info list \<Rightarrow> responder_info list" where
  "unnamed_in E rs devices = filter (\<lambda>d. bus_name E d \<notin> set (map deviceName rs)) devices"

lemma unnamed_in_Cons:
  "unnamed_in E rs (published E (d # ds)) =
     (if bus_accepts E d \<and> bus_name E d \<notin> set (map deviceName rs)
      then d # filter (\<lambda>e. bus_name E e \<noteq> bus_name E d) (unnamed_in E rs (published E ds))
      else unnamed_in E rs (published E ds))"
proof -
  have "filter P (filter (\<lambda>e. bus_name E e \<noteq> bus_name E d) xs) =
      filter (\<lambda>e. bus_name E e \<noteq> bus_name E d) (filter P xs)" for P and xs :: "responder_info list"
    by (simp add: conj_commute)
  moreover have "filter (\<lambda>e. bus_name E e \<noteq> bus_name E d) (unnamed_in E rs xs) = unnamed_in E rs xs"
    if "bus_name E d \<in> set (map deviceName rs)" for xs
    unfolding unnamed_in_def using that by (intro filter_True) auto
  ultimately show ?thesis
    by (auto simp: published_def unnamed_in_def)
qed

lemma cooperative_process_devices:
  assumes coop: "cooperative E" and bus: "sd_bus E"
    and "devices_ok (d_store s) devices" "heap_ok (mheap (d_machine s))"
    and "list_all responder_named (responders s)"
  shows "\<exists>new. responders (fold (process_device E sec) devices s) = responders s @ new \<and>
    map responder_key new = map device_key (unnamed_in E (responders s) (published E devices)) \<and>
    (sec \<and> secure_device E \<longrightarrow> list_all secureSessionActive new)"
  using assms(3-)
proof (induction devices arbitrary: s)
  case Nil
  then show ?case
    by (simp add: published_def unnamed_in_def)
next
  case (Cons d ds)
  from Cons.prems(1) obtain i where i: "ri_transport d = Some i" "i < length (d_store s)"
    by (auto simp: devices_ok_def)
  let ?s1 = "process_device E sec d s"
  note one = process_device_result [OF i Cons.prems(2) refl, of E sec]
  then have ok1: "devices_ok (d_store ?s1) ds" "heap_ok (mheap (d_machine ?s1))"
    using Cons.prems(1) by (auto simp: devices_ok_def refs_def)
  have "list_all responder_named (responders ?s1)"
    using process_device_registers [of E sec d s] Cons.prems(3) by auto
  from Cons.IH [OF ok1 this] obtain new where new:
    "responders (fold (process_device E sec) ds ?s1) = responders ?s1 @ new"
    "map responder_key new = map device_key (unnamed_in E (responders ?s1) (published E ds))"
    "sec \<and> secure_device E \<longrightarrow> list_all secureSessionActive new"
    by blast
  note iff = registers_iff [OF bus Cons.prems(3), of d]
  show ?case
  proof (cases "registers E (responders s) d")
    case True
    from cooperative_process_device [OF coop i Cons.prems(2) True, of sec] obtain r where
      r: "responders ?s1 = responders s @ [r]" "responder_key r = device_key d"
        "sec \<and> secure_device E \<longrightarrow> secureSessionActive r"
      by blast
    then have "deviceName r = bus_name E d"
      using process_device_registers [of E sec d s] by auto
    then have "unnamed_in E (responders ?s1) xs =
        filter (\<lambda>e. bus_name E e \<noteq> bus_name E d) (unnamed_in E (responders s) xs)" for xs
      using r by (auto simp: unnamed_in_def intro: filter_cong)
    with r new iff True show ?thesis
      by (intro exI [of _ "r # new"]) (simp add: unnamed_in_Cons)
  next
    case False
    then have "responders ?s1 = responders s"
      using process_device_registers [of E sec d s] by auto
    moreover have "unnamed_in E (responders s) (published E (d # ds)) = unnamed_in E (responders s) (published E ds)"
      using iff False unfolding unnamed_in_Cons by presburger
    ultimately show ?thesis
      using new by (intro exI [of _ new]) simp
  qed
qed

lemma subseq_distinct_list: "subseq xs ys \<Longrightarrow> distinct ys \<Longrightarrow> distinct xs"
  by (induction rule: list_emb.induct) (auto dest: list_emb_set)

lemma enable_cooperative:
  assumes reach: "reachable E J d" and coop: "cooperative E" and bus: "sd_bus E"
    and off: "\<not> pm_enabled (d_policy d)"
    and set: "set_property_enabled (daemon_callbacks E) True (d_policy d) (d_shared d) = (r, p, s)"
  shows "map responder_key (responders s) = map device_key (published E (discoveredDevices (d_shared d))) \<and>
    (pm_secure_session_enabled (d_policy d) \<and> secure_device E \<longrightarrow>
     list_all secureSessionActive (responders s))"
proof -
  let ?s = "d_shared d"
  have cb: "enabledChangeCallback (daemon_callbacks E) = Some (enabled_callback E)"
    by (simp add: daemon_callbacks_def registerEnabledChangeCallback_def
        registerSecureSessionEnabledChangeCallback_def)
  have ok: "devices_ok (d_store ?s) (discoveredDevices ?s)" "heap_ok (mheap (d_machine ?s))"
    using reachable_ok [OF reach] by (simp_all add: daemon_ok_def shared_ok_def)
  from set off enabled_property.set_change [of True "d_policy d" "daemon_callbacks E" ?s]
  have s: "s = processDiscoveredDevices E (discoveredDevices ?s)
      (pm_secure_session_enabled (d_policy d)) ?s"
    by (auto simp: call_back_def cb enabled_callback_def)
  then have "s = fold (process_device E (pm_secure_session_enabled (d_policy d)))
      (discoveredDevices ?s) (tearDownResponders E ?s)"
    by (cases "discoveredDevices ?s = []") (simp_all add: processDiscoveredDevices_def Let_def)
  with cooperative_process_devices [OF coop bus, of "tearDownResponders E ?s" "discoveredDevices ?s"
      "pm_secure_session_enabled (d_policy d)"] ok
  show ?thesis
    by (auto simp: unnamed_in_def)
qed

section \<open>An example\<close>

text \<open>One TCP device, a policy that starts disabled with secure sessions enabled.\<close>

definition example_os :: "unit os" where
  "example_os =
     \<lparr>os_malloc = (\<lambda>n w. (True, w)), os_mctp_socket = (\<lambda>w. ((3, 0), w)),
      os_read_file = (\<lambda>path w. Some [0x30]),
      os_tcp_connect = (\<lambda>ip p w.
        (\<lparr>socket_ret = 4, getfl_ret = 0, pton_ret = 1, connect_ret = 0, connect_errno = EOTHER,
          poll_ret = 1, getsockopt_ret = 0, so_error = 0\<rparr>, w))\<rparr>"

definition example_env :: "unit env" where
  "example_env =
     \<lparr>env_lib = example_libspdm, env_os = example_os, env_consts = dsp0274,
      env_filename = (\<lambda>p. p), env_attach = AttachUnknown, env_now = (\<lambda>w. 0), env_asyncCtx = True,
      env_add_object = (\<lambda>objects path. path \<notin> set objects), env_memory = plenty\<rparr>"

definition example_json :: "unit json_api" where
  "example_json =
     \<lparr>json_parse = (\<lambda>_. None), json_items = (\<lambda>_. []), json_get_bool = (\<lambda>_. None),
      json_dump = (\<lambda>_ _. [])\<rparr>"

definition example_policy :: "unit policy" where
  "example_policy = \<lparr>pm_enabled = False, pm_secure_session_enabled = True, config = ()\<rparr>"

definition example_device :: responder_info where
  "example_device =
     \<lparr>objectPath = ''/a'', deviceObjectPath = ''/a'', ri_transport = Some 0,
      responderData = TcpData ''h'' 2323, transportType = TCP\<rparr>"

definition example_found :: "unit shared" where
  "example_found =
     \<lparr>d_store = [AnyTcp (tcp_transport_init dsp0274 ''h'' 2323)],
      d_machine = \<lparr>mheap = empty_heap, mkernel = \<lparr>open_fds = {}, nonblocking = {}\<rparr>, world = ()\<rparr>,
      responders = [], discoveredDevices = [example_device]\<rparr>"

definition example_disabled :: "(unit, unit) daemon" where
  "example_disabled = \<lparr>d_policy = example_policy, d_shared = example_found, d_awaiting = False\<rparr>"

lemma example_reachable: "reachable example_env example_json example_disabled"
proof -
  let ?d0 = "\<lparr>d_policy = example_policy,
    d_shared = example_found\<lparr>d_store := [], discoveredDevices := []\<rparr>, d_awaiting = True\<rparr>"
  have "reachable example_env example_json ?d0"
    by (rule reachable_start [of "d_machine example_found" _ None example_policy])
      (simp_all add: main_start_def load_def example_found_def)
  moreover have "step example_env ?d0 example_disabled"
    using step_discovered [of ?d0 example_env "Tcp_reply (Then_first, Some example_tcp_objects)"
        "[example_device]" "[AnyTcp (tcp_transport_init dsp0274 ''h'' 2323)]"]
    by (simp add: example_env_def example_tcp_discovery example_device_def discovery_callback_def
        example_policy_def example_disabled_def example_found_def)
  ultimately show ?thesis
    by (rule reachable_step)
qed

lemma example_cooperative: "cooperative example_env"
  by (simp add: cooperative_def example_env_def example_os_def example_libspdm_def)

lemma example_sd_bus: "sd_bus example_env"
  by (simp add: sd_bus_def example_env_def)

lemma example_published: "published example_env [example_device] = [example_device]"
  by (rule published_all) (simp_all add: bus_accepts_def example_env_def list_all_iff)

lemma example_secure_device: "secure_device example_env"
  by (simp add: secure_device_def example_env_def example_os_def example_libspdm_def
      loadPeerRootCert_def sessionCfg_def default_SecureSessionConfig_def asymAlgoSubdir_def
      getNegotiatedAsymAlgo_def dsp0274_def loadCertFromFile_def readFile_def slot_present_def)

section \<open>Properties\<close>

text \<open>
  C2. In every state the daemon can reach, there is no responder while the policy is disabled, and
  no responder has an active secure session while secure sessions are disabled.
\<close>

theorem daemon_follows_policy:
  assumes "reachable E J d"
  shows "(pm_enabled (d_policy d) \<or> responders (d_shared d) = []) \<and>
    (pm_secure_session_enabled (d_policy d) \<or>
     list_all (\<lambda>r. \<not> secureSessionActive r) (responders (d_shared d)))"
  using reachable_ok [OF assms] by (auto simp: daemon_ok_def)

lemma daemon_follows_policy_witness:
  "responders (d_shared example_disabled) = []"
  using daemon_follows_policy [OF example_reachable]
  by (simp add: example_disabled_def example_policy_def)

text \<open>
  C3. In every state the daemon can reach, the responders belong to the discovered devices, in
  their order and at most one for each device, with the device's path and transport; no two share a
  transport; each works over a transport that has a libspdm context; and no block was freed twice.
\<close>

theorem daemon_responders_of_devices:
  assumes "reachable E J d"
  shows "subseq (map responder_key (responders (d_shared d)))
      (map device_key (discoveredDevices (d_shared d))) \<and>
    distinct (map r_transport (responders (d_shared d))) \<and>
    list_all (responder_ok (d_store (d_shared d))) (responders (d_shared d)) \<and>
    heap_ok (mheap (d_machine (d_shared d)))"
proof -
  let ?rs = "responders (d_shared d)" and ?ds = "discoveredDevices (d_shared d)"
  from reachable_ok [OF assms] have ok: "shared_ok (d_shared d)"
    by (simp add: daemon_ok_def)
  then have sub: "subseq (map responder_key ?rs) (map device_key ?ds)"
    by (simp add: shared_ok_def)
  have "subseq (map snd (map responder_key ?rs)) (map snd (map device_key ?ds))"
    using sub by (rule subseq_map)
  then have "subseq (map r_transport ?rs) (refs ?ds)"
    by (simp add: refs_def comp_def responder_key_def device_key_def)
  moreover have "distinct (refs ?ds)"
    using ok by (simp add: shared_ok_def devices_ok_def)
  ultimately have "distinct (map r_transport ?rs)"
    by (metis subseq_distinct_list)
  with ok sub show ?thesis
    by (simp add: shared_ok_def)
qed

lemma daemon_responders_of_devices_witness:
  "subseq (map responder_key (responders (d_shared example_disabled))) [(''/a'', Some 0)] \<and>
   heap_ok (mheap (d_machine (d_shared example_disabled)))"
  using daemon_responders_of_devices [OF example_reachable]
  by (simp add: example_disabled_def example_found_def example_device_def device_key_def)

text \<open>
  C6. When the policy is enabled in a reachable state where it was disabled, and the system and the
  devices answer every call, the responders are made for exactly the published devices, in order: of
  the discovered devices whose two paths the bus accepts, the first of each name. A device without a
  configuration path that the bus accepts, or with the name of an earlier one, gets none; when the bus
  accepts all paths and the names differ, every discovered device has its responder. If secure
  sessions are enabled and the devices and the certificate store allow them, every responder ends with
  an active session.
\<close>

theorem enabling_serves_every_device:
  assumes reach: "reachable E J d" and coop: "cooperative E" and bus: "sd_bus E"
    and off: "\<not> pm_enabled (d_policy d)"
    and set: "set_property_enabled (daemon_callbacks E) True (d_policy d) (d_shared d) = (r, p, s)"
  shows "map responder_key (responders s) = map device_key (published E (discoveredDevices (d_shared d))) \<and>
    (list_all (bus_accepts E) (discoveredDevices (d_shared d)) \<and>
       distinct (map (bus_name E) (discoveredDevices (d_shared d))) \<longrightarrow>
     map responder_key (responders s) = map device_key (discoveredDevices (d_shared d))) \<and>
    (pm_secure_session_enabled (d_policy d) \<and> secure_device E \<longrightarrow>
     list_all secureSessionActive (responders s))"
  using enable_cooperative [OF assms] published_all by metis

lemma enabling_serves_every_device_witness:
  "\<exists>r p s. set_property_enabled (daemon_callbacks example_env) True example_policy example_found =
       (r, p, s) \<and>
     map responder_key (responders s) = [(''/a'', Some 0)] \<and> list_all secureSessionActive (responders s)"
proof -
  obtain r p s where set:
    "set_property_enabled (daemon_callbacks example_env) True example_policy example_found = (r, p, s)"
    by (metis prod_cases3)
  from enabling_serves_every_device [OF example_reachable example_cooperative example_sd_bus, of r p s] set
  show ?thesis
    using example_secure_device example_published
    by (simp add: example_disabled_def example_policy_def example_found_def device_key_def
        example_device_def)
qed

end
