(* ===== verification/Transport_Resources.thy ===== *)
theory Transport_Resources
  imports Responder
begin

text \<open>
  What a transport owns: the descriptor of its socket and its scratch buffer
  (\<^verbatim>\<open>requester/libspdm_mctp_transport.cpp\<close>, \<^verbatim>\<open>requester/libspdm_tcp_transport.cpp\<close>,
  \<^verbatim>\<open>requester/libspdm_transport.hpp\<close>). The interface \<open>transport_resources\<close> extends the contract of
  \<open>initialize\<close> with the destructor and the address; a store of transports that owns every descriptor
  opened since \<open>base\<close> keeps doing so, and destroying all of it gives everything back.
\<close>

section \<open>Ownership\<close>

definition owned :: "int \<Rightarrow> int set" where
  "owned fd = (if 0 \<le> fd then {fd} else {})"

text \<open>
  All descriptors but \<open>base\<close> belong to a transport of the list, and the scratch buffers are live and
  not shared.
\<close>

definition fds_of :: "('t \<Rightarrow> int) \<Rightarrow> 't list \<Rightarrow> int set" where
  "fds_of fd ts = (\<Union>t \<in> set ts. owned (fd t))"

definition scratches :: "('t \<Rightarrow> ptr option) \<Rightarrow> 't list \<Rightarrow> ptr set" where
  "scratches scratch ts = (\<Union>t \<in> set ts. set_option (scratch t))"

primrec unshared :: "('t \<Rightarrow> ptr option) \<Rightarrow> 't list \<Rightarrow> bool" where
  "unshared scratch [] = True"
| "unshared scratch (t # ts) =
     (set_option (scratch t) \<inter> scratches scratch ts = {} \<and> unshared scratch ts)"

definition store_owns ::
    "('t \<Rightarrow> int) \<Rightarrow> ('t \<Rightarrow> ptr option) \<Rightarrow> int set \<Rightarrow> 't list \<Rightarrow> 'w machine \<Rightarrow> bool" where
  "store_owns fd scratch base ts m \<longleftrightarrow>
     heap_ok (mheap m) \<and> open_fds (mkernel m) \<subseteq> base \<union> fds_of fd ts \<and>
     scratches scratch ts \<subseteq> live (mheap m) \<and> unshared scratch ts"

lemma store_owns_world:
  "store_owns fd scratch base ts m \<Longrightarrow> mheap m' = mheap m \<Longrightarrow> mkernel m' = mkernel m \<Longrightarrow>
   store_owns fd scratch base ts m'"
  by (simp add: store_owns_def)

text \<open>Replacing one transport.\<close>

lemma scratches_update:
  "scratches scratch (ts[i := t]) \<subseteq> set_option (scratch t) \<union> scratches scratch ts"
  using set_update_subset_insert [of ts i t] by (fastforce simp: scratches_def)

lemma scratches_nth: "i < length ts \<Longrightarrow> set_option (scratch (ts ! i)) \<subseteq> scratches scratch ts"
  unfolding scratches_def by (blast dest: nth_mem)

lemma unshared_update:
  "unshared scratch ts \<Longrightarrow> i < length ts \<Longrightarrow>
   set_option (scratch t) \<subseteq> set_option (scratch (ts ! i)) \<or>
   set_option (scratch t) \<inter> scratches scratch ts = {} \<Longrightarrow>
   unshared scratch (ts[i := t])"
proof (induction ts arbitrary: i)
  case (Cons h ts)
  have split: "scratches scratch (h # ts) = set_option (scratch h) \<union> scratches scratch ts"
    by (simp add: scratches_def)
  show ?case
  proof (cases i)
    case 0
    with Cons.prems show ?thesis
      by (auto simp: split)
  next
    case (Suc k)
    with Cons.prems have k: "k < length ts"
      by simp
    have "unshared scratch (ts[k := t])"
      using Cons.prems k Suc by (intro Cons.IH) (auto simp: split)
    moreover have "set_option (scratch h) \<inter> set_option (scratch t) = {}"
      using Cons.prems Suc scratches_nth [OF k, of scratch] by (auto simp: split)
    then have "set_option (scratch h) \<inter> scratches scratch (ts[k := t]) = {}"
      using Cons.prems(1) scratches_update [of scratch ts k t] by auto
    ultimately show ?thesis
      using Suc by simp
  qed
qed simp

lemma fds_of_update:
  assumes "i < length ts"
  shows "fds_of fd ts \<subseteq> fds_of fd (ts[i := t]) \<union> owned (fd (ts ! i))"
proof
  fix x
  assume "x \<in> fds_of fd ts"
  then obtain j where j: "j < length ts" "x \<in> owned (fd (ts ! j))"
    by (auto simp: fds_of_def in_set_conv_nth)
  show "x \<in> fds_of fd (ts[i := t]) \<union> owned (fd (ts ! i))"
  proof (cases "j = i")
    case False
    with j have "ts ! j \<in> set (ts[i := t])"
      by (metis length_list_update nth_list_update_neq nth_mem)
    with j show ?thesis
      by (auto simp: fds_of_def)
  qed (use j in simp)
qed

lemma fds_of_new: "i < length ts \<Longrightarrow> owned (fd t) \<subseteq> fds_of fd (ts[i := t])"
  using set_update_memI [of i ts t] by (auto simp: fds_of_def)

lemma store_owns_same:
  assumes own: "store_owns fd scratch base ts m" and t: "fd t = fd (ts ! i)" "scratch t = scratch (ts ! i)"
  shows "store_owns fd scratch base (ts[i := t]) m"
proof (cases "i < length ts")
  case True
  have "fds_of fd ts \<subseteq> fds_of fd (ts[i := t])"
    using fds_of_update [OF True, of fd t] fds_of_new [OF True, of fd t] t(1) by auto
  moreover have "scratches scratch (ts[i := t]) \<subseteq> scratches scratch ts"
    using scratches_update [of scratch ts i t] scratches_nth [OF True, of scratch] t(2) by auto
  moreover have "unshared scratch (ts[i := t])"
    using own t(2) True by (intro unshared_update) (simp_all add: store_owns_def)
  ultimately show ?thesis
    using own by (auto simp: store_owns_def)
next
  case False
  then have "ts[i := t] = ts"
    by (simp add: list_update_beyond)
  with own show ?thesis
    by (simp only:)
qed

text \<open>New transports that own nothing.\<close>

lemma scratches_append: "scratches scratch (ts @ new) = scratches scratch ts \<union> scratches scratch new"
  by (simp add: scratches_def)

lemma no_scratches: "list_all (\<lambda>t. scratch t = None) new \<Longrightarrow> scratches scratch new = {} \<and> unshared scratch new"
  by (induction new) (simp_all add: scratches_def)

lemma unshared_append:
  "unshared scratch ts \<Longrightarrow> list_all (\<lambda>t. scratch t = None) new \<Longrightarrow> unshared scratch (ts @ new)"
  using no_scratches [of scratch new] by (induction ts) (auto simp: scratches_append)

lemma store_owns_append:
  assumes "store_owns fd scratch base ts m" and "list_all (\<lambda>t. scratch t = None) new"
  shows "store_owns fd scratch base (ts @ new) m"
  using assms unshared_append [of scratch ts new] no_scratches [OF assms(2)]
  by (auto simp: store_owns_def fds_of_def scratches_append)

text \<open>
  The libspdm contexts: they are live, no two transports have the same one, and none is a scratch
  buffer.
\<close>

definition separate ::
    "('t \<Rightarrow> ptr option) \<Rightarrow> ('t \<Rightarrow> ptr option) \<Rightarrow> 't list \<Rightarrow> heap \<Rightarrow> bool" where
  "separate ctx scratch ts h \<longleftrightarrow>
     scratches ctx ts \<subseteq> live h \<and> unshared ctx ts \<and> scratches ctx ts \<inter> scratches scratch ts = {}"

lemma separate_same:
  assumes sep: "separate ctx scratch ts h" and t: "ctx t = ctx (ts ! i)" "scratch t = scratch (ts ! i)"
  shows "separate ctx scratch (ts[i := t]) h"
proof (cases "i < length ts")
  case True
  have "scratches ctx (ts[i := t]) \<subseteq> scratches ctx ts"
    using scratches_update [of ctx ts i t] scratches_nth [OF True, of ctx] t(1) by auto
  moreover have "scratches scratch (ts[i := t]) \<subseteq> scratches scratch ts"
    using scratches_update [of scratch ts i t] scratches_nth [OF True, of scratch] t(2) by auto
  moreover have "unshared ctx (ts[i := t])"
    using sep t(1) True by (intro unshared_update) (simp_all add: separate_def)
  ultimately show ?thesis
    using sep unfolding separate_def by blast
next
  case False
  with sep show ?thesis
    by (simp add: list_update_beyond)
qed

lemma separate_append:
  assumes "separate ctx scratch ts h" and "list_all (\<lambda>t. ctx t = None \<and> scratch t = None) new"
  shows "separate ctx scratch (ts @ new) h"
proof -
  have new: "list_all (\<lambda>t. ctx t = None) new" "list_all (\<lambda>t. scratch t = None) new"
    using assms(2) by (simp_all add: list_all_iff)
  show ?thesis
    using assms(1) no_scratches [OF new(1)] no_scratches [OF new(2)] unshared_append [OF _ new(1), of ts]
    by (simp add: separate_def scratches_append)
qed

lemma unshared_nth:
  "unshared ctx ts \<Longrightarrow> i < j \<Longrightarrow> j < length ts \<Longrightarrow> ctx (ts ! i) = Some c \<Longrightarrow> ctx (ts ! j) \<noteq> Some c"
proof (induction ts arbitrary: i j)
  case (Cons t ts)
  then obtain k where j: "j = Suc k" "k < length ts"
    by (cases j) auto
  show ?case
  proof (cases i)
    case 0
    with Cons.prems j scratches_nth [OF j(2), of ctx] show ?thesis
      by auto
  next
    case (Suc l)
    with Cons j show ?thesis
      by simp
  qed
qed simp

lemma separate_nth:
  "separate ctx scratch ts h \<Longrightarrow> i < length ts \<Longrightarrow> j < length ts \<Longrightarrow> i \<noteq> j \<Longrightarrow>
   ctx (ts ! i) = Some c \<Longrightarrow> ctx (ts ! j) \<noteq> Some c"
  using unshared_nth [of ctx ts i j c] unshared_nth [of ctx ts j i c]
  by (auto simp: separate_def neq_iff)

section \<open>The contract\<close>

locale transport_resources = transport_lifecycle init ctx scratch connected
  for init :: "'t \<Rightarrow> 'w machine \<Rightarrow> bool \<times> 't \<times> 'w machine"
    and ctx :: "'t \<Rightarrow> ptr option"
    and scratch :: "'t \<Rightarrow> ptr option"
    and connected :: "'t \<Rightarrow> bool" +
  fixes destroy :: "'t \<Rightarrow> 'w machine \<Rightarrow> 'w machine"
    and fd :: "'t \<Rightarrow> int"
    and ident :: "'t \<Rightarrow> 'i"
  assumes init_ident: "init t m = (ok, t', m') \<Longrightarrow> ident t' = ident t"
    and init_fds: "init t m = (ok, t', m') \<Longrightarrow>
      open_fds (mkernel m') - owned (fd t') \<subseteq> open_fds (mkernel m) - owned (fd t)"
    and init_scratch: "heap_ok (mheap m) \<Longrightarrow> init t m = (ok, t', m') \<Longrightarrow>
      scratch t' \<in> {scratch t, None} \<union> Some ` (live (mheap m') - live (mheap m))"
    and destroy_fds: "open_fds (mkernel (destroy t m)) = open_fds (mkernel m) - owned (fd t)"
    and destroy_heap: "mheap (destroy t m) =
      (case scratch t of None \<Rightarrow> mheap m | Some p \<Rightarrow> free p (mheap m))"
begin

lemma init_store_owns:
  assumes own: "store_owns fd scratch base ts m" and i: "i < length ts"
    and run: "init (ts ! i) m = (ok, t', m')"
  shows "store_owns fd scratch base (ts[i := t']) m'"
proof -
  have heap: "heap_ok (mheap m)"
    using own by (simp add: store_owns_def)
  note h = init_heap_ok [OF heap run] and f = init_fds [OF run] and s = init_scratch [OF heap run]
  have "open_fds (mkernel m') \<subseteq> base \<union> fds_of fd (ts[i := t'])"
    using own f fds_of_update [OF i, of fd t'] fds_of_new [OF i, of fd t'] unfolding store_owns_def by blast
  moreover have old: "scratches scratch ts \<subseteq> live (mheap m)"
    using own by (simp add: store_owns_def)
  have new: "set_option (scratch t') \<subseteq> set_option (scratch (ts ! i)) \<or>
      set_option (scratch t') \<subseteq> live (mheap m') - live (mheap m)"
    using s by auto
  have "scratches scratch (ts[i := t']) \<subseteq> live (mheap m')"
    using new old h scratches_update [of scratch ts i t'] scratches_nth [OF i, of scratch] by blast
  moreover have "unshared scratch (ts[i := t'])"
    using own i new old by (intro unshared_update) (auto simp: store_owns_def)
  ultimately show ?thesis
    using h by (simp add: store_owns_def)
qed

lemma destroy_all:
  "store_owns fd scratch base ts m \<Longrightarrow>
   store_owns fd scratch base [] (fold destroy ts m) \<and>
   live (mheap (fold destroy ts m)) = live (mheap m) - scratches scratch ts"
proof (induction ts arbitrary: m)
  case (Cons t ts)
  let ?m = "destroy t m"
  have split: "scratches scratch (t # ts) = set_option (scratch t) \<union> scratches scratch ts"
    "fds_of fd (t # ts) = owned (fd t) \<union> fds_of fd ts"
    by (simp_all add: scratches_def fds_of_def)
  have m: "heap_ok (mheap m)" "set_option (scratch t) \<subseteq> live (mheap m)"
    "scratches scratch ts \<subseteq> live (mheap m) - set_option (scratch t)" "unshared scratch ts"
    "open_fds (mkernel m) \<subseteq> base \<union> owned (fd t) \<union> fds_of fd ts"
    using Cons.prems by (auto simp: store_owns_def split)
  have heap: "heap_ok (mheap ?m) \<and> live (mheap ?m) = live (mheap m) - set_option (scratch t)"
    using m(1,2) free_heap_ok [OF m(1)] by (cases "scratch t") (auto simp: destroy_heap free_live)
  moreover have "open_fds (mkernel ?m) \<subseteq> base \<union> fds_of fd ts"
    using m(5) by (auto simp: destroy_fds)
  ultimately have own: "store_owns fd scratch base ts ?m"
    using m by (simp add: store_owns_def)
  from Cons.IH [OF own] heap show ?case
    by (auto simp: split)
qed (simp add: scratches_def)

end

text \<open>
  The context a transport has after \<open>initialize\<close>, whatever the outcome, is the one it had, none, or a
  block allocated in the call.
\<close>

locale transport_contexts = transport_resources init ctx scratch connected destroy fd ident
  for init :: "'t \<Rightarrow> 'w machine \<Rightarrow> bool \<times> 't \<times> 'w machine"
    and ctx :: "'t \<Rightarrow> ptr option"
    and scratch :: "'t \<Rightarrow> ptr option"
    and connected :: "'t \<Rightarrow> bool"
    and destroy :: "'t \<Rightarrow> 'w machine \<Rightarrow> 'w machine"
    and fd :: "'t \<Rightarrow> int"
    and ident :: "'t \<Rightarrow> 'i" +
  assumes init_ctx: "heap_ok (mheap m) \<Longrightarrow> init t m = (ok, t', m') \<Longrightarrow>
      ctx t' \<in> {ctx t, None} \<union> Some ` (live (mheap m') - live (mheap m))"
    and init_scratch_failed: "init t m = (False, t', m') \<Longrightarrow> scratch t' \<in> {scratch t, None}"
begin

lemma init_separate:
  assumes sep: "separate ctx scratch ts (mheap m)" and own: "store_owns fd scratch base ts m"
    and i: "i < length ts" and run: "init (ts ! i) m = (ok, t', m')"
  shows "separate ctx scratch (ts[i := t']) (mheap m')"
proof -
  have heap: "heap_ok (mheap m)" and old: "scratches scratch ts \<subseteq> live (mheap m)"
    using own by (simp_all add: store_owns_def)
  have live: "live (mheap m) \<subseteq> live (mheap m')"
    using init_heap_ok [OF heap run] by simp
  let ?new = "live (mheap m') - live (mheap m)"
  have c: "set_option (ctx t') \<subseteq> set_option (ctx (ts ! i)) \<or> set_option (ctx t') \<subseteq> ?new"
    using init_ctx [OF heap run] by auto
  have s: "set_option (scratch t') \<subseteq> set_option (scratch (ts ! i)) \<or>
      set_option (scratch t') \<subseteq> ?new \<and> set_option (ctx t') \<inter> set_option (scratch t') = {}"
  proof (cases ok)
    case True
    with run have "init (ts ! i) m = (True, t', m')"
      by simp
    from init_success [OF this] init_scratch [OF heap run] show ?thesis
      by auto
  next
    case False
    with run init_scratch_failed [of "ts ! i" m t' m'] show ?thesis
      by auto
  qed
  have here: "set_option (ctx (ts ! i)) \<subseteq> scratches ctx ts"
    "set_option (scratch (ts ! i)) \<subseteq> scratches scratch ts"
    using i by (simp_all add: scratches_nth)
  note upd = scratches_update [of ctx ts i t'] scratches_update [of scratch ts i t']
  have "scratches ctx (ts[i := t']) \<subseteq> live (mheap m')"
    using c here upd(1) sep live unfolding separate_def by blast
  moreover have "unshared ctx (ts[i := t'])"
    using c sep i unfolding separate_def by (intro unshared_update) auto
  moreover have "scratches ctx (ts[i := t']) \<inter> scratches scratch (ts[i := t']) = {}"
  proof -
    have "(set_option (ctx t') \<union> scratches ctx ts) \<inter> (set_option (scratch t') \<union> scratches scratch ts) = {}"
      using c s here sep old unfolding separate_def by blast
    with upd show ?thesis
      by blast
  qed
  ultimately show ?thesis
    by (simp add: separate_def)
qed

end

section \<open>The two transports\<close>

lemma tcp_openSocket_owned:
  "tcp_openSocket OS t m = (ok, t', m') \<Longrightarrow>
   open_fds (mkernel m') - owned (tcpSocketFd (tcpIo t'))
     \<subseteq> open_fds (mkernel m) - owned (tcpSocketFd (tcpIo t)) \<and>
   tcpIpAddr (tcpIo t') = tcpIpAddr (tcpIo t) \<and> tcpPort (tcpIo t') = tcpPort (tcpIo t)"
  by (auto simp: tcp_openSocket_def tcp_createSocket_def tcp_isSocketOpen_def fd_set_nonblocking_def
      owned_def Let_def split: prod.splits if_splits)

lemma mctp_openSocket_owned:
  "mctp_openSocket OS t m = (ok, t', m') \<Longrightarrow>
   open_fds (mkernel m') - owned (mctpSocketFd (mctpIo t'))
     \<subseteq> open_fds (mkernel m) - owned (mctpSocketFd (mctpIo t)) \<and> eid t' = eid t"
  by (auto simp: mctp_openSocket_def mctp_createSocket_def mctp_isSocketOpen_def owned_def Let_def
      split: prod.splits if_splits)

lemma tcp_initialize_owned:
  assumes "tcp_initialize L OS C t m = (ok, t', m')"
  shows "open_fds (mkernel m') - owned (tcpSocketFd (tcpIo t'))
      \<subseteq> open_fds (mkernel m) - owned (tcpSocketFd (tcpIo t)) \<and>
    tcpIpAddr (tcpIo t') = tcpIpAddr (tcpIo t) \<and> tcpPort (tcpIo t') = tcpPort (tcpIo t) \<and>
    (ok \<or> scratchBuffer t' \<in> {scratchBuffer t, None} \<and> spdmContext t' \<in> {spdmContext t, None})"
proof -
  obtain ok1 t1 m1 where 1: "tcp_openSocket OS t m = (ok1, t1, m1)"
    by (metis prod_cases3)
  obtain ok2 t2 m2 where 2: "tcp_allocateContext L OS t1 m1 = (ok2, t2, m2)"
    by (metis prod_cases3)
  obtain ok3 m3 where 3: "tcp_registerFunctions L t2 m2 = (ok3, m3)"
    by (metis prod.exhaust)
  obtain ok4 t4 m4 where 4: "tcp_setupScratchBuffer L OS t2 m3 = (ok4, t4, m4)"
    by (metis prod_cases3)
  obtain ok5 m5 where 5: "tcp_configureContext L C t4 m4 = (ok5, m5)"
    by (metis prod.exhaust)
  note steps = 1 2 3 4 5
  note o1 = tcp_openSocket_owned [OF 1] and s1 = tcp_openSocket_result [OF 1]
    and r2 = tcp_allocateContext_result [OF 2]
    and r3 = registerFunctions_result [OF 3 [unfolded tcp_registerFunctions_def]]
    and r4 = setupScratchBuffer_result [OF 4 [unfolded tcp_setupScratchBuffer_def]]
    and r5 = configureContext_result [OF 5 [unfolded tcp_configureContext_def]]
  show ?thesis
  proof (cases "ok1 \<and> ok2")
    case False
    with assms steps o1 s1 r2 show ?thesis
      by (auto simp: tcp_initialize_def split: if_splits)
  next
    case True
    with r2 obtain c where t2: "t2 = t1\<lparr>spdmContext := Some c\<rparr>" "mkernel m2 = mkernel m1"
      by auto
    then have r4: "mkernel m4 = mkernel m1" "tcpIo t4 = tcpIo t1"
      "ok4 \<or> t4 = t2\<lparr>scratchBuffer := None\<rparr>"
      using r4 [of c] r3 by (auto simp: same_resources_def split: if_splits)
    with assms steps True o1 s1 r3 r5 t2 show ?thesis
      by (cases ok4)
        (auto simp: tcp_initialize_def tcp_cleanupContext_def tcp_closeSocket_def owned_def
           same_resources_def split: if_splits)
  qed
qed

lemma mctp_initialize_owned:
  assumes "mctp_initialize L OS C t m = (ok, t', m')"
  shows "open_fds (mkernel m') - owned (mctpSocketFd (mctpIo t'))
      \<subseteq> open_fds (mkernel m) - owned (mctpSocketFd (mctpIo t)) \<and>
    eid t' = eid t \<and>
    (ok \<or> scratchBuffer t' \<in> {scratchBuffer t, None} \<and>
       (spdmContext t' \<in> {spdmContext t, None} \<or>
        spdmContext t' = Some (brk (mheap m)) \<and> mheap m' = snd (malloc True (mheap m))))"
proof -
  obtain ok1 t1 m1 where 1: "mctp_openSocket OS t m = (ok1, t1, m1)"
    by (metis prod_cases3)
  obtain ok2 t2 m2 where 2: "mctp_allocateContext L OS t1 m1 = (ok2, t2, m2)"
    by (metis prod_cases3)
  obtain ok3 m3 where 3: "mctp_registerFunctions L t2 m2 = (ok3, m3)"
    by (metis prod.exhaust)
  obtain ok4 t4 m4 where 4: "mctp_setupScratchBuffer L OS t2 m3 = (ok4, t4, m4)"
    by (metis prod_cases3)
  obtain ok5 m5 where 5: "mctp_configureContext L C t4 m4 = (ok5, m5)"
    by (metis prod.exhaust)
  note steps = 1 2 3 4 5
  note o1 = mctp_openSocket_owned [OF 1] and s1 = mctp_openSocket_result [OF 1]
    and r2 = mctp_allocateContext_result [OF 2]
    and r3 = registerFunctions_result [OF 3 [unfolded mctp_registerFunctions_def]]
    and r4 = setupScratchBuffer_result [OF 4 [unfolded mctp_setupScratchBuffer_def]]
    and r5 = configureContext_result [OF 5 [unfolded mctp_configureContext_def]]
  show ?thesis
  proof (cases "ok1 \<and> ok2")
    case False
    with assms steps o1 s1 r2 show ?thesis
      by (auto simp: mctp_initialize_def split: if_splits)
  next
    case True
    with r2 obtain c where t2: "t2 = t1\<lparr>spdmContext := Some c\<rparr>" "mkernel m2 = mkernel m1"
      by auto
    then have r4: "mkernel m4 = mkernel m1" "mctpIo t4 = mctpIo t1" "eid t4 = eid t1"
      "ok4 \<or> t4 = t2\<lparr>scratchBuffer := None\<rparr>"
      using r4 [of c] r3 by (auto simp: same_resources_def split: if_splits)
    with assms steps True o1 s1 r3 r5 t2 show ?thesis
      by (cases ok4)
        (auto simp: mctp_initialize_def mctp_cleanupContext_def same_resources_def)
  qed
qed

lemma transport_destroy_result:
  "mkernel (snd (spdm_transport_destroy L t m)) = mkernel m"
  "mheap (snd (spdm_transport_destroy L t m)) =
     (case scratchBuffer t of None \<Rightarrow> mheap m | Some p \<Rightarrow> free p (mheap m))"
  by (simp_all add: spdm_transport_destroy_def split: option.split)

text \<open>The class and address of a transport.\<close>

datatype transport_id = Mctp_id byte | Tcp_id string u16

definition tcp_id :: "tcp_transport \<Rightarrow> transport_id" where
  "tcp_id t = Tcp_id (tcpIpAddr (tcpIo t)) (tcpPort (tcpIo t))"

lemma fresh_scratch:
  assumes "heap_ok (mheap m)" and "p = Some (Suc (brk (mheap m)))"
    and "mheap m' = snd (malloc True (snd (malloc True (mheap m))))"
  shows "p \<in> Some ` (live (mheap m') - live (mheap m))"
proof -
  have "Suc (brk (mheap m)) \<in> live (mheap m') - live (mheap m)"
    using assms(1,3) by (auto simp: heap_ok_def malloc_works)
  with assms(2) show ?thesis
    by (rule image_eqI)
qed

lemma fresh_context:
  assumes "heap_ok (mheap m)" and "p = Some (brk (mheap m))"
    and "mheap m' \<in> {snd (malloc True (mheap m)), snd (malloc True (snd (malloc True (mheap m))))}"
  shows "p \<in> Some ` (live (mheap m') - live (mheap m))"
proof -
  have "brk (mheap m) \<in> live (mheap m') - live (mheap m)"
    using assms(1,3) by (auto simp: heap_ok_def malloc_works)
  with assms(2) show ?thesis
    by (rule image_eqI)
qed

interpretation tcp_owner: transport_resources
  "tcp_initialize L OS C" spdmContext scratchBuffer "\<lambda>t. tcp_isSocketOpen (tcpIo t)"
  "\<lambda>t m. snd (tcp_transport_destroy L t m)" "\<lambda>t. tcpSocketFd (tcpIo t)" tcp_id
  for L OS C
proof unfold_locales
  fix t m ok t' m'
  assume run: "tcp_initialize L OS C t m = (ok, t', m')"
  note o = tcp_initialize_owned [OF run]
  then show "tcp_id t' = tcp_id t"
    and "open_fds (mkernel m') - owned (tcpSocketFd (tcpIo t'))
      \<subseteq> open_fds (mkernel m) - owned (tcpSocketFd (tcpIo t))"
    by (simp_all add: tcp_id_def)
  assume "heap_ok (mheap m)"
  then show "scratchBuffer t' \<in> {scratchBuffer t, None} \<union> Some ` (live (mheap m') - live (mheap m))"
    using o run tcp_life.init_success [of L OS C t m t' m'] fresh_scratch [of m "scratchBuffer t'" m']
    by (cases ok) auto
next
  fix t m
  show "open_fds (mkernel (snd (tcp_transport_destroy L t m))) =
      open_fds (mkernel m) - owned (tcpSocketFd (tcpIo t))"
    and "mheap (snd (tcp_transport_destroy L t m)) =
      (case scratchBuffer t of None \<Rightarrow> mheap m | Some p \<Rightarrow> free p (mheap m))"
    by (auto simp: tcp_transport_destroy_def tcp_io_destroy_def tcp_closeSocket_def tcp_isSocketOpen_def owned_def
        transport_destroy_result Let_def split: option.split)
qed

interpretation tcp_contexts: transport_contexts
  "tcp_initialize L OS C" spdmContext scratchBuffer "\<lambda>t. tcp_isSocketOpen (tcpIo t)"
  "\<lambda>t m. snd (tcp_transport_destroy L t m)" "\<lambda>t. tcpSocketFd (tcpIo t)" tcp_id
  for L OS C
proof unfold_locales
  fix t m ok t' m'
  assume heap: "heap_ok (mheap m)" and run: "tcp_initialize L OS C t m = (ok, t', m')"
  show "spdmContext t' \<in> {spdmContext t, None} \<union> Some ` (live (mheap m') - live (mheap m))"
  proof (cases ok)
    case True
    with run tcp_life.init_success [of L OS C t m t' m'] fresh_context [OF heap, of "spdmContext t'" m']
    show ?thesis
      by simp
  next
    case False
    with tcp_initialize_owned [OF run] show ?thesis
      by blast
  qed
next
  fix t m t' m'
  assume "tcp_initialize L OS C t m = (False, t', m')"
  from tcp_initialize_owned [OF this] show "scratchBuffer t' \<in> {scratchBuffer t, None}"
    by simp
qed

interpretation mctp_owner: transport_resources
  "mctp_initialize L OS C" spdmContext scratchBuffer "\<lambda>t. mctp_isSocketOpen (mctpIo t)"
  "\<lambda>t m. snd (mctp_transport_destroy L t m)" "\<lambda>t. mctpSocketFd (mctpIo t)" "\<lambda>t. Mctp_id (eid t)"
  for L OS C
proof unfold_locales
  fix t m ok t' m'
  assume run: "mctp_initialize L OS C t m = (ok, t', m')"
  note o = mctp_initialize_owned [OF run]
  then show "Mctp_id (eid t') = Mctp_id (eid t)"
    and "open_fds (mkernel m') - owned (mctpSocketFd (mctpIo t'))
      \<subseteq> open_fds (mkernel m) - owned (mctpSocketFd (mctpIo t))"
    by simp_all
  assume "heap_ok (mheap m)"
  then show "scratchBuffer t' \<in> {scratchBuffer t, None} \<union> Some ` (live (mheap m') - live (mheap m))"
    using o run mctp_life.init_success [of L OS C t m t' m'] fresh_scratch [of m "scratchBuffer t'" m']
    by (cases ok) auto
next
  fix t m
  show "open_fds (mkernel (snd (mctp_transport_destroy L t m))) =
      open_fds (mkernel m) - owned (mctpSocketFd (mctpIo t))"
    and "mheap (snd (mctp_transport_destroy L t m)) =
      (case scratchBuffer t of None \<Rightarrow> mheap m | Some p \<Rightarrow> free p (mheap m))"
    by (auto simp: mctp_transport_destroy_def mctp_io_destroy_def mctp_deleteSocket_def mctp_isSocketOpen_def owned_def
        transport_destroy_result Let_def split: option.split)
qed

interpretation mctp_contexts: transport_contexts
  "mctp_initialize L OS C" spdmContext scratchBuffer "\<lambda>t. mctp_isSocketOpen (mctpIo t)"
  "\<lambda>t m. snd (mctp_transport_destroy L t m)" "\<lambda>t. mctpSocketFd (mctpIo t)" "\<lambda>t. Mctp_id (eid t)"
  for L OS C
proof unfold_locales
  fix t m ok t' m'
  assume heap: "heap_ok (mheap m)" and run: "mctp_initialize L OS C t m = (ok, t', m')"
  show "spdmContext t' \<in> {spdmContext t, None} \<union> Some ` (live (mheap m') - live (mheap m))"
  proof (cases ok)
    case True
    with run mctp_life.init_success [of L OS C t m t' m'] fresh_context [OF heap, of "spdmContext t'" m']
    show ?thesis
      by simp
  next
    case False
    with mctp_initialize_owned [OF run] fresh_context [OF heap, of "spdmContext t'" m'] show ?thesis
      by auto
  qed
next
  fix t m t' m'
  assume "mctp_initialize L OS C t m = (False, t', m')"
  from mctp_initialize_owned [OF this] show "scratchBuffer t' \<in> {scratchBuffer t, None}"
    by simp
qed

section \<open>The virtual interface\<close>

fun any_fd :: "any_transport \<Rightarrow> int" where
  "any_fd (AnyMctp t) = mctpSocketFd (mctpIo t)"
| "any_fd (AnyTcp t) = tcpSocketFd (tcpIo t)"

fun any_id :: "any_transport \<Rightarrow> transport_id" where
  "any_id (AnyMctp t) = Mctp_id (eid t)"
| "any_id (AnyTcp t) = tcp_id t"

interpretation any_owner: transport_resources
  "any_initialize L OS C" any_context any_scratch any_connected "any_destroy L" any_fd any_id
  for L OS C
proof unfold_locales
  fix t m ok t' m'
  assume run: "any_initialize L OS C t m = (ok, t', m')"
  show "any_id t' = any_id t"
    using run by (cases t) (auto split: prod.splits dest: tcp_owner.init_ident mctp_owner.init_ident)
  show "open_fds (mkernel m') - owned (any_fd t') \<subseteq> open_fds (mkernel m) - owned (any_fd t)"
  proof (cases t)
    case (AnyMctp t1)
    with run show ?thesis
      by (auto split: prod.splits dest!: mctp_owner.init_fds)
  next
    case (AnyTcp t1)
    with run show ?thesis
      by (auto split: prod.splits dest!: tcp_owner.init_fds)
  qed
  assume heap: "heap_ok (mheap m)"
  show "any_scratch t' \<in> {any_scratch t, None} \<union> Some ` (live (mheap m') - live (mheap m))"
  proof (cases t)
    case (AnyMctp t1)
    with run mctp_owner.init_scratch [OF heap, of L OS C t1] show ?thesis
      by (auto split: prod.splits)
  next
    case (AnyTcp t1)
    with run tcp_owner.init_scratch [OF heap, of L OS C t1] show ?thesis
      by (auto split: prod.splits)
  qed
next
  fix t m
  show "open_fds (mkernel (any_destroy L t m)) = open_fds (mkernel m) - owned (any_fd t)"
    by (cases t) (simp_all add: tcp_owner.destroy_fds mctp_owner.destroy_fds)
  show "mheap (any_destroy L t m) = (case any_scratch t of None \<Rightarrow> mheap m | Some p \<Rightarrow> free p (mheap m))"
    by (cases t) (simp_all add: tcp_owner.destroy_heap mctp_owner.destroy_heap)
qed

interpretation any_contexts: transport_contexts
  "any_initialize L OS C" any_context any_scratch any_connected "any_destroy L" any_fd any_id
  for L OS C
proof unfold_locales
  fix t m ok t' m'
  assume heap: "heap_ok (mheap m)" and run: "any_initialize L OS C t m = (ok, t', m')"
  show "any_context t' \<in> {any_context t, None} \<union> Some ` (live (mheap m') - live (mheap m))"
  proof (cases t)
    case (AnyMctp t1)
    with run mctp_contexts.init_ctx [OF heap, of L OS C t1] show ?thesis
      by (auto split: prod.splits)
  next
    case (AnyTcp t1)
    with run tcp_contexts.init_ctx [OF heap, of L OS C t1] show ?thesis
      by (auto split: prod.splits)
  qed
next
  fix t m t' m'
  assume "any_initialize L OS C t m = (False, t', m')"
  then show "any_scratch t' \<in> {any_scratch t, None}"
    by (cases t) (auto split: prod.splits
        dest!: mctp_contexts.init_scratch_failed tcp_contexts.init_scratch_failed)
qed

text \<open>Applying the session configuration changes neither.\<close>

lemma applySecureSessionConfig_members:
  "scratchBuffer (fst (snd (applySecureSessionConfig L C t cfg w))) = scratchBuffer t"
  by (cases "spdmContext t")
    (simp_all add: applySecureSessionConfig_def applyVersionConfig_def Let_def split_beta)

lemma any_apply_owned [simp]:
  "any_fd (fst (snd (any_applySecureSessionConfig L C t cfg w))) = any_fd t"
  "any_scratch (fst (snd (any_applySecureSessionConfig L C t cfg w))) = any_scratch t"
  "any_id (fst (snd (any_applySecureSessionConfig L C t cfg w))) = any_id t"
proof -
  have io: "eid (fst (snd (applySecureSessionConfig L C t cfg w))) = eid t"
    "mctpIo (fst (snd (applySecureSessionConfig L C t cfg w))) = mctpIo t" for t :: mctp_transport
    by (cases "spdmContext t";
        simp add: applySecureSessionConfig_def applyVersionConfig_def Let_def split_beta)+
  have tcp: "tcpIo (fst (snd (applySecureSessionConfig L C t cfg w))) = tcpIo t" for t :: tcp_transport
    by (cases "spdmContext t")
      (simp_all add: applySecureSessionConfig_def applyVersionConfig_def Let_def split_beta)
  show "any_fd (fst (snd (any_applySecureSessionConfig L C t cfg w))) = any_fd t"
    "any_scratch (fst (snd (any_applySecureSessionConfig L C t cfg w))) = any_scratch t"
    "any_id (fst (snd (any_applySecureSessionConfig L C t cfg w))) = any_id t"
    by (cases t; simp add: split_beta io tcp applySecureSessionConfig_members tcp_id_def)+
qed

end
