(* ===== verification/Daemon_Main.thy ===== *)
theory Daemon_Main
  imports Daemon Transport_Resources
begin

text \<open>
  \<^verbatim>\<open>requester/spdmd.cpp\<close>, continued: \<open>main\<close> as a function. \<open>event\<close> is what the process may be
  woken by, \<open>handle\<close> the callback that then runs, and \<open>daemon_main\<close> is the whole of \<open>main\<close>, from the
  signal handlers to the destructors. The event loop itself, \<^verbatim>\<open>ctx.run()\<close>, belongs to the D-Bus library:
  which events it delivers while it runs, and whether it then returns, throws or goes on, are arguments
  of the model (\<open>events\<close> and \<open>run_end\<close>), and nothing is assumed of them but that one callback runs at a
  time. A signal that arrives while a callback runs only sets a flag of the context, so it is an event
  of its own. What the callbacks preserve is stated as \<open>keeps\<close>: the identity of the transports, the
  devices, and the ownership of resources.
\<close>

section \<open>Signals\<close>

text \<open>\<open>SIGOTHER\<close> stands for a signal without a handler whose default action ends the process.\<close>

datatype signal_no = SIGTERM | SIGINT | SIGOTHER

text \<open>Whether \<open>gCtx\<close> points to the context, whether it was asked to stop, and the handled signals.\<close>

record process =
  gCtx :: bool
  stop_requested :: bool
  handled :: "signal_no set"

definition process_init :: process where
  "process_init = \<lparr>gCtx = False, stop_requested = False, handled = {}\<rparr>"

definition signalHandler :: "process \<Rightarrow> process" where
  "signalHandler p = (if gCtx p then p\<lparr>stop_requested := True\<rparr> else p)"

definition setupSignalHandlers :: "process \<Rightarrow> process" where
  "setupSignalHandlers p = p\<lparr>gCtx := True, handled := insert SIGINT (insert SIGTERM (handled p))\<rparr>"

section \<open>The event loop\<close>

datatype 'w event =
    Discovery_reply bus_replies
  | Set_enabled bool
  | Set_secure bool
  | Get_measurements "(bytes, bytes, bytes, bytes) openssl" nat "u64 list" string u64
  | World_moves 'w
  | Signal signal_no

text \<open>
  What the process does on an event; \<open>None\<close> when it does not come back to the loop (an undefined call,
  or the default action of a signal). A reply that nobody waits
  for and a call on an object that is not there reach no code of the daemon.
\<close>

fun handle ::
    "'w env \<Rightarrow> 'w event \<Rightarrow> process \<times> ('w, 'j) daemon \<Rightarrow> (process \<times> ('w, 'j) daemon) option"
where
  "handle E (Discovery_reply replies) (p, d) =
     (if \<not> d_awaiting d then Some (p, d)
      else
        (case daemon_discover E replies (d_store (d_shared d)) of
           None \<Rightarrow> Some (p, d\<lparr>d_awaiting := False\<rparr>)
         | Some (devices, st) \<Rightarrow>
             Some (p, d\<lparr>d_awaiting := False,
                        d_shared := discovery_callback E (d_policy d) devices
                                      ((d_shared d)\<lparr>d_store := st\<rparr>)\<rparr>)))"
| "handle E (Set_enabled v) (p, d) =
     (let (_, policy, s) = set_property_enabled (daemon_callbacks E) v (d_policy d) (d_shared d)
      in Some (p, d\<lparr>d_policy := policy, d_shared := s\<rparr>))"
| "handle E (Set_secure v) (p, d) =
     (let (_, policy, s) =
        set_property_secure_session_enabled (daemon_callbacks E) v (d_policy d) (d_shared d)
      in Some (p, d\<lparr>d_policy := policy, d_shared := s\<rparr>))"
| "handle E (Get_measurements S k idxs nonce slotId) (p, d) =
     (if \<not> k < length (responders (d_shared d)) then Some (p, d)
      else
        (case measure_responder E S k idxs nonce slotId (d_shared d) of
           (Inr _, s) \<Rightarrow> Some (p, d\<lparr>d_shared := s\<rparr>)
         | _ \<Rightarrow> None))"
| "handle E (World_moves w) (p, d) =
     Some (p, d\<lparr>d_shared := (d_shared d)\<lparr>d_machine := put_world w (d_machine (d_shared d))\<rparr>\<rparr>)"
| "handle E (Signal sig) (p, d) = (if sig \<in> handled p then Some (signalHandler p, d) else None)"

text \<open>The callbacks that run while \<^verbatim>\<open>ctx.run()\<close> is active, one after the other.\<close>

fun run_events ::
    "'w env \<Rightarrow> 'w event list \<Rightarrow> process \<times> ('w, 'j) daemon \<Rightarrow> (process \<times> ('w, 'j) daemon) option"
where
  "run_events E [] pd = Some pd"
| "run_events E (event # events) pd =
     (case handle E event pd of
        None \<Rightarrow> None
      | Some pd \<Rightarrow> run_events E events pd)"

section \<open>main\<close>

datatype run_end = Run_returns | Run_throws | Run_goes_on

datatype ('w, 'j) main_result =
    Exit_failure process "'w machine"
  | Exit_success process "'w shared"
  | Uncaught
  | Running process "('w, 'j) daemon"
  | No_return

text \<open>
  \<open>named\<close> is whether \<^verbatim>\<open>request_name\<close> succeeds; it throws otherwise, and so may \<^verbatim>\<open>run\<close>: nothing in
  \<open>main\<close> catches that. The return after a failed load leaves \<open>gCtx\<close> as it is.
\<close>

definition daemon_main ::
    "'w env \<Rightarrow> 'j json_api \<Rightarrow> bytes option option \<Rightarrow> 'j policy \<Rightarrow> 'w machine \<Rightarrow> bool \<Rightarrow> 'w event list
     \<Rightarrow> run_end \<Rightarrow> ('w, 'j) main_result"
where
  "daemon_main E J file p0 m named events run_end =
     (let p = setupSignalHandlers process_init in
      case main_start J file p0 m of
        Load_failed \<Rightarrow> Exit_failure p m
      | Load_threw \<Rightarrow> Uncaught
      | Started d \<Rightarrow>
          if \<not> named then Uncaught
          else
            (case run_events E events (p, d) of
               None \<Rightarrow> No_return
             | Some (p, d) \<Rightarrow>
                 (case run_end of
                    Run_goes_on \<Rightarrow> Running p d
                  | Run_throws \<Rightarrow> Uncaught
                  | Run_returns \<Rightarrow>
                      Exit_success (p\<lparr>gCtx := False\<rparr>) (main_cleanup E (d_shared d)))))"

section \<open>Runs are sequences of steps\<close>

lemma handle_step:
  assumes run: "handle E event (p, d) = Some (p', d')"
  shows "d' = d \<or> step E d d'"
proof (cases event)
  case (Discovery_reply replies)
  show ?thesis
  proof (cases "d_awaiting d")
    case True
    with run show ?thesis
      by (cases "daemon_discover E replies (d_store (d_shared d))")
        (auto simp: Discovery_reply intro: step_discovered step_not_called)
  next
    case False
    with run show ?thesis
      by (simp add: Discovery_reply)
  qed
next
  case (Set_enabled v)
  obtain r q s where "set_property_enabled (daemon_callbacks E) v (d_policy d) (d_shared d) = (r, q, s)"
    by (metis prod_cases3)
  with run step_set_enabled [OF this] show ?thesis
    by (simp add: Set_enabled)
next
  case (Set_secure v)
  obtain r q s where "set_property_secure_session_enabled (daemon_callbacks E) v (d_policy d) (d_shared d) =
      (r, q, s)"
    by (metis prod_cases3)
  with run step_set_secure [OF this] show ?thesis
    by (simp add: Set_secure)
next
  case (Get_measurements S k idxs nonce slotId)
  show ?thesis
  proof (cases "k < length (responders (d_shared d))")
    case True
    with run obtain reply s where
      call: "measure_responder E S k idxs nonce slotId (d_shared d) = (Inr reply, s)"
      and d': "d' = d\<lparr>d_shared := s\<rparr>"
      by (auto simp: Get_measurements split: prod.splits sum.splits)
    show ?thesis
      unfolding d' using step_measure [OF True call] by simp
  next
    case False
    with run show ?thesis
      by (simp add: Get_measurements)
  qed
next
  case (World_moves w)
  with run step_world [of E d w] show ?thesis
    by simp
next
  case (Signal sig)
  with run show ?thesis
    by (simp split: if_splits)
qed

text \<open>A handled signal is all that changes the process.\<close>

definition process_ok :: "process \<Rightarrow> bool" where
  "process_ok p \<longleftrightarrow> gCtx p \<and> handled p = {SIGINT, SIGTERM}"

lemma handle_no_signal:
  assumes "handle E event (p, d) = Some (p', d')"
  shows "p' = p \<or> (\<exists>sig. event = Signal sig \<and> p' = signalHandler p)"
proof (cases event)
  case (Discovery_reply replies)
  with assms show ?thesis
    by (cases "d_awaiting d"; cases "daemon_discover E replies (d_store (d_shared d))") auto
next
  case (Get_measurements S k idxs nonce slotId)
  with assms show ?thesis
    by (cases "k < length (responders (d_shared d))") (simp_all split: prod.splits sum.splits)
qed (use assms in \<open>simp_all add: split_beta split: if_splits\<close>)

lemma signal_process_ok: "process_ok p \<Longrightarrow> process_ok (signalHandler p)"
  by (simp add: process_ok_def signalHandler_def)

lemma handle_process_ok: "handle E event (p, d) = Some (p', d') \<Longrightarrow> process_ok p \<Longrightarrow> process_ok p'"
  using handle_no_signal [of E event p d p' d'] signal_process_ok [of p] by metis

lemma setup_process_ok: "process_ok (setupSignalHandlers process_init)"
  by (simp add: process_ok_def setupSignalHandlers_def process_init_def)

lemma run_events_induct [consumes 1, case_names start event]:
  assumes "run_events E events (p, d) = Some (p', d')"
    and "P p d"
    and "\<And>event p d p' d'. P p d \<Longrightarrow> handle E event (p, d) = Some (p', d') \<Longrightarrow> P p' d'"
  shows "P p' d'"
  using assms(1,2)
proof (induction events arbitrary: p d)
  case (Cons e es)
  then obtain p1 d1 where 1: "handle E e (p, d) = Some (p1, d1)"
    by (cases "handle E e (p, d)") auto
  with Cons.prems have "run_events E es (p1, d1) = Some (p', d')" "P p1 d1"
    using assms(3) by auto
  then show ?case
    by (rule Cons.IH)
qed simp

lemma run_events_steps:
  assumes "run_events E events (p, d) = Some (p', d')"
  shows "(step E)\<^sup>*\<^sup>* d d'"
  using assms
proof (induction rule: run_events_induct)
  case (event event p1 d1 p2 d2)
  then show ?case
    by (auto dest: handle_step intro: rtranclp.rtrancl_into_rtrancl)
qed simp

lemma steps_reachable: "(step E)\<^sup>*\<^sup>* d d' \<Longrightarrow> reachable E J d \<Longrightarrow> reachable E J d'"
  by (induction rule: rtranclp_induct) (auto intro: reachable_step)

text \<open>The context was asked to stop exactly when one of the handled signals arrived.\<close>

lemma run_events_stop:
  "run_events E events (p, d) = Some (p', d') \<Longrightarrow> process_ok p \<Longrightarrow>
   process_ok p' \<and> (stop_requested p' \<longleftrightarrow>
     stop_requested p \<or> Signal SIGTERM \<in> set events \<or> Signal SIGINT \<in> set events)"
proof (induction events arbitrary: p d)
  case (Cons e es)
  then obtain p1 d1 where 1: "handle E e (p, d) = Some (p1, d1)"
    by (cases "handle E e (p, d)") auto
  have stop: "stop_requested p1 \<longleftrightarrow> stop_requested p \<or> e = Signal SIGTERM \<or> e = Signal SIGINT"
  proof (cases "\<exists>sig. e = Signal sig")
    case True
    then obtain sig where e: "e = Signal sig"
      by blast
    have "gCtx p" "handled p = {SIGINT, SIGTERM}"
      using Cons.prems(2) by (simp_all add: process_ok_def)
    with 1 have "sig \<in> {SIGINT, SIGTERM}" "p1 = p\<lparr>stop_requested := True\<rparr>"
      by (simp_all add: e signalHandler_def split: if_splits)
    with e show ?thesis
      by auto
  next
    case False
    then have "p1 = p"
      using handle_no_signal [OF 1] by blast
    with False show ?thesis
      by blast
  qed
  from 1 Cons.prems have "run_events E es (p1, d1) = Some (p', d')" "process_ok p1"
    using handle_process_ok [OF 1] by simp_all
  from Cons.IH [OF this] stop show ?case
    by auto
qed simp

section \<open>What every callback keeps\<close>

definition shared_owns :: "int set \<Rightarrow> 'w shared \<Rightarrow> bool" where
  "shared_owns base s \<longleftrightarrow>
     store_owns any_fd any_scratch base (d_store s) (d_machine s) \<and>
     separate any_context any_scratch (d_store s) (mheap (d_machine s))"

definition keeps :: "'w shared \<Rightarrow> 'w shared \<Rightarrow> bool" where
  "keeps s s' \<longleftrightarrow>
     map any_id (d_store s') = map any_id (d_store s) \<and>
     discoveredDevices s' = discoveredDevices s \<and>
     (\<forall>base. shared_owns base s \<longrightarrow> shared_owns base s')"

lemma keeps_refl [intro, simp]: "keeps s s"
  by (simp add: keeps_def)

lemma keeps_trans [trans]: "keeps s1 s2 \<Longrightarrow> keeps s2 s3 \<Longrightarrow> keeps s1 s3"
  by (simp add: keeps_def)

lemma keeps_length: "keeps s s' \<Longrightarrow> length (d_store s') = length (d_store s)"
  by (metis keeps_def length_map)

text \<open>The responders and the world belong to nobody else.\<close>

lemma keeps_responders:
  "keeps s (s\<lparr>responders := rs, d_machine := put_world w (d_machine s)\<rparr>)"
  by (simp add: keeps_def shared_owns_def store_owns_def put_world_def)

lemma prepare_transport_keeps:
  assumes run: "prepare_transport E device (d_store s) (d_machine s) = (ready, st, m)"
    and i: "ri_transport device = Some i" "i < length (d_store s)"
  shows "keeps s (s\<lparr>d_store := st, d_machine := m\<rparr>)"
proof -
  obtain ok t m1 where init:
    "any_initialize (env_lib E) (env_os E) (env_consts E) (d_store s ! i) (d_machine s) = (ok, t, m1)"
    by (metis prod_cases3)
  let ?s1 = "s\<lparr>d_store := (d_store s)[i := t], d_machine := m1\<rparr>"
  have "any_id t = any_id (d_store s ! i)"
    using any_owner.init_ident [OF init] .
  then have "map any_id ((d_store s)[i := t]) = map any_id (d_store s)"
    by (simp add: map_update list_update_same_conv i)
  then have 1: "keeps s ?s1"
    using any_owner.init_store_owns [OF _ i(2) init] any_contexts.init_separate [OF _ _ i(2) init]
    by (simp add: keeps_def shared_owns_def) blast
  show ?thesis
  proof (cases ok)
    case False
    with run init i 1 show ?thesis
      by (simp add: prepare_transport_def)
  next
    case True
    let ?a = "any_applySecureSessionConfig (env_lib E) (env_consts E) t (sessionCfg E) (world m1)"
    let ?t = "fst (snd ?a)"
    have "store_owns any_fd any_scratch base (((d_store s)[i := t])[i := ?t]) (put_world (snd (snd ?a)) m1)"
      if "store_owns any_fd any_scratch base ((d_store s)[i := t]) m1" for base
      using store_owns_same [OF that, of ?t i] i
      by (simp add: store_owns_def put_world_def)
    moreover have "separate any_context any_scratch (((d_store s)[i := t])[i := ?t]) h"
      if "separate any_context any_scratch ((d_store s)[i := t]) h" for h
      using separate_same [OF that, of ?t i] i by simp
    moreover have "map any_id (((d_store s)[i := t])[i := ?t]) = map any_id ((d_store s)[i := t])"
      by (simp add: map_update i)
    ultimately have "keeps ?s1 (?s1\<lparr>d_store := ((d_store s)[i := t])[i := ?t],
        d_machine := put_world (snd (snd ?a)) m1\<rparr>)"
      by (simp add: keeps_def shared_owns_def)
    then have "keeps s (?s1\<lparr>d_store := (d_store s)[i := ?t], d_machine := put_world (snd (snd ?a)) m1\<rparr>)"
      using keeps_trans [OF 1] by simp
    moreover have "st = (d_store s)[i := ?t]" "m = put_world (snd (snd ?a)) m1"
      using run init i True by (auto simp: prepare_transport_def split_beta Let_def split: if_splits)
    ultimately show ?thesis
      by simp
  qed
qed

lemma process_device_ready:
  assumes prep: "prepare_transport E device (d_store s) (d_machine s) = (True, st, m)"
  shows "\<exists>rs w. process_device E sec device s =
    s\<lparr>d_store := st, responders := rs, d_machine := put_world w m\<rparr>"
proof -
  obtain e w where new: "responder_new (env_lib E) (env_filename E) (env_add_object E)
      (bus_objects (responders s)) (env_now E (world m)) (env_attach E) st device (world m) = (e, w)"
    by fastforce
  show ?thesis
  proof (cases e)
    case (Inl x)
    with prep new have "process_device E sec device s =
        s\<lparr>d_store := st, responders := responders s, d_machine := put_world w m\<rparr>"
      by (simp add: process_device_def Let_def)
    then show ?thesis
      by blast
  next
    case (Inr r)
    let ?o = "if ri_transport device \<noteq> None \<and> sec then open_and_heartbeat E st r w else (r, w)"
    from Inr prep new have "process_device E sec device s =
        s\<lparr>d_store := st, responders := responders s @ [fst ?o], d_machine := put_world (snd ?o) m\<rparr>"
      by (simp add: process_device_def split_beta Let_def)
    then show ?thesis
      by blast
  qed
qed

lemma process_device_keeps:
  assumes i: "ri_transport device = Some i" "i < length (d_store s)"
  shows "keeps s (process_device E sec device s)"
proof -
  obtain ready st m where prep: "prepare_transport E device (d_store s) (d_machine s) = (ready, st, m)"
    by (metis prod_cases3)
  let ?s1 = "s\<lparr>d_store := st, d_machine := m\<rparr>"
  note 1 = prepare_transport_keeps [OF prep i]
  show ?thesis
  proof (cases ready)
    case True
    with prep have "prepare_transport E device (d_store s) (d_machine s) = (True, st, m)"
      by simp
    from process_device_ready [OF this, of sec] obtain rs w where
      "process_device E sec device s = ?s1\<lparr>responders := rs, d_machine := put_world w m\<rparr>"
      by auto
    with keeps_trans [OF 1 keeps_responders [where s = ?s1 and rs = rs and w = w]] show ?thesis
      by simp
  next
    case False
    with prep 1 show ?thesis
      by (simp add: process_device_def Let_def)
  qed
qed

lemma process_devices_keeps:
  "list_all (\<lambda>d. \<exists>i < length (d_store s). ri_transport d = Some i) devices \<Longrightarrow>
   keeps s (fold (process_device E sec) devices s)"
proof (induction devices arbitrary: s)
  case (Cons d ds)
  then obtain i where i: "ri_transport d = Some i" "i < length (d_store s)"
    by auto
  note 1 = process_device_keeps [OF i, of E sec]
  with Cons have "keeps (process_device E sec d s) (fold (process_device E sec) ds (process_device E sec d s))"
    using keeps_length [OF 1] by simp
  with keeps_trans [OF 1] show ?case
    by simp
qed simp

lemma tearDown_keeps: "keeps s (tearDownResponders E s)"
  by (simp add: tearDownResponders_def split_beta Let_def keeps_responders)

lemma processDiscoveredDevices_keeps:
  assumes "devices_ok (d_store s) devices"
  shows "keeps s (processDiscoveredDevices E devices sec s)"
proof (cases "devices = []")
  case True
  then show ?thesis
    by (simp add: processDiscoveredDevices_def tearDown_keeps)
next
  case False
  have "list_all (\<lambda>d. \<exists>i < length (d_store (tearDownResponders E s)). ri_transport d = Some i) devices"
    using assms by (auto simp: devices_ok_def list_all_iff)
  from keeps_trans [OF tearDown_keeps process_devices_keeps [OF this]] False show ?thesis
    by (simp add: processDiscoveredDevices_def Let_def)
qed

lemma enabled_callback_keeps:
  assumes "devices_ok (d_store s) (discoveredDevices s)"
  shows "keeps s (enabled_callback E old new policy s)"
  using processDiscoveredDevices_keeps [OF assms] by (simp add: enabled_callback_def tearDown_keeps)

lemma secure_callback_keeps: "keeps s (secure_callback E old new policy s)"
  by (simp add: secure_callback_def split_beta keeps_responders)

lemma set_enabled_keeps:
  assumes "devices_ok (d_store s) (discoveredDevices s)"
    and "set_property_enabled (daemon_callbacks E) v policy s = (r, p, s')"
  shows "keeps s s'"
  using assms(2) enabled_callback_keeps [OF assms(1)]
  by (auto simp: set_property_enabled_def daemon_callbacks_def registerEnabledChangeCallback_def
      registerSecureSessionEnabledChangeCallback_def Let_def split: if_splits)

lemma set_secure_keeps:
  assumes "set_property_secure_session_enabled (daemon_callbacks E) v policy s = (r, p, s')"
  shows "keeps s s'"
  using assms
  by (auto simp: set_property_secure_session_enabled_def daemon_callbacks_def
      registerEnabledChangeCallback_def registerSecureSessionEnabledChangeCallback_def Let_def
      intro: secure_callback_keeps split: if_splits)

lemma measure_keeps:
  assumes "measure_responder E S k idxs nonce slotId s = (reply, s')"
  shows "keeps s s'"
  using assms by (auto simp: measure_responder_def Let_def keeps_responders split: prod.splits)

section \<open>The type of a device\<close>

text \<open>
  What the data of a device says about its transport: an EID becomes the byte it was read from, a
  port the 16 bits the transport takes.
\<close>

fun data_id :: "responder_data \<Rightarrow> transport_id" where
  "data_id (MctpData e uuid) = Mctp_id (ucast e)"
| "data_id (TcpData ip p) = Tcp_id ip (ucast p)"

fun data_type :: "responder_data \<Rightarrow> TransportType" where
  "data_type (MctpData e uuid) = MCTP"
| "data_type (TcpData ip p) = TCP"

fun data_ok :: "responder_data \<Rightarrow> bool" where
  "data_ok (MctpData e uuid) = (e < 255 \<and> uuid \<noteq> '''')"
| "data_ok (TcpData ip p) = (ip \<noteq> '''' \<and> p \<noteq> 0)"

definition device_typed :: "transport_id list \<Rightarrow> responder_info \<Rightarrow> bool" where
  "device_typed ids d \<longleftrightarrow>
     transportType d = data_type (responderData d) \<and> data_ok (responderData d) \<and>
     (\<exists>i < length ids. ri_transport d = Some i \<and> ids ! i = data_id (responderData d))"

lemma device_typed_append: "device_typed ids d \<Longrightarrow> device_typed (ids @ ids') d"
  by (auto simp: device_typed_def nth_append)

text \<open>What a factory makes has a type when its transport is put where it is told.\<close>

definition entry_typed :: "(tref \<Rightarrow> responder_info) \<times> any_transport \<Rightarrow> bool" where
  "entry_typed mt \<longleftrightarrow>
     (\<forall>ids r. length ids = r \<longrightarrow> device_typed (ids @ [any_id (snd mt)]) (fst mt r))"

lemma numbered_typed:
  "list_all entry_typed sel \<Longrightarrow>
   list_all (device_typed (map any_id (st @ map snd sel))) (numbered (length st) sel)"
proof (induction sel arbitrary: st)
  case Nil
  then show ?case
    by (simp add: numbered_def)
next
  case (Cons mt sel)
  obtain mk t where mt: "mt = (mk, t)"
    by fastforce
  from Cons.prems have "device_typed (map any_id st @ [any_id t]) (mk (length st))"
    by (metis entry_typed_def fst_conv length_map list.pred_inject(2) mt snd_conv)
  from device_typed_append [OF this, of "map any_id (map snd sel)"] Cons.IH [of "st @ [t]"] Cons.prems
  show ?case
    by (simp add: mt numbered_Cons)
qed

lemma process_objects_typed:
  assumes "makes create device" and "\<And>i p mt. device i p = Some mt \<Longrightarrow> entry_typed mt"
    and run: "process_objects create mo [] st = (devices, st')"
  shows "list_all (device_typed (map any_id st')) devices"
proof -
  have "list_all entry_typed (selected device mo)"
    using assms(2) selected_mem by (fastforce simp: list_all_iff)
  moreover have "devices = numbered (length st) (selected device mo)" "st' = st @ map snd (selected device mo)"
    using run process_objects_selected [OF assms(1), of mo "[]" st] by auto
  ultimately show ?thesis
    by (simp only: numbered_typed)
qed

lemma byte_below:
  assumes "e \<noteq> 255"
  shows "(ucast (e :: byte) :: u64) < 255"
proof -
  have "(- 1 :: byte) = 255"
    by simp
  with assms have "e < 255"
    by (metis word_order.not_eq_extremum)
  then have "unat e < 255"
    by (simp add: word_less_nat_alt)
  then have "unat (ucast e :: u64) < 255"
    by (simp add: unsigned_ucast_eq take_bit_nat_eq_self)
  then show ?thesis
    by (simp add: word_less_nat_alt)
qed

lemma mctp_device_typed: "mctp_device C interfaces path = Some mt \<Longrightarrow> entry_typed mt"
  by (auto simp: mctp_device_def entry_typed_def device_typed_def mctp_transport_init_def
      spdm_transport.defs byte_below split: option.splits DbusPropertyValue.splits if_splits)

lemma tcp_device_typed: "tcp_device C interfaces path = Some mt \<Longrightarrow> entry_typed mt"
  by (auto simp: tcp_device_def entry_typed_def device_typed_def tcp_id_def tcp_transport_init_def
      tcp_io_init_def spdm_transport.defs split: option.splits if_splits)

lemma em_search_typed [simp]: "device_typed ids (em_search d mo) = device_typed ids d"
  by (induction d mo rule: em_search.induct)
    (auto simp: device_typed_def split: option.split DbusPropertyValue.split responder_data.split)

lemma mctp_discover_typed:
  assumes run: "mctp_discoverDevices C asyncCtx replies st = Some (devices, st')"
  shows "list_all (device_typed (map any_id st')) devices"
proof (cases "devices = []")
  case False
  obtain o1 reply o2 em_reply where r: "replies = ((o1, reply), (o2, em_reply))"
    by (metis surj_pair)
  from run False obtain mo em where
    "devices = parseSpdmEMConfig (fst (mctp_processManagedObjects C mo st)) em"
    "st' = snd (mctp_processManagedObjects C mo st)"
    unfolding r mctp_discoverDevices_result by (auto split: if_splits option.splits)
  moreover have "list_all (device_typed (map any_id (snd (mctp_processManagedObjects C mo st))))
      (fst (mctp_processManagedObjects C mo st))"
    by (rule process_objects_typed [where device = "mctp_device C", OF mctp_makes])
      (rule mctp_device_typed, assumption, simp add: mctp_processManagedObjects_def)
  ultimately show ?thesis
    by (simp add: parseSpdmEMConfig_def list_all_iff)
qed simp

lemma tcp_discover_typed:
  assumes run: "tcp_discoverDevices C asyncCtx reply st = Some (devices, st')"
  shows "list_all (device_typed (map any_id st')) devices"
proof (cases "devices = []")
  case False
  with run obtain mo where "tcp_processManagedObjects C mo st = (devices, st')"
    by (cases reply) (auto simp: tcp_discoverDevices_result split: if_splits option.splits)
  then show ?thesis
    unfolding tcp_processManagedObjects_def
    by (rule process_objects_typed [where device = "tcp_device C", OF tcp_makes, rotated])
      (rule tcp_device_typed)
qed simp

lemma daemon_discover_result:
  assumes "daemon_discover E replies st = Some (devices, st')"
  shows "list_all (device_typed (map any_id st')) devices \<and>
    (\<exists>new. st' = st @ new \<and> list_all fresh_transport new)"
proof (cases replies)
  case (Mctp_replies q em)
  with assms have run: "mctp_discoverDevices (env_consts E) (env_asyncCtx E) (q, em) st = Some (devices, st')"
    by simp
  from mctp_discover_typed [OF run] mctp_discovery.found [OF run] show ?thesis
    by blast
next
  case (Tcp_reply q)
  with assms have run: "tcp_discoverDevices (env_consts E) (env_asyncCtx E) q st = Some (devices, st')"
    by simp
  from tcp_discover_typed [OF run] tcp_discovery.found [OF run] show ?thesis
    by blast
qed

lemma fresh_owns:
  assumes "list_all fresh_transport new"
  shows "store_owns any_fd any_scratch base st m \<Longrightarrow> store_owns any_fd any_scratch base (st @ new) m"
    and "separate any_context any_scratch st h \<Longrightarrow> separate any_context any_scratch (st @ new) h"
  using assms
  by (auto intro!: store_owns_append separate_append simp: list_all_iff fresh_transport_def)

section \<open>The second invariant\<close>

text \<open>
  With \<open>base\<close> the descriptors that were open before: the transports own everything since, and each
  device has the type of its transport.
\<close>

definition daemon_owns :: "int set \<Rightarrow> ('w, 'j) daemon \<Rightarrow> bool" where
  "daemon_owns base d \<longleftrightarrow>
     shared_owns base (d_shared d) \<and>
     list_all (device_typed (map any_id (d_store (d_shared d)))) (discoveredDevices (d_shared d))"

lemma keeps_owns:
  "daemon_owns base d \<Longrightarrow> keeps (d_shared d) s \<Longrightarrow> d_shared d' = s \<Longrightarrow> daemon_owns base d'"
  by (simp add: daemon_owns_def keeps_def)

lemma discovery_callback_keeps:
  assumes "devices_ok (d_store s) devices"
  shows "keeps (s\<lparr>discoveredDevices := devices\<rparr>) (discovery_callback E policy devices s)"
  using processDiscoveredDevices_keeps [of "s\<lparr>discoveredDevices := devices\<rparr>" devices] assms
  by (simp add: discovery_callback_def Let_def)

lemma step_owns:
  assumes "step E d d'" and ok: "daemon_ok d" and owns: "daemon_owns base d"
  shows "daemon_owns base d'"
proof -
  let ?s = "d_shared d"
  have devices: "devices_ok (d_store ?s) (discoveredDevices ?s)"
    using ok by (simp add: daemon_ok_def shared_ok_def)
  show ?thesis
    using assms(1)
  proof cases
    case (step_discovered replies devices st)
    let ?s1 = "?s\<lparr>d_store := st, discoveredDevices := devices\<rparr>"
    note found = daemon_discover_result [OF step_discovered(3)]
    with owns have "daemon_owns base (d\<lparr>d_shared := ?s1\<rparr>)"
      using fresh_owns by (auto simp: daemon_owns_def shared_owns_def)
    moreover have "keeps ?s1 (discovery_callback E (d_policy d) devices (?s\<lparr>d_store := st\<rparr>))"
      using discovery_callback_keeps [of "?s\<lparr>d_store := st\<rparr>" devices E "d_policy d"]
        daemon_discover_ok [OF step_discovered(3)] by simp
    ultimately show ?thesis
      by (simp add: step_discovered(1) daemon_owns_def keeps_def)
  next
    case step_not_called
    with owns show ?thesis
      by (simp add: daemon_owns_def)
  next
    case (step_set_enabled v r p s)
    show ?thesis
      by (rule keeps_owns [OF owns set_enabled_keeps [OF devices step_set_enabled(2)]]) (simp add: step_set_enabled(1))
  next
    case (step_set_secure v r p s)
    show ?thesis
      by (rule keeps_owns [OF owns set_secure_keeps [OF step_set_secure(2)]]) (simp add: step_set_secure(1))
  next
    case (step_measure k S idxs nonce slotId reply s)
    show ?thesis
      by (rule keeps_owns [OF owns measure_keeps [OF step_measure(3)]]) (simp add: step_measure(1))
  next
    case (step_world w)
    with owns show ?thesis
      by (simp add: daemon_owns_def shared_owns_def store_owns_def put_world_def)
  qed
qed

lemma owns_start:
  assumes "heap_ok (mheap m)" and "main_start J file p0 m = Started d"
  shows "daemon_owns (open_fds (mkernel m)) d"
  using main_start_result [OF assms(2)] assms(1)
  by (simp add: daemon_owns_def shared_owns_def store_owns_def separate_def fds_of_def scratches_def)

lemma steps_owns:
  assumes "(step E)\<^sup>*\<^sup>* d d'" and "daemon_ok d" "daemon_owns base d"
  shows "daemon_ok d' \<and> daemon_owns base d'"
  using assms by induction (auto intro: step_ok step_owns)

lemma reachable_owns: "reachable E J d \<Longrightarrow> \<exists>base. daemon_owns base d"
proof (induction rule: reachable.induct)
  case (reachable_step d d')
  with step_owns reachable_ok show ?case
    by blast
qed (auto intro: owns_start)

lemma cleanup_owns:
  assumes "shared_owns base s"
  shows "heap_ok (mheap (d_machine (main_cleanup E s))) \<and>
    live (mheap (d_machine (main_cleanup E s))) =
      live (mheap (d_machine s)) - scratches any_scratch (d_store s) \<and>
    open_fds (mkernel (d_machine (main_cleanup E s))) \<subseteq> base"
proof -
  let ?w = "clear_responders (env_lib E) (d_store s) (responders s) (world (d_machine s))"
  have "store_owns any_fd any_scratch base (d_store s) (put_world ?w (d_machine s))"
    using assms by (simp add: shared_owns_def store_owns_def put_world_def)
  from any_owner.destroy_all [OF this, where L = "env_lib E"] show ?thesis
    by (simp add: main_cleanup_def store_owns_def fds_of_def Let_def)
qed

text \<open>The context of a transport is not one of the blocks that its destructor frees.\<close>

lemma contexts_left:
  assumes "shared_owns base s" and "t \<in> set (d_store s)"
  shows "set_option (any_context t) \<subseteq> live (mheap (d_machine s)) - scratches any_scratch (d_store s)"
proof -
  have "set_option (any_context t) \<subseteq> scratches any_context (d_store s)"
    using assms(2) by (auto simp: scratches_def)
  with assms(1) show ?thesis
    by (auto simp: shared_owns_def separate_def)
qed

lemma open_inactive_active:
  assumes "secure_device E" and "list_all (responder_ok st) rs"
  shows "list_all secureSessionActive (fst (open_inactive E st rs w))"
  using assms(2)
proof (induction rs arbitrary: w)
  case (Cons r rs)
  then obtain i c where "r_transport r = Some i" "any_context (st ! i) = Some c"
    by (auto simp: responder_ok_def)
  from secure_open_active [OF assms(1) this] Cons show ?case
    by (simp add: split_beta)
qed simp

section \<open>Blocks of the devices\<close>

text \<open>When every call succeeds, each device costs two blocks, whatever its transport had before.\<close>

lemma cooperative_prepare_blocks:
  assumes coop: "cooperative E" and i: "ri_transport device = Some i" "i < length st"
  shows "\<exists>st' m'. prepare_transport E device st m = (True, st', m') \<and>
    mheap m' = snd (malloc True (snd (malloc True (mheap m)))) \<and>
    any_context (st' ! i) = Some (brk (mheap m)) \<and> any_scratch (st' ! i) = Some (Suc (brk (mheap m)))"
proof -
  obtain t m1 where init:
    "any_initialize (env_lib E) (env_os E) (env_consts E) (st ! i) m = (True, t, m1)"
    using cooperative_initialize [OF coop, of "st ! i" m] by (metis (full_types) prod.collapse)
  note blocks = any_life.init_success [OF init]
  from cooperative_prepare [OF coop i, of m] obtain st' m' where
    prep: "prepare_transport E device st m = (True, st', m')"
    by (metis (full_types) prod.collapse)
  let ?a = "any_applySecureSessionConfig (env_lib E) (env_consts E) t (sessionCfg E) (world m1)"
  from prep init i have "st' = st[i := fst (snd ?a)]" "mheap m' = mheap m1"
    by (auto simp: prepare_transport_def split_beta Let_def split: if_splits)
  with prep blocks i show ?thesis
    by simp
qed

definition device_blocks :: "store \<Rightarrow> responder_info \<Rightarrow> ptr set" where
  "device_blocks st device =
     (case ri_transport device of
        None \<Rightarrow> {}
      | Some i \<Rightarrow> set_option (any_context (st ! i)) \<union> set_option (any_scratch (st ! i)))"

lemma cooperative_device_blocks:
  assumes coop: "cooperative E" and i: "ri_transport device = Some i" "i < length (d_store s)"
    and h: "h = mheap (d_machine s)" and s': "s' = process_device E sec device s"
  shows "live (mheap (d_machine s')) = {brk h, Suc (brk h)} \<union> live h \<and>
    brk (mheap (d_machine s')) = brk h + 2 \<and> device_blocks (d_store s') device = {brk h, Suc (brk h)}"
proof -
  from cooperative_prepare_blocks [OF coop i, of "d_machine s"] obtain st m where
    prep: "prepare_transport E device (d_store s) (d_machine s) = (True, st, m)"
    and heap: "mheap m = snd (malloc True (snd (malloc True h)))"
    and ptrs: "any_context (st ! i) = Some (brk h)" "any_scratch (st ! i) = Some (Suc (brk h))"
    unfolding h by blast
  from process_device_ready [OF prep, of sec] s' have "d_store s' = st" "mheap (d_machine s') = mheap m"
    by auto
  with heap ptrs i show ?thesis
    by (auto simp: malloc_works device_blocks_def)
qed

lemma cooperative_devices_blocks:
  assumes coop: "cooperative E" and "devices_ok (d_store s) devices" "heap_ok (mheap (d_machine s))"
    and "h = mheap (d_machine s)" and "s' = fold (process_device E sec) devices s"
  shows "live (mheap (d_machine s')) = live h \<union> {brk h..<brk h + 2 * length devices} \<and>
    (\<Union>d \<in> set devices. device_blocks (d_store s') d) = {brk h..<brk h + 2 * length devices}"
  using assms(2-)
proof (induction devices arbitrary: s h)
  case Nil
  then show ?case
    by simp
next
  case (Cons d ds)
  from Cons.prems(1) obtain i where i: "ri_transport d = Some i" "i < length (d_store s)"
    and d_new: "ri_transport d \<notin> set (refs ds)"
    by (auto simp: devices_ok_def refs_def)
  let ?s1 = "process_device E sec d s"
  let ?h1 = "mheap (d_machine ?s1)"
  note blocks = cooperative_device_blocks [OF coop i Cons.prems(3) refl, of sec]
  note one = process_device_result [OF i Cons.prems(2) refl, of E sec]
  then have ok1: "devices_ok (d_store ?s1) ds" "heap_ok ?h1"
    using Cons.prems(1) by (auto simp: devices_ok_def refs_def)
  have s': "s' = fold (process_device E sec) ds ?s1"
    using Cons.prems(4) by simp
  have "d_store s' ! i = d_store ?s1 ! i"
    using process_devices_result [OF ok1 s'] d_new i by simp
  then have "device_blocks (d_store s') d = {brk h, Suc (brk h)}"
    using blocks i by (simp add: device_blocks_def)
  moreover have "{brk h..<brk h + 2 * length (d # ds)} =
      {brk h, Suc (brk h)} \<union> {brk ?h1..<brk ?h1 + 2 * length ds}"
    using blocks by auto
  ultimately show ?case
    using Cons.IH [OF ok1 refl s'] blocks by auto
qed

text \<open>The example of the daemon, run from the start: its device is found and the policy enabled.\<close>

definition example_events :: "unit event list" where
  "example_events = [Discovery_reply (Tcp_reply (Then_first, Some example_tcp_objects)), Set_enabled True]"

lemma example_found_event:
  "handle example_env (Discovery_reply (Tcp_reply (Then_first, Some example_tcp_objects)))
     (p, \<lparr>d_policy = example_policy,
          d_shared = example_found\<lparr>d_store := [], discoveredDevices := []\<rparr>, d_awaiting = True\<rparr>) =
   Some (p, example_disabled)"
  by (simp add: example_env_def example_tcp_discovery example_device_def discovery_callback_def
      example_policy_def example_disabled_def example_found_def)

lemma example_start:
  "main_start example_json None example_policy (d_machine example_found) =
     Started \<lparr>d_policy = example_policy,
       d_shared = example_found\<lparr>d_store := [], discoveredDevices := []\<rparr>, d_awaiting = True\<rparr>"
  by (simp add: main_start_def load_def example_found_def)

lemma example_exit:
  "\<exists>p s. daemon_main example_env example_json None example_policy (d_machine example_found) True
     (example_events @ [Signal SIGTERM]) Run_returns = Exit_success p s"
proof -
  let ?p = "setupSignalHandlers process_init"
  obtain d where "handle example_env (Set_enabled True) (?p, example_disabled) = Some (?p, d)"
    by (simp add: split_beta)
  moreover have "SIGTERM \<in> handled ?p"
    by (simp add: setupSignalHandlers_def)
  then have "handle example_env (Signal SIGTERM) (?p, d) = Some (signalHandler ?p, d)"
    by simp
  ultimately show ?thesis
    unfolding daemon_main_def example_events_def
    by (simp add: example_start example_found_event del: handle.simps)
qed

lemma example_enabled:
  "\<exists>r s. set_property_enabled (daemon_callbacks example_env) True example_policy example_found =
       (r, example_policy\<lparr>pm_enabled := True\<rparr>, s) \<and> map responder_key (responders s) = [(''/a'', Some 0)]"
proof -
  obtain r p s where set:
    "set_property_enabled (daemon_callbacks example_env) True example_policy example_found = (r, p, s)"
    by (metis prod_cases3)
  then have "p = example_policy\<lparr>pm_enabled := True\<rparr>"
    by (simp add: set_property_enabled_def Let_def)
  with set enable_cooperative [OF example_reachable example_cooperative example_sd_bus, of r p s]
    example_published show ?thesis
    by (simp add: example_disabled_def example_policy_def example_found_def device_key_def
        example_device_def)
qed

lemma example_on:
  "\<exists>d. reachable example_env example_json d \<and> pm_enabled (d_policy d) \<and>
     pm_secure_session_enabled (d_policy d) \<and> discoveredDevices (d_shared d) = [example_device] \<and>
     map responder_key (responders (d_shared d)) = [(''/a'', Some 0)]"
proof -
  let ?on = "example_policy\<lparr>pm_enabled := True\<rparr>"
  obtain r s where on: "set_property_enabled (daemon_callbacks example_env) True example_policy example_found =
      (r, ?on, s)" and keys: "map responder_key (responders s) = [(''/a'', Some 0)]"
    using example_enabled by (elim exE conjE)
  let ?d1 = "example_disabled\<lparr>d_policy := ?on, d_shared := s\<rparr>"
  have "step example_env example_disabled ?d1"
    by (rule step_set_enabled [where v = True and r = r]) (simp add: example_disabled_def on)
  with example_reachable have 1: "reachable example_env example_json ?d1"
    by (rule reachable_step)
  have "devices_ok (d_store example_found) (discoveredDevices example_found)"
    by (simp add: devices_ok_def refs_def example_found_def example_device_def)
  from set_enabled_keeps [OF this on] have "discoveredDevices s = [example_device]"
    by (simp add: keeps_def example_found_def)
  with keys 1 show ?thesis
    by (intro exI [of _ ?d1]) (simp add: example_policy_def)
qed

section \<open>Properties\<close>

text \<open>
  C4. What \<open>main\<close> leaves behind. When it returns with success after any sequence of events, no
  descriptor is open that was not open when it started, no block was freed twice, and of the blocks
  that were live when the loop ended exactly the scratch buffers of the transports are freed: what is
  left are the context and message blocks, which nothing frees. The context had been asked to stop
  exactly when a \<open>SIGTERM\<close> or \<open>SIGINT\<close> arrived, and a signal that still arrives does nothing. When it
  returns with failure, it leaves the machine as it was, but the handlers are installed and \<open>gCtx\<close> still
  points to the context that is destroyed, so that a late signal is passed on to it.
\<close>

theorem daemon_shutdown_clean:
  assumes heap: "heap_ok (mheap m)"
  shows "case daemon_main E J cache p0 m named events run_end of
      Exit_success p s \<Rightarrow>
        \<exists>d. reachable E J d \<and> open_fds (mkernel (d_machine s)) \<subseteq> open_fds (mkernel m) \<and>
          heap_ok (mheap (d_machine s)) \<and>
          live (mheap (d_machine s)) =
            live (mheap (d_machine (d_shared d))) - scratches any_scratch (d_store (d_shared d)) \<and>
          (\<forall>t \<in> set (d_store (d_shared d)). set_option (any_context t) \<subseteq> live (mheap (d_machine s))) \<and>
          (stop_requested p \<longleftrightarrow> Signal SIGTERM \<in> set events \<or> Signal SIGINT \<in> set events) \<and>
          signalHandler p = p
    | Exit_failure p m' \<Rightarrow>
        m' = m \<and> {SIGTERM, SIGINT} \<subseteq> handled p \<and> stop_requested (signalHandler p)
    | _ \<Rightarrow> True"
proof (cases "daemon_main E J cache p0 m named events run_end")
  case (Exit_failure p m')
  then show ?thesis
    by (auto simp: daemon_main_def Let_def setupSignalHandlers_def signalHandler_def
        split: start_result.splits option.splits prod.splits run_end.splits if_splits)
next
  case (Exit_success p s)
  let ?p = "setupSignalHandlers process_init"
  from Exit_success obtain d p1 d1 where start: "main_start J cache p0 m = Started d"
    and loop: "run_events E events (?p, d) = Some (p1, d1)"
    and s: "p = p1\<lparr>gCtx := False\<rparr>" "s = main_cleanup E (d_shared d1)"
    by (auto simp: daemon_main_def Let_def
        split: start_result.splits option.splits prod.splits run_end.splits if_splits)
  note steps = run_events_steps [OF loop]
  have reach: "reachable E J d1"
    using steps_reachable [OF steps reachable_start [OF heap start]] .
  have "daemon_owns (open_fds (mkernel m)) d1"
    using steps_owns [OF steps daemon_ok_start [OF heap start] owns_start [OF heap start]] by simp
  then have own: "shared_owns (open_fds (mkernel m)) (d_shared d1)"
    by (simp add: daemon_owns_def)
  have stop: "stop_requested p \<longleftrightarrow> Signal SIGTERM \<in> set events \<or> Signal SIGINT \<in> set events"
    using run_events_stop [OF loop setup_process_ok] s(1)
    by (simp add: setupSignalHandlers_def process_init_def)
  from cleanup_owns [OF own, of E] contexts_left [OF own] stop reach s show ?thesis
    unfolding Exit_success by (auto simp: signalHandler_def intro!: exI [of _ d1])
qed simp_all

lemma daemon_shutdown_clean_witness:
  "\<exists>p s. daemon_main example_env example_json None example_policy (d_machine example_found) True
       (example_events @ [Signal SIGTERM]) Run_returns = Exit_success p s \<and>
     open_fds (mkernel (d_machine s)) = {} \<and> heap_ok (mheap (d_machine s)) \<and> stop_requested p"
proof -
  have heap: "heap_ok (mheap (d_machine example_found))"
    by (simp add: example_found_def)
  obtain p s where run: "daemon_main example_env example_json None example_policy (d_machine example_found)
      True (example_events @ [Signal SIGTERM]) Run_returns = Exit_success p s"
    using example_exit by (elim exE)
  with daemon_shutdown_clean [OF heap, where E = example_env and J = example_json and cache = None
      and ?p0.0 = example_policy and named = True and events = "example_events @ [Signal SIGTERM]"
      and run_end = Run_returns] show ?thesis
    by (auto simp: example_found_def)
qed

text \<open>
  C5. The type of a discovered device is right for good: in every reachable state its transport in
  the store is of the class that its data and its transport type say, for the EID it carries, which
  fits the byte it was cut to, or for the address and the lower 16 bits of the port it carries; and
  no two devices share one.
\<close>

theorem daemon_device_types:
  assumes "reachable E J d" and "device \<in> set (discoveredDevices (d_shared d))"
  shows "distinct (map ri_transport (discoveredDevices (d_shared d))) \<and>
    (\<exists>i < length (d_store (d_shared d)). ri_transport device = Some i \<and>
    (case responderData device of
       MctpData e uuid \<Rightarrow> transportType device = MCTP \<and> uuid \<noteq> '''' \<and> e < 255 \<and>
         (\<exists>t. d_store (d_shared d) ! i = AnyMctp t \<and> eid t = ucast e)
     | TcpData ip p \<Rightarrow> transportType device = TCP \<and> ip \<noteq> '''' \<and> p \<noteq> 0 \<and>
         (\<exists>t. d_store (d_shared d) ! i = AnyTcp t \<and> tcpIpAddr (tcpIo t) = ip \<and> tcpPort (tcpIo t) = ucast p)))"
proof -
  from reachable_owns [OF assms(1)] assms(2) have
    typed: "device_typed (map any_id (d_store (d_shared d))) device"
    by (auto simp: daemon_owns_def list_all_iff)
  then obtain i where i: "i < length (d_store (d_shared d))" "ri_transport device = Some i"
      "any_id (d_store (d_shared d) ! i) = data_id (responderData device)"
    by (auto simp: device_typed_def)
  have "case responderData device of
       MctpData e uuid \<Rightarrow> transportType device = MCTP \<and> uuid \<noteq> '''' \<and> e < 255 \<and>
         (\<exists>t. d_store (d_shared d) ! i = AnyMctp t \<and> eid t = ucast e)
     | TcpData ip p \<Rightarrow> transportType device = TCP \<and> ip \<noteq> '''' \<and> p \<noteq> 0 \<and>
         (\<exists>t. d_store (d_shared d) ! i = AnyTcp t \<and> tcpIpAddr (tcpIo t) = ip \<and> tcpPort (tcpIo t) = ucast p)"
    using typed i(3) by (cases "responderData device"; cases "d_store (d_shared d) ! i")
      (simp_all add: device_typed_def tcp_id_def)
  moreover have "distinct (map ri_transport (discoveredDevices (d_shared d)))"
    using reachable_ok [OF assms(1)] by (simp add: daemon_ok_def shared_ok_def devices_ok_def refs_def)
  ultimately show ?thesis
    using i by blast
qed

lemma daemon_device_types_witness:
  "\<exists>t. d_store (d_shared example_disabled) ! 0 = AnyTcp t \<and> tcpIpAddr (tcpIo t) = ''h'' \<and>
     tcpPort (tcpIo t) = 2323"
  using daemon_device_types [OF example_reachable, of example_device]
  by (simp add: example_disabled_def example_found_def example_device_def)

text \<open>
  C31. Switching the policy off and on again leaks: with \<open>n\<close> discovered devices and every call
  succeeding, a cycle allocates \<open>2 * n\<close> blocks, which are then exactly the blocks the transports of
  the devices refer to, and frees none of the blocks from before, the old contexts and scratch
  buffers among them.
\<close>

theorem enable_cycle_leaks:
  assumes "reachable E J d" and "cooperative E" and "pm_enabled (d_policy d)"
    and off: "set_property_enabled (daemon_callbacks E) False (d_policy d) (d_shared d) = (r, p, s)"
    and on: "set_property_enabled (daemon_callbacks E) True p s = (r', p', s')"
  defines "h \<equiv> mheap (d_machine (d_shared d))"
  defines "new \<equiv> {brk h..<brk h + 2 * length (discoveredDevices (d_shared d))}"
  shows "live (mheap (d_machine s')) = live h \<union> new \<and> live h \<inter> new = {} \<and>
    (\<Union>device \<in> set (discoveredDevices s'). device_blocks (d_store s') device) = new"
proof -
  let ?s = "d_shared d"
  have cb: "enabledChangeCallback (daemon_callbacks E) = Some (enabled_callback E)"
    by (simp add: daemon_callbacks_def registerEnabledChangeCallback_def
        registerSecureSessionEnabledChangeCallback_def)
  from off assms(3) enabled_property.set_change [of False "d_policy d" "daemon_callbacks E" ?s]
  have p: "p = (d_policy d)\<lparr>pm_enabled := False\<rparr>" and s: "s = tearDownResponders E ?s"
    by (auto simp: call_back_def cb enabled_callback_def)
  from on enabled_property.set_change [of True p "daemon_callbacks E" s]
  have s': "s' = processDiscoveredDevices E (discoveredDevices s) (pm_secure_session_enabled p) s"
    by (auto simp: call_back_def cb enabled_callback_def p)
  have ok: "devices_ok (d_store ?s) (discoveredDevices ?s)" "heap_ok h"
    using reachable_ok [OF assms(1)] by (simp_all add: daemon_ok_def shared_ok_def h_def)
  have "s' = fold (process_device E (pm_secure_session_enabled p)) (discoveredDevices ?s)
      (tearDownResponders E s)"
    by (cases "discoveredDevices ?s = []") (simp_all add: s' s processDiscoveredDevices_def Let_def)
  from cooperative_devices_blocks [OF assms(2) _ _ _ this, of h] ok
  have "live (mheap (d_machine s')) = live h \<union> new"
    "(\<Union>device \<in> set (discoveredDevices ?s). device_blocks (d_store s') device) = new"
    by (simp_all add: s h_def new_def)
  moreover have "discoveredDevices s' = discoveredDevices ?s"
    using set_enabled_keeps [OF _ on] ok by (simp add: s keeps_def)
  moreover have "live h \<inter> new = {}"
    using ok(2) by (auto simp: heap_ok_def new_def)
  ultimately show ?thesis
    by simp
qed

lemma enable_cycle_leaks_witness:
  "\<exists>(d :: (unit, unit) daemon) r p s r' p' s'. reachable example_env example_json d \<and>
     set_property_enabled (daemon_callbacks example_env) False (d_policy d) (d_shared d) = (r, p, s) \<and>
     set_property_enabled (daemon_callbacks example_env) True p s = (r', p', s') \<and>
     card (live (mheap (d_machine s')) - live (mheap (d_machine (d_shared d)))) = 2"
proof -
  obtain d where d: "reachable example_env example_json d" "pm_enabled (d_policy d)"
    "discoveredDevices (d_shared d) = [example_device]"
    using example_on by (elim exE conjE)
  obtain r p s where off: "set_property_enabled (daemon_callbacks example_env) False (d_policy d)
      (d_shared d) = (r, p, s)"
    by (metis prod_cases3)
  obtain r' p' s' where on: "set_property_enabled (daemon_callbacks example_env) True p s = (r', p', s')"
    by (metis prod_cases3)
  let ?h = "mheap (d_machine (d_shared d))"
  note leak = enable_cycle_leaks [OF d(1) example_cooperative d(2) off on]
  then have "live (mheap (d_machine s')) - live ?h = {brk ?h..<brk ?h + 2}"
    using d(3) by auto
  then have "card (live (mheap (d_machine s')) - live ?h) = 2"
    by simp
  then show ?thesis
    by (intro exI conjI) (rule d(1), rule off, rule on)
qed

end
