(* ===== verification/Daemon_Objects.thy ===== *)
theory Daemon_Objects
  imports Daemon_Main
begin

text \<open>
  The D-Bus objects of \<^verbatim>\<open>requester/spdmd.cpp\<close> and \<^verbatim>\<open>requester/spdm_dbus_responder.cpp\<close>. A responder
  takes two paths of the bus, made from the last part of its device's configuration path alone; the
  bus refuses a path that is not valid or is taken, and the constructor then throws. So in every
  reachable state the paths are pairwise different, and the devices that have a responder are among
  the published ones: accepted by the bus, and no two with one name.
\<close>

section \<open>The invariant\<close>

text \<open>A responder is the one of a device: its key, its name and its paths are the device's.\<close>

definition responder_of :: "'w env \<Rightarrow> responder \<Rightarrow> responder_info \<Rightarrow> bool" where
  "responder_of E r d \<longleftrightarrow>
     responder_key r = device_key d \<and> deviceName r = bus_name E d \<and> responder_named r \<and> bus_accepts E d"

definition objects_ok :: "'w env \<Rightarrow> responder_info list \<Rightarrow> responder list \<Rightarrow> bool" where
  "objects_ok E devices rs \<longleftrightarrow>
     (\<exists>ds. subseq ds devices \<and> list_all2 (responder_of E) rs ds) \<and> distinct (map deviceName rs)"

lemma objects_ok_Nil [simp]: "objects_ok E devices []"
  unfolding objects_ok_def using list_emb_Nil by (intro conjI exI [of _ "[]"]) simp_all

lemma objects_ok_named: "objects_ok E devices rs \<Longrightarrow> list_all responder_named rs"
  by (auto simp: objects_ok_def responder_of_def list_all_length list_all2_conv_all_nth)

text \<open>Only the key, the name and the paths of the responders matter.\<close>

definition identity :: "responder \<Rightarrow> (string \<times> tref option) \<times> string \<times> string list" where
  "identity r = (responder_key r, deviceName r, responder_paths r)"

lemma identity_sans_session: "sans_session r = sans_session r' \<Longrightarrow> identity r = identity r'"
  by (simp add: identity_def responder_key_def sans_session_cong [of r r'])

lemma map_identity_sans_session:
  "map sans_session rs = map sans_session rs' \<Longrightarrow> map identity rs = map identity rs'"
  by (induction rs rs' rule: list_induct2') (auto dest: identity_sans_session)

lemma objects_ok_cong:
  assumes "map identity rs = map identity rs'"
  shows "objects_ok E devices rs = objects_ok E devices rs'"
proof -
  have len: "length rs = length rs'"
    using assms by (rule map_eq_imp_length_eq)
  have same: "identity (rs ! i) = identity (rs' ! i)" if "i < length rs" for i
    using assms that len by (metis nth_map)
  have "responder_of E (rs ! i) = responder_of E (rs' ! i)" if "i < length rs" for i
    using same [OF that] by (auto simp: identity_def responder_of_def responder_named_def fun_eq_iff)
  then have "list_all2 (responder_of E) rs ds = list_all2 (responder_of E) rs' ds" for ds
    using len by (auto simp: list_all2_conv_all_nth)
  moreover have "map deviceName rs = map deviceName rs'"
    using same len by (auto simp: identity_def intro: nth_equalityI)
  ultimately show ?thesis
    by (simp add: objects_ok_def)
qed

section \<open>Every operation keeps it\<close>

lemma process_devices_objects:
  assumes bus: "sd_bus E"
  shows "objects_ok E old (responders s) \<Longrightarrow>
    objects_ok E (old @ devices) (responders (fold (process_device E sec) devices s))"
proof (induction devices arbitrary: s old)
  case (Cons d ds)
  let ?s1 = "process_device E sec d s"
  from Cons.prems obtain served where
    served: "subseq served old" "list_all2 (responder_of E) (responders s) served"
    and names: "distinct (map deviceName (responders s))"
    by (auto simp: objects_ok_def)
  from process_device_registers [of E sec d s] have "objects_ok E (old @ [d]) (responders ?s1)"
  proof (elim disjE exE conjE)
    assume "responders ?s1 = responders s"
    with served names show ?thesis
      unfolding objects_ok_def by (auto dest: list_emb_append_mono [OF _ list_emb_Nil])
  next
    fix r
    assume r: "responders ?s1 = responders s @ [r]" "registers E (responders s) d"
      "responder_key r = device_key d" "deviceName r = bus_name E d" "responder_named r"
    have new: "bus_accepts E d" "bus_name E d \<notin> set (map deviceName (responders s))"
      using registers_iff [OF bus objects_ok_named [OF Cons.prems], of d] r(2) by simp_all
    have "list_all2 (responder_of E) (responders s @ [r]) (served @ [d])"
      using served(2) r new by (simp add: list_all2_appendI responder_of_def)
    moreover have "subseq (served @ [d]) (old @ [d])"
      using served(1) by (intro list_emb_append_mono) simp_all
    moreover have "distinct (map deviceName (responders s @ [r]))"
      using names new r(4) by auto
    ultimately show ?thesis
      unfolding objects_ok_def r(1) by blast
  qed
  from Cons.IH [OF this] show ?case
    by simp
qed simp

lemma processDiscoveredDevices_objects:
  assumes "sd_bus E"
  shows "objects_ok E devices (responders (processDiscoveredDevices E devices sec s))"
proof (cases "devices = []")
  case False
  then show ?thesis
    using process_devices_objects [OF assms, of "[]" "tearDownResponders E s" devices sec]
    by (simp add: processDiscoveredDevices_def Let_def)
qed (simp add: processDiscoveredDevices_def)

text \<open>A session opened or closed, or a measurement, changes no identity.\<close>

lemma secure_callback_objects:
  assumes "objects_ok E devices (responders s)"
  shows "objects_ok E devices (responders (secure_callback E old new policy s))"
proof -
  let ?w = "world (d_machine s)"
  have "map identity (fst (open_inactive E (d_store s) (responders s) ?w)) = map identity (responders s)"
    by (intro map_identity_sans_session open_inactive_sans_session)
  moreover have "map identity (fst (close_active (env_lib E) (d_store s) (responders s) ?w)) =
      map identity (responders s)"
    by (intro map_identity_sans_session close_active_result [THEN conjunct1])
  ultimately show ?thesis
    using assms objects_ok_cong by (auto simp: secure_callback_def split_beta)
qed

lemma measure_objects:
  assumes "measure_responder E S k idxs nonce slotId s = (reply, s')" and "k < length (responders s)"
  shows "map identity (responders s') = map identity (responders s)"
proof -
  let ?r = "responders s ! k"
  obtain reply' ci w where call: "method_call (env_lib E) (env_consts E) S (env_filename E) (env_memory E)
      (env_add_object E (bus_objects (responders s))) (deref (d_store s) (r_transport ?r))
      idxs nonce slotId (componentIntegrity ?r) (world (d_machine s)) = (reply', ci, w)"
    by (metis prod_cases3)
  then have rs: "responders s' = (responders s)[k := ?r\<lparr>componentIntegrity := ci\<rparr>]"
    using assms(1) by (auto simp: measure_responder_def Let_def)
  have "ci_path ci = ci_path (componentIntegrity ?r)"
    using arg_cong [OF method_call_object [OF call], of ci_path] by simp
  then have "identity (?r\<lparr>componentIntegrity := ci\<rparr>) = identity ?r"
    by (simp add: identity_def responder_key_def responder_paths_def)
  then show ?thesis
    by (simp add: rs map_update list_update_same_conv assms(2))
qed

lemma measure_bus_objects:
  assumes "measure_responder E S k idxs nonce slotId s = (reply, s')" and "k < length (responders s)"
  shows "bus_objects (responders s') = bus_objects (responders s)"
  using arg_cong [OF measure_objects [OF assms], of "\<lambda>ids. concat (map (snd \<circ> snd) ids)"]
  by (simp add: bus_objects_def identity_def comp_def)

definition daemon_objects :: "'w env \<Rightarrow> ('w, 'j) daemon \<Rightarrow> bool" where
  "daemon_objects E d \<longleftrightarrow>
     objects_ok E (discoveredDevices (d_shared d)) (responders (d_shared d))"

lemma enabled_objects:
  assumes bus: "sd_bus E" and ok: "daemon_ok d" and objects: "daemon_objects E d"
    and set: "set_property_enabled (daemon_callbacks E) v (d_policy d) (d_shared d) = (r, p, s)"
  shows "daemon_objects E (d\<lparr>d_policy := p, d_shared := s\<rparr>)"
proof -
  let ?s = "d_shared d"
  have "devices_ok (d_store ?s) (discoveredDevices ?s)"
    using ok by (simp add: daemon_ok_def shared_ok_def)
  from set_enabled_keeps [OF this set] have same: "discoveredDevices s = discoveredDevices ?s"
    by (simp add: keeps_def)
  have "objects_ok E (discoveredDevices ?s) (responders (enabled_callback E old v q ?s))" for old q
    using objects processDiscoveredDevices_objects [OF bus]
    by (simp add: enabled_callback_def daemon_objects_def)
  then have "objects_ok E (discoveredDevices ?s) (responders s)"
    using set objects
    by (auto simp: set_property_enabled_def daemon_callbacks_def registerEnabledChangeCallback_def
        registerSecureSessionEnabledChangeCallback_def daemon_objects_def Let_def split: if_splits)
  with same show ?thesis
    by (simp add: daemon_objects_def)
qed

lemma secure_objects:
  assumes objects: "daemon_objects E d"
    and set: "set_property_secure_session_enabled (daemon_callbacks E) v (d_policy d) (d_shared d) = (r, p, s)"
  shows "daemon_objects E (d\<lparr>d_policy := p, d_shared := s\<rparr>)"
proof -
  have "objects_ok E (discoveredDevices (d_shared d)) (responders (secure_callback E old v q (d_shared d)))"
    for old q
    using objects secure_callback_objects by (auto simp: daemon_objects_def)
  then have "objects_ok E (discoveredDevices (d_shared d)) (responders s)"
    using set objects
    by (auto simp: set_property_secure_session_enabled_def daemon_callbacks_def daemon_objects_def
        registerEnabledChangeCallback_def registerSecureSessionEnabledChangeCallback_def Let_def split: if_splits)
  moreover have "discoveredDevices s = discoveredDevices (d_shared d)"
    using set_secure_keeps [OF set] by (simp add: keeps_def)
  ultimately show ?thesis
    by (simp add: daemon_objects_def)
qed

lemma step_objects:
  assumes "step E d d'" and bus: "sd_bus E" and ok: "daemon_ok d" and objects: "daemon_objects E d"
  shows "daemon_objects E d'"
  using assms(1)
proof cases
  case (step_discovered replies devices st)
  let ?s = "(d_shared d)\<lparr>d_store := st\<rparr>"
  have "devices_ok (d_store ?s) devices"
    using daemon_discover_ok [OF step_discovered(3)] by simp
  from discovery_callback_keeps [OF this, of E "d_policy d"]
  have "discoveredDevices (discovery_callback E (d_policy d) devices ?s) = devices"
    by (simp add: keeps_def)
  moreover have "responders (d_shared d) = []"
    using ok step_discovered(2) by (auto simp: daemon_ok_def shared_ok_def)
  ultimately show ?thesis
    using processDiscoveredDevices_objects [OF bus]
    by (simp add: step_discovered(1) daemon_objects_def discovery_callback_def Let_def)
next
  case step_not_called
  with objects show ?thesis
    by (simp add: daemon_objects_def)
next
  case step_set_enabled
  with enabled_objects [OF bus ok objects] show ?thesis
    by simp
next
  case step_set_secure
  with secure_objects [OF objects] show ?thesis
    by simp
next
  case (step_measure k S idxs nonce slotId reply s)
  have "discoveredDevices s = discoveredDevices (d_shared d)"
    using measure_keeps [OF step_measure(3)] by (simp add: keeps_def)
  with objects objects_ok_cong [OF measure_objects [OF step_measure(3,2)], of E] show ?thesis
    by (simp add: step_measure(1) daemon_objects_def)
next
  case step_world
  with objects show ?thesis
    by (simp add: daemon_objects_def)
qed

lemma reachable_objects:
  assumes "sd_bus E"
  shows "reachable E J d \<Longrightarrow> daemon_objects E d"
proof (induction rule: reachable.induct)
  case (reachable_start m cache p0 d)
  from main_start_result [OF reachable_start(2)] show ?case
    by (simp add: daemon_objects_def)
next
  case (reachable_step d d')
  with step_objects [OF _ assms reachable_ok] show ?case
    by blast
qed

section \<open>An example\<close>

text \<open>Two TCP devices, and a system in which every path has the same last part.\<close>

definition two_objects :: ManagedObjects where
  "two_objects =
     example_tcp_objects @
     [(Object_path ''/b'', [(''xyz.openbmc_project.Configuration.SpdmTcpEndpoint'',
         [(''HostName'', DString ''h''), (''Port'', DUint64 2324)])])]"

lemma two_devices:
  "\<exists>devices st. tcp_discoverDevices dsp0274 True (Then_first, Some two_objects) [] = Some (devices, st) \<and>
     map device_key devices = [(''/a'', Some 0), (''/b'', Some 1)] \<and>
     map deviceObjectPath devices = [''/a'', ''/b'']"
  by (simp add: tcp_discoverDevices_result tcp_processManagedObjects_def two_objects_def example_tcp_objects_def
      tcp_createDeviceFromInterfaces_def SpdmTcpEndpointIntf_def new_transport_def device_key_def)

definition twin_env :: "unit env" where
  "twin_env = example_env\<lparr>env_filename := (\<lambda>path. ''x'')\<rparr>"

lemma twin_cooperative: "cooperative twin_env"
  using example_cooperative by (simp add: cooperative_def twin_env_def)

lemma twin_sd_bus: "sd_bus twin_env"
  by (simp add: sd_bus_def twin_env_def example_env_def)

lemma twin_published: "published twin_env [a, b] = [a]"
  by (simp add: published_def bus_accepts_def bus_name_def twin_env_def example_env_def list_all_iff)

lemma twin_reachable:
  "\<exists>d a b. reachable twin_env example_json d \<and> discoveredDevices (d_shared d) = [a, b] \<and>
     map device_key [a, b] = [(''/a'', Some 0), (''/b'', Some 1)] \<and>
     map responder_key (responders (d_shared d)) = [(''/a'', Some 0)]"
proof -
  let ?p = "example_policy\<lparr>pm_enabled := True\<rparr>" and ?m = "d_machine example_found"
  let ?init = "\<lparr>d_policy = ?p, d_shared = \<lparr>d_store = [], d_machine = ?m, responders = [], discoveredDevices = []\<rparr>,
    d_awaiting = True\<rparr>"
  have start: "reachable twin_env example_json ?init"
    by (rule reachable_start [of ?m _ None ?p]) (simp_all add: main_start_def load_def example_found_def)
  obtain devices st where
    found: "tcp_discoverDevices dsp0274 True (Then_first, Some two_objects) [] = Some (devices, st)"
    and keys: "map device_key devices = [(''/a'', Some 0), (''/b'', Some 1)]"
    using two_devices by (elim exE conjE)
  from keys obtain a b where ab: "devices = [a, b]"
    by (auto simp: map_eq_Cons_conv)
  let ?s = "\<lparr>d_store = st, d_machine = ?m, responders = [], discoveredDevices = devices\<rparr>"
  let ?d = "\<lparr>d_policy = ?p, d_shared = processDiscoveredDevices twin_env devices True ?s, d_awaiting = False\<rparr>"
  have discover: "daemon_discover twin_env (Tcp_reply (Then_first, Some two_objects)) [] = Some (devices, st)"
    using found by (simp add: twin_env_def example_env_def)
  then have "step twin_env ?init ?d"
    using step_discovered [of ?init twin_env "Tcp_reply (Then_first, Some two_objects)" devices st]
    by (simp add: discovery_callback_def example_policy_def Let_def)
  with start have "reachable twin_env example_json ?d"
    by (rule reachable_step)
  moreover have ok: "devices_ok st devices"
    using daemon_discover_ok [OF discover] .
  have heap: "heap_ok (mheap ?m)"
    by (simp add: example_found_def)
  have "discoveredDevices (d_shared ?d) = [a, b]"
    using processDiscoveredDevices_result [of ?s devices _ twin_env True] ok heap by (simp add: ab)
  moreover from cooperative_process_devices [OF twin_cooperative twin_sd_bus, of "tearDownResponders twin_env ?s"
      devices True] ok heap
  have "map responder_key (responders (d_shared ?d)) = [device_key a]"
    by (auto simp: processDiscoveredDevices_def ab twin_published unnamed_in_def)
  ultimately show ?thesis
    using keys by (intro exI [of _ ?d] exI [of _ a] exI [of _ b]) (simp add: ab)
qed

section \<open>Properties\<close>

lemma subseq_members: "subseq xs ys \<Longrightarrow> set xs \<subseteq> set ys"
  by (auto elim: list_emb_set)

definition has_responder :: "'w shared \<Rightarrow> responder_info \<Rightarrow> bool" where
  "has_responder s device \<longleftrightarrow> device_key device \<in> set (map responder_key (responders s))"

text \<open>
  C7. In every reachable state the objects of the responders have pairwise different paths, and they
  are the paths of the devices that have a responder. A device has one only if the bus accepts the two
  paths made from the last part of its configuration path, and of two devices with the same name at
  most one has one, however different the devices are.
\<close>

theorem daemon_objects_distinct:
  assumes "sd_bus E" and "reachable E J d"
  shows "distinct (bus_objects (responders (d_shared d))) \<and>
    set (bus_objects (responders (d_shared d))) =
      (\<Union>device \<in> {device \<in> set (discoveredDevices (d_shared d)). has_responder (d_shared d) device}.
         set (name_paths (bus_name E device))) \<and>
    (\<forall>device \<in> set (discoveredDevices (d_shared d)). has_responder (d_shared d) device \<longrightarrow>
       bus_accepts E device) \<and>
    (\<forall>a \<in> set (discoveredDevices (d_shared d)). \<forall>b \<in> set (discoveredDevices (d_shared d)).
       bus_name E a = bus_name E b \<and> has_responder (d_shared d) a \<and> has_responder (d_shared d) b \<longrightarrow> a = b)"
proof -
  let ?s = "d_shared d"
  let ?rs = "responders ?s" and ?D = "discoveredDevices ?s"
  have objects: "objects_ok E ?D ?rs"
    using reachable_objects [OF assms] by (simp add: daemon_objects_def)
  then obtain ds where ds: "subseq ds ?D" "list_all2 (responder_of E) ?rs ds"
    and names: "distinct (map deviceName ?rs)"
    by (auto simp: objects_ok_def)
  have keys: "map responder_key ?rs = map device_key ds" and named: "map deviceName ?rs = map (bus_name E) ds"
    and accepts: "list_all (bus_accepts E) ds"
    and paths: "map responder_paths ?rs = map (\<lambda>device. name_paths (bus_name E device)) ds"
    using ds(2) by (induction rule: list_all2_induct) (simp_all add: responder_of_def responder_named_def)
  have "distinct (map ri_transport ?D)"
    using reachable_ok [OF assms(2)] by (simp add: daemon_ok_def shared_ok_def devices_ok_def refs_def)
  then have "inj_on device_key (set ?D)"
    by (auto simp: inj_on_def device_key_def distinct_map)
  then have served: "has_responder ?s device \<longleftrightarrow> device \<in> set ds" if "device \<in> set ?D" for device
    using that subseq_members [OF ds(1)] by (auto simp: has_responder_def keys inj_on_def)
  moreover have "set ds \<subseteq> set ?D"
    using subseq_members [OF ds(1)] .
  ultimately have "{device \<in> set ?D. has_responder ?s device} = set ds"
    by blast
  moreover have "a = b" if "a \<in> set ds" "b \<in> set ds" "bus_name E a = bus_name E b" for a b
    using names that unfolding named by (simp add: distinct_map inj_on_def)
  ultimately show ?thesis
    using bus_objects_distinct [OF objects_ok_named [OF objects] names] accepts served
    by (simp add: bus_objects_def paths list_all_iff)
qed

lemma daemon_objects_distinct_witness:
  "\<exists>d a b. reachable twin_env example_json d \<and> discoveredDevices (d_shared d) = [a, b] \<and> a \<noteq> b \<and>
     has_responder (d_shared d) a \<and> \<not> has_responder (d_shared d) b"
proof -
  obtain d a b where d: "reachable twin_env example_json d" "discoveredDevices (d_shared d) = [a, b]"
      "map device_key [a, b] = [(''/a'', Some 0), (''/b'', Some 1)]"
      "map responder_key (responders (d_shared d)) = [(''/a'', Some 0)]"
    using twin_reachable by (elim exE conjE)
  have "device_key a \<noteq> device_key b"
    using d(3) by simp
  then have "a \<noteq> b"
    by blast
  have "has_responder (d_shared d) a"
    using d(3,4) by (simp add: has_responder_def)
  have "bus_name twin_env a = bus_name twin_env b"
    by (simp add: bus_name_def twin_env_def)
  moreover have "\<forall>x \<in> set [a, b]. \<forall>y \<in> set [a, b]. bus_name twin_env x = bus_name twin_env y \<and>
      has_responder (d_shared d) x \<and> has_responder (d_shared d) y \<longrightarrow> x = y"
    using daemon_objects_distinct [OF twin_sd_bus d(1)] unfolding d(2) by blast
  ultimately have "\<not> has_responder (d_shared d) b"
    using \<open>a \<noteq> b\<close> \<open>has_responder (d_shared d) a\<close> by simp
  with d \<open>a \<noteq> b\<close> \<open>has_responder (d_shared d) a\<close> show ?thesis
    by blast
qed

end
