(* ===== verification/Daemon_Spec.thy ===== *)
theory Daemon_Spec
  imports Daemon_Objects
begin

text \<open>
  What the daemon of \<^verbatim>\<open>requester/spdmd.cpp\<close> promises, as an abstract machine: its state is the policy and
  the devices that discovery reported, and what it serves is a function of them: while the policy is
  enabled, of the devices whose names the bus accepts the first of each name, each with a session
  exactly while secure sessions are enabled. With a system and devices that answer, the daemon
  implements this machine: its steps are abstract steps, and its responders are what the abstract
  state says.
\<close>

section \<open>The abstract machine\<close>

text \<open>
  \<open>sp_found\<close> is \<open>None\<close> while discovery is still to answer. Which of the devices
  found are served is up to their names and to the bus alone.
\<close>

record spec =
  sp_enabled :: bool
  sp_secure :: bool
  sp_found :: "responder_info list option"

definition sp_served :: "'w env \<Rightarrow> spec \<Rightarrow> ((string \<times> tref option) \<times> bool) list" where
  "sp_served E a =
     (case sp_found a of
        None \<Rightarrow> []
      | Some devices \<Rightarrow>
          if sp_enabled a then map (\<lambda>device. (device_key device, sp_secure a)) (published E devices)
          else [])"

inductive spec_step :: "spec \<Rightarrow> spec \<Rightarrow> bool" where
  spec_found: "sp_found a = None \<Longrightarrow> spec_step a (a\<lparr>sp_found := Some devices\<rparr>)"
| spec_enabled: "spec_step a (a\<lparr>sp_enabled := v\<rparr>)"
| spec_secure: "spec_step a (a\<lparr>sp_secure := v\<rparr>)"
| spec_stutter: "spec_step a a"

section \<open>The abstraction\<close>

definition abs_daemon :: "('w, 'j) daemon \<Rightarrow> spec" where
  "abs_daemon d =
     \<lparr>sp_enabled = pm_enabled (d_policy d), sp_secure = pm_secure_session_enabled (d_policy d),
      sp_found = (if d_awaiting d then None
                  else Some (discoveredDevices (d_shared d)))\<rparr>"

definition served :: "'w shared \<Rightarrow> ((string \<times> tref option) \<times> bool) list" where
  "served s = map (\<lambda>r. (responder_key r, secureSessionActive r)) (responders s)"

definition serves_spec :: "'w env \<Rightarrow> ('w, 'j) daemon \<Rightarrow> bool" where
  "serves_spec E d \<longleftrightarrow> served (d_shared d) = sp_served E (abs_daemon d)"

lemma served_map:
  "map responder_key (responders s) = keys \<Longrightarrow> list_all (\<lambda>r. secureSessionActive r = b) (responders s) \<Longrightarrow>
   served s = map (\<lambda>k. (k, b)) keys"
  by (auto simp: served_def list_all_iff)

lemma served_keys: "map fst (served s) = map responder_key (responders s)"
  by (simp add: served_def comp_def)

lemma published_Nil [simp]: "published E [] = []"
  by (simp add: published_def)

section \<open>Every callback serves what it should\<close>

lemma processed_served:
  assumes coop: "cooperative E" and bus: "sd_bus E" and sec: "secure_device E"
    and ok: "devices_ok (d_store s) devices" "heap_ok (mheap (d_machine s))"
    and s': "s' = processDiscoveredDevices E devices b s"
  shows "served s' = map (\<lambda>d. (device_key d, b)) (published E devices)"
proof -
  let ?t = "tearDownResponders E s"
  have fold: "s' = fold (process_device E b) devices ?t"
    by (cases "devices = []") (simp_all add: s' processDiscoveredDevices_def Let_def)
  from cooperative_process_devices [OF coop bus, of ?t devices b] ok
  have keys: "map responder_key (responders s') = map device_key (published E devices)"
    and on: "b \<Longrightarrow> list_all secureSessionActive (responders s')"
    using sec unfolding fold by (auto simp: unnamed_in_def)
  have off: "\<not> b \<Longrightarrow> list_all (\<lambda>r. \<not> secureSessionActive r) (responders s')"
    using processDiscoveredDevices_result [OF ok s'] by simp
  have "list_all (\<lambda>r. secureSessionActive r = b) (responders s')"
    using on off by (cases b) simp_all
  from served_map [OF keys this] show ?thesis
    by (simp add: comp_def)
qed

lemma serves_start:
  assumes "main_start J file p0 m = Started d"
  shows "serves_spec E d"
  using main_start_result [OF assms] by (simp add: serves_spec_def served_def sp_served_def abs_daemon_def)

lemma serves_discovered:
  assumes coop: "cooperative E" "sd_bus E" "secure_device E" and ok: "daemon_ok d" and "d_awaiting d"
    and found: "daemon_discover E replies (d_store (d_shared d)) = Some (devices, st)"
  shows "serves_spec E (d\<lparr>d_awaiting := False,
    d_shared := discovery_callback E (d_policy d) devices ((d_shared d)\<lparr>d_store := st\<rparr>)\<rparr>)"
proof -
  let ?s = "(d_shared d)\<lparr>d_store := st, discoveredDevices := devices\<rparr>"
  let ?b = "pm_secure_session_enabled (d_policy d)"
  have devices: "devices_ok (d_store ?s) devices" "heap_ok (mheap (d_machine ?s))"
    using daemon_discover_ok [OF found] ok by (simp_all add: daemon_ok_def shared_ok_def)
  have none: "\<not> pm_enabled (d_policy d) \<Longrightarrow> responders (d_shared d) = []"
    using ok by (simp add: daemon_ok_def)
  have kept: "discoveredDevices (processDiscoveredDevices E devices ?b ?s) = devices"
    using processDiscoveredDevices_result [OF devices refl, of E ?b] by simp
  from processed_served [OF coop devices refl, of ?b] kept none show ?thesis
    by (simp add: serves_spec_def sp_served_def abs_daemon_def discovery_callback_def Let_def served_def
        comp_def)
qed

lemma serves_set_enabled:
  assumes coop: "cooperative E" "sd_bus E" "secure_device E" and ok: "daemon_ok d" and serves: "serves_spec E d"
    and set: "set_property_enabled (daemon_callbacks E) v (d_policy d) (d_shared d) = (r, p, s)"
  shows "serves_spec E (d\<lparr>d_policy := p, d_shared := s\<rparr>) \<and> p = (d_policy d)\<lparr>pm_enabled := v\<rparr>"
proof (cases "v = pm_enabled (d_policy d)")
  case True
  with set enabled_property.set_same [OF True, of "daemon_callbacks E" "d_shared d"] serves show ?thesis
    by (auto simp: serves_spec_def abs_daemon_def)
next
  case False
  let ?p = "(d_policy d)\<lparr>pm_enabled := v\<rparr>" and ?s = "d_shared d"
  have cb: "enabledChangeCallback (daemon_callbacks E) = Some (enabled_callback E)"
    by (simp add: daemon_callbacks_def registerEnabledChangeCallback_def
        registerSecureSessionEnabledChangeCallback_def)
  from set enabled_property.set_change [OF False, of "daemon_callbacks E" ?s]
  have p: "p = ?p" and s: "s = enabled_callback E (\<not> v) v ?p ?s"
    using False by (auto simp: call_back_def cb)
  have devices: "devices_ok (d_store ?s) (discoveredDevices ?s)" "heap_ok (mheap (d_machine ?s))"
    and none: "d_awaiting d \<Longrightarrow> discoveredDevices ?s = []"
    using ok by (simp_all add: daemon_ok_def shared_ok_def)
  have kept: "discoveredDevices s = discoveredDevices ?s"
    using set_enabled_keeps [OF devices(1) set] by (simp add: keeps_def)
  show ?thesis
  proof (cases v)
    case True
    with s have "s = processDiscoveredDevices E (discoveredDevices ?s)
        (pm_secure_session_enabled (d_policy d)) ?s"
      by (simp add: enabled_callback_def)
    from processed_served [OF coop devices this] True kept none p show ?thesis
      by (auto simp: serves_spec_def sp_served_def abs_daemon_def comp_def)
  next
    case False
    with s have "responders s = []"
      by (simp add: enabled_callback_def)
    with False p show ?thesis
      by (simp add: serves_spec_def sp_served_def abs_daemon_def served_def)
  qed
qed

lemma serves_set_secure:
  assumes sec: "secure_device E" and ok: "daemon_ok d" and serves: "serves_spec E d"
    and set: "set_property_secure_session_enabled (daemon_callbacks E) v (d_policy d) (d_shared d) = (r, p, s)"
  shows "serves_spec E (d\<lparr>d_policy := p, d_shared := s\<rparr>) \<and>
    p = (d_policy d)\<lparr>pm_secure_session_enabled := v\<rparr>"
proof (cases "v = pm_secure_session_enabled (d_policy d)")
  case True
  with set secure_property.set_same [OF True, of "daemon_callbacks E" "d_shared d"] serves show ?thesis
    by (auto simp: serves_spec_def abs_daemon_def)
next
  case False
  let ?p = "(d_policy d)\<lparr>pm_secure_session_enabled := v\<rparr>" and ?s = "d_shared d"
  have cb: "secureSessionEnabledChangeCallback (daemon_callbacks E) = Some (secure_callback E)"
    by (simp add: daemon_callbacks_def registerSecureSessionEnabledChangeCallback_def)
  from set secure_property.set_change [OF False, of "daemon_callbacks E" ?s]
  have p: "p = ?p" and s: "s = secure_callback E (\<not> v) v ?p ?s"
    using False by (auto simp: call_back_def cb)
  show ?thesis
  proof (cases "pm_enabled (d_policy d)")
    case False
    with s serves p show ?thesis
      by (simp add: secure_callback_def serves_spec_def sp_served_def abs_daemon_def split: option.splits)
  next
    case True
    let ?rs = "if v then fst (open_inactive E (d_store ?s) (responders ?s) (world (d_machine ?s)))
      else fst (close_active (env_lib E) (d_store ?s) (responders ?s) (world (d_machine ?s)))"
    have rs: "responders s = ?rs"
      using s True by (simp add: secure_callback_def split_beta)
    have good: "list_all (responder_ok (d_store ?s)) (responders ?s)"
      using ok by (simp add: daemon_ok_def shared_ok_def)
    note close = close_active_result [of "env_lib E" "d_store ?s" "responders ?s" "world (d_machine ?s)"]
    have "map sans_session ?rs = map sans_session (responders ?s)"
      using close by (simp add: open_inactive_sans_session)
    then have keys: "map responder_key (responders s) = map responder_key (responders ?s)"
      unfolding rs by (rule map_responder_key_cong)
    have "list_all (\<lambda>r. secureSessionActive r = v) (responders s)"
      unfolding rs using close open_inactive_active [OF sec good] by (cases v) simp_all
    from served_map [OF keys this] have "served s = map (\<lambda>k. (k, v)) (map fst (served ?s))"
      by (simp add: served_keys)
    moreover have "discoveredDevices s = discoveredDevices ?s"
      using set_secure_keeps [OF set] by (simp add: keeps_def)
    ultimately show ?thesis
      using serves True p
      by (simp add: serves_spec_def sp_served_def abs_daemon_def comp_def split: option.splits)
  qed
qed

lemma serves_measure:
  assumes "k < length (responders (d_shared d))"
    and call: "measure_responder E S k idxs nonce slotId (d_shared d) = (reply, s)"
    and serves: "serves_spec E d"
  shows "serves_spec E (d\<lparr>d_shared := s\<rparr>)"
proof -
  let ?rs = "responders (d_shared d)"
  from call obtain ci where rs: "responders s = ?rs[k := (?rs ! k)\<lparr>componentIntegrity := ci\<rparr>]"
    by (auto simp: measure_responder_def Let_def split: prod.splits)
  have "served s = served (d_shared d)"
    using assms(1)
    by (simp add: served_def rs map_update responder_key_def secureSessionActive_def list_update_same_conv)
  moreover have "discoveredDevices s = discoveredDevices (d_shared d)"
    using measure_keeps [OF call] by (simp add: keeps_def)
  ultimately show ?thesis
    using serves by (simp add: serves_spec_def abs_daemon_def)
qed

section \<open>Simulation\<close>

lemma step_refines:
  assumes coop: "cooperative E" "sd_bus E" "secure_device E" and ok: "daemon_ok d" and serves: "serves_spec E d"
    and "step E d d'"
  shows "serves_spec E d' \<and> spec_step (abs_daemon d) (abs_daemon d')"
  using assms(6)
proof cases
  case (step_discovered replies devices st)
  have "abs_daemon d' = (abs_daemon d)\<lparr>sp_found := sp_found (abs_daemon d')\<rparr>"
    "sp_found (abs_daemon d) = None" "sp_found (abs_daemon d') \<noteq> None"
    using step_discovered by (simp_all add: abs_daemon_def)
  then have "spec_step (abs_daemon d) (abs_daemon d')"
    by (metis option.exhaust spec_found)
  with serves_discovered [OF coop ok step_discovered(2,3)] show ?thesis
    by (simp add: step_discovered(1))
next
  case step_not_called
  then have d': "abs_daemon d' = (abs_daemon d)\<lparr>sp_found := Some []\<rparr>" "sp_found (abs_daemon d) = None"
    using ok by (simp_all add: abs_daemon_def daemon_ok_def)
  then have "spec_step (abs_daemon d) (abs_daemon d')"
    by (simp add: spec_found)
  moreover have "serves_spec E d'"
    using serves d' step_not_called(1) by (simp add: serves_spec_def sp_served_def)
  ultimately show ?thesis
    by simp
next
  case (step_set_enabled v r p s)
  note new = serves_set_enabled [OF coop ok serves step_set_enabled(2)]
  have "discoveredDevices s = discoveredDevices (d_shared d)"
    using set_enabled_keeps [OF _ step_set_enabled(2)] ok
    by (simp add: keeps_def daemon_ok_def shared_ok_def)
  with new have "abs_daemon d' = (abs_daemon d)\<lparr>sp_enabled := v\<rparr>"
    by (simp add: step_set_enabled(1) abs_daemon_def)
  moreover have "serves_spec E d'"
    using new unfolding step_set_enabled(1) by (rule conjunct1)
  ultimately show ?thesis
    by (simp add: spec_enabled)
next
  case (step_set_secure v r p s)
  note new = serves_set_secure [OF coop(3) ok serves step_set_secure(2)]
  have "discoveredDevices s = discoveredDevices (d_shared d)"
    using set_secure_keeps [OF step_set_secure(2)] by (simp add: keeps_def)
  with new have "abs_daemon d' = (abs_daemon d)\<lparr>sp_secure := v\<rparr>"
    by (simp add: step_set_secure(1) abs_daemon_def)
  moreover have "serves_spec E d'"
    using new unfolding step_set_secure(1) by (rule conjunct1)
  ultimately show ?thesis
    by (simp add: spec_secure)
next
  case (step_measure k S idxs nonce slotId reply s)
  have "abs_daemon d' = abs_daemon d"
    using measure_keeps [OF step_measure(3)] by (simp add: step_measure(1) abs_daemon_def keeps_def)
  with serves_measure [OF step_measure(2,3) serves] show ?thesis
    by (simp add: step_measure(1) spec_stutter)
next
  case (step_world w)
  then have "abs_daemon d' = abs_daemon d" "served (d_shared d') = served (d_shared d)"
    by (simp_all add: abs_daemon_def served_def)
  with serves show ?thesis
    by (simp add: serves_spec_def spec_stutter)
qed

lemma reachable_serves:
  assumes "cooperative E" "sd_bus E" "secure_device E"
  shows "reachable E J d \<Longrightarrow> serves_spec E d"
proof (induction rule: reachable.induct)
  case (reachable_start m f p0 d)
  then show ?case
    by (intro serves_start)
next
  case (reachable_step d d')
  with step_refines [OF assms reachable_ok] show ?case
    by blast
qed

section \<open>Properties\<close>

text \<open>
  C1. With a system and devices that answer every call, and a bus that registers each valid path once,
  the daemon implements the abstract machine: while the policy is enabled, it serves in every reachable
  state exactly the discovered devices whose names the bus accepts, the first of each name, in order,
  and nothing otherwise, each with a session exactly while secure sessions are enabled; and each of its
  steps is a step of the machine.
\<close>

theorem daemon_refines_spec:
  assumes "cooperative E" and "sd_bus E" and "secure_device E" and "reachable E J d" and "step E d d'"
  shows "map (\<lambda>r. (responder_key r, secureSessionActive r)) (responders (d_shared d)) =
      sp_served E (abs_daemon d) \<and>
    spec_step (abs_daemon d) (abs_daemon d') \<and>
    map (\<lambda>r. (responder_key r, secureSessionActive r)) (responders (d_shared d')) =
      sp_served E (abs_daemon d')"
  using reachable_serves [OF assms(1,2,3,4)] step_refines [OF assms(1,2,3) reachable_ok [OF assms(4)] _ assms(5)]
  by (simp add: serves_spec_def served_def)

lemma daemon_refines_spec_witness:
  "\<exists>r p s. set_property_enabled (daemon_callbacks example_env) True example_policy example_found = (r, p, s) \<and>
     map (\<lambda>r. (responder_key r, secureSessionActive r)) (responders s) = [((''/a'', Some 0), True)]"
proof -
  let ?on = "example_policy\<lparr>pm_enabled := True\<rparr>"
  obtain r s where on: "set_property_enabled (daemon_callbacks example_env) True example_policy example_found =
      (r, ?on, s)"
    using example_enabled by (elim exE conjE)
  let ?d = "example_disabled\<lparr>d_policy := ?on, d_shared := s\<rparr>"
  have "step example_env example_disabled ?d"
    by (rule step_set_enabled [where v = True and r = r]) (simp add: example_disabled_def on)
  note refines = daemon_refines_spec [OF example_cooperative example_sd_bus example_secure_device example_reachable this]
  have "devices_ok (d_store example_found) (discoveredDevices example_found)"
    by (simp add: devices_ok_def refs_def example_found_def example_device_def)
  from set_enabled_keeps [OF this on] have "discoveredDevices s = [example_device]"
    by (simp add: keeps_def example_found_def)
  then have "map (\<lambda>r. (responder_key r, secureSessionActive r)) (responders s) = [((''/a'', Some 0), True)]"
    using refines by (simp add: abs_daemon_def sp_served_def example_disabled_def example_policy_def
        example_published device_key_def) (simp add: example_device_def)
  then show ?thesis
    by (intro exI conjI) (rule on)
qed

end
