(* ===== verification/Context_Views.thy ===== *)
theory Context_Views
  imports Responder
begin

text \<open>
  What one libspdm context has to do with another: nothing. A call of libspdm on a context is assumed
  to read and to change only what belongs to that context and the device behind it
  (\<open>independent_contexts\<close>, stated over a \<open>view\<close> of the world). What the code composes of such calls then
  stays within the context too (\<open>confined\<close>): the method of \<^verbatim>\<open>requester/component_integrity_dbus.cpp\<close>
  and the session operations of \<^verbatim>\<open>requester/spdm_dbus_responder.cpp\<close>.
\<close>

section \<open>Runs that stay within a context\<close>

text \<open>
  \<open>view c\<close> is the part of the world that belongs to the context \<open>c\<close>. A run that stays within \<open>c\<close>
  leaves the other views alone, and its outcome and its own view afterwards depend on its own view
  only.
\<close>

definition confined :: "(ptr \<Rightarrow> 'w \<Rightarrow> 'v) \<Rightarrow> ptr \<Rightarrow> ('w \<Rightarrow> 'a \<times> 'w) \<Rightarrow> bool" where
  "confined view c f \<longleftrightarrow>
     (\<forall>w c'. c' \<noteq> c \<longrightarrow> view c' (snd (f w)) = view c' w) \<and>
     (\<forall>w1 w2. view c w1 = view c w2 \<longrightarrow>
        fst (f w1) = fst (f w2) \<and> view c (snd (f w1)) = view c (snd (f w2)))"

named_theorems confined_intros \<open>compositions that stay within a context\<close>

lemma confined_other: "confined view c f \<Longrightarrow> c' \<noteq> c \<Longrightarrow> view c' (snd (f w)) = view c' w"
  unfolding confined_def by blast

lemma confined_same:
  assumes "confined view c f" and "view c w1 = view c w2"
  shows "fst (f w1) = fst (f w2)" and "view c (snd (f w1)) = view c (snd (f w2))"
  using assms unfolding confined_def by blast+

lemma confinedI:
  assumes "\<And>w c'. c' \<noteq> c \<Longrightarrow> view c' (snd (f w)) = view c' w"
    and "\<And>w1 w2. view c w1 = view c w2 \<Longrightarrow> fst (f w1) = fst (f w2) \<and> view c (snd (f w1)) = view c (snd (f w2))"
  shows "confined view c f"
  using assms unfolding confined_def by blast

lemma confined_return [confined_intros]: "confined view c (\<lambda>w. (a, w))"
  by (rule confinedI) simp_all

lemma confined_bind:
  assumes "confined view c f" and "\<And>a. confined view c (g a)"
  shows "confined view c (\<lambda>w. case f w of (a, w) \<Rightarrow> g a w)"
proof (rule confinedI)
  fix w c'
  assume "c' \<noteq> c"
  with confined_other [OF assms(1)] confined_other [OF assms(2)]
  show "view c' (snd (case f w of (a, w) \<Rightarrow> g a w)) = view c' w"
    by (simp add: split_beta)
next
  fix w1 w2
  assume eq: "view c w1 = view c w2"
  note f = confined_same [OF assms(1) eq]
  from confined_same [OF assms(2) f(2), of "fst (f w2)"] f(1)
  show "fst (case f w1 of (a, w) \<Rightarrow> g a w) = fst (case f w2 of (a, w) \<Rightarrow> g a w) \<and>
      view c (snd (case f w1 of (a, w) \<Rightarrow> g a w)) = view c (snd (case f w2 of (a, w) \<Rightarrow> g a w))"
    by (simp add: split_beta)
qed

text \<open>Reading what the view determines.\<close>

lemma confined_read:
  assumes "\<And>w1 w2. view c w1 = view c w2 \<Longrightarrow> r w1 = r w2" and "\<And>a. confined view c (g a)"
  shows "confined view c (\<lambda>w. g (r w) w)"
proof (rule confinedI)
  fix w c'
  assume "c' \<noteq> c"
  with confined_other [OF assms(2)] show "view c' (snd (g (r w) w)) = view c' w"
    by blast
next
  fix w1 w2
  assume eq: "view c w1 = view c w2"
  from confined_same [OF assms(2) this, of "r w2"] assms(1) [OF eq]
  show "fst (g (r w1) w1) = fst (g (r w2) w2) \<and> view c (snd (g (r w1) w1)) = view c (snd (g (r w2) w2))"
    by simp
qed

lemma confined_map [confined_intros]:
  assumes "confined view c f"
  shows "confined view c (\<lambda>w. (h (fst (f w)), snd (f w)))"
  using confined_bind [OF assms, of "\<lambda>a w. (h a, w)"] by (simp add: confined_return split_beta)

lemma confined_exn_bind [confined_intros]:
  assumes "confined view c f" and "\<And>a. confined view c (g a)"
  shows "confined view c (exn_bind f g)"
proof -
  have "exn_bind f g = (\<lambda>w. case f w of (r, w) \<Rightarrow> (case r of Inl e \<Rightarrow> (Inl e, w) | Inr a \<Rightarrow> g a w))"
    by (rule ext) (auto simp: exn_bind_def split: prod.split sum.split)
  moreover have "confined view c (\<lambda>w. case r of Inl e \<Rightarrow> (Inl e, w) | Inr a \<Rightarrow> g a w)" for r
    using assms(2) by (cases r) (simp_all add: confined_return)
  ultimately show ?thesis
    using confined_bind [OF assms(1), of "\<lambda>r w. case r of Inl e \<Rightarrow> (Inl e, w) | Inr a \<Rightarrow> g a w"] by simp
qed

section \<open>Libraries whose contexts are independent\<close>

text \<open>
  The calls that the responders make after their transport is initialized. The files that are read
  are the same for everybody.
\<close>

definition independent_contexts :: "'w libspdm \<Rightarrow> 'w os \<Rightarrow> (ptr \<Rightarrow> 'w \<Rightarrow> 'v) \<Rightarrow> bool" where
  "independent_contexts L OS view \<longleftrightarrow>
     (\<forall>c. (\<forall>caps. confined view c (lib_init_connection L c caps)) \<and>
       confined view c (lib_get_digest L c) \<and>
       (\<forall>slot n. confined view c (lib_get_certificate L c slot n)) \<and>
       (\<forall>attr op slot n. confined view c (lib_get_measurement L c attr op slot n)) \<and>
       (\<forall>key loc v. confined view c (lib_set_data L c key loc v)) \<and>
       (\<forall>psk hash slot pol. confined view c (lib_start_session L c psk hash slot pol)) \<and>
       (\<forall>i attrs. confined view c (lib_stop_session L (Some c) i attrs)) \<and>
       (\<forall>i. confined view c (lib_heartbeat L (Some c) i)) \<and>
       (\<forall>w1 w2. view c w1 = view c w2 \<longrightarrow>
          lib_base_hash_algo L c w1 = lib_base_hash_algo L c w2 \<and>
          lib_base_asym_algo L c w1 = lib_base_asym_algo L c w2 \<and>
          (\<forall>key loc. lib_get_data32 L c key loc w1 = lib_get_data32 L c key loc w2) \<and>
          (\<forall>path. os_read_file OS path w1 = os_read_file OS path w2)))"

lemma independent_reads:
  assumes "independent_contexts L OS view" and "view c w1 = view c w2"
  shows "lib_base_hash_algo L c w1 = lib_base_hash_algo L c w2"
    and "lib_base_asym_algo L c w1 = lib_base_asym_algo L c w2"
    and "lib_get_data32 L c key loc w1 = lib_get_data32 L c key loc w2"
    and "os_read_file OS path w1 = os_read_file OS path w2"
  using assms unfolding independent_contexts_def by blast+

lemma independent_calls:
  assumes "independent_contexts L OS view"
  shows "confined view c (lib_init_connection L c caps)"
    and "confined view c (lib_get_digest L c)"
    and "confined view c (lib_get_certificate L c slot n)"
    and "confined view c (lib_get_measurement L c attr op slot len)"
    and "confined view c (lib_set_data L c key loc v)"
    and "confined view c (lib_start_session L c psk hash slot pol)"
    and "confined view c (lib_stop_session L (Some c) i attrs)"
    and "confined view c (lib_heartbeat L (Some c) i)"
  using assms by (simp_all add: independent_contexts_def)

section \<open>The method\<close>

lemma connection_confined:
  assumes "independent_contexts L OS view"
  shows "confined view c (initializeSpdmConnection L (Some (Some c)))"
proof -
  have "initializeSpdmConnection L (Some (Some c)) =
      (\<lambda>w. case lib_init_connection L c False w of (st, w) \<Rightarrow>
         (if IS_ERROR st then Inl (RuntimeError ''SPDM connection initialization failed'') else Inr (), w))"
    by (rule ext) (simp add: initializeSpdmConnection_def with_context_def split: prod.split)
  then show ?thesis
    by (simp add: confined_bind [OF independent_calls(1) [OF assms] confined_return])
qed

lemma digests_confined:
  assumes "independent_contexts L OS view"
  shows "confined view c (getCertificateDigests L (Some (Some c)))"
proof -
  have "getCertificateDigests L (Some (Some c)) =
      (\<lambda>w. case lib_get_digest L c w of ((st, slotMask, digests), w) \<Rightarrow>
         (if length digests > 8 * 48 then Inl Undefined
          else if IS_ERROR st then Inl (RuntimeError ''Failed to get certificate digests'')
          else
            (let digestBuffer = vec_write 0 digests (replicate (8 * 48) 0)
             in Inr (slotMask, digestBuffer, min (popcount slotMask * 48) (length digestBuffer))), w))"
    by (rule ext) (simp add: getCertificateDigests_def with_context_def Let_def split: prod.split)
  then show ?thesis
    using confined_bind [OF independent_calls(2) [OF assms] confined_return, of c
        "\<lambda>(st, slotMask, digests). (if length digests > 8 * 48 then Inl Undefined
          else if IS_ERROR st then Inl (RuntimeError ''Failed to get certificate digests'')
          else
            (let digestBuffer = vec_write 0 digests (replicate (8 * 48) 0)
             in Inr (slotMask, digestBuffer, min (popcount slotMask * 48) (length digestBuffer))))"]
    by (simp add: split_beta)
qed

lemma certificate_confined:
  assumes ind: "independent_contexts L OS view"
  shows "confined view c (getCertificate L mem (Some (Some c)) slotId)"
proof -
  let ?rest = "\<lambda>certChain algo.
    (let hash_size = lib_get_hash_size L algo in
     if length certChain < spdm_cert_chain_header_size + hash_size
     then Inl (RuntimeError ''Certificate chain too small'')
     else
       (case derCertsToPem mem (lib_x509_get_cert_from_cert_chain L)
               (drop (spdm_cert_chain_header_size + hash_size) certChain) of
          Inl e \<Rightarrow> Inl (Std_exception e)
        | Inr (pemChain, leafCert) \<Rightarrow> Inr (pemChain, certChain, leafCert)))"
  let ?g = "\<lambda>(st, certChain) algo.
    if IS_ERROR st then Inl (RuntimeError ''Failed to get certificate chain'') else ?rest certChain algo"
  have "confined view c (\<lambda>w. (?g a (lib_base_hash_algo L c w), w))" for a
    using confined_read [where g = "\<lambda>algo w. (?g a algo, w)", OF independent_reads(1) [OF ind] confined_return] .
  from confined_bind [OF independent_calls(3) [OF ind, of c "ucast slotId" LIBSPDM_MAX_CERT_CHAIN_SIZE] this]
  have "confined view c (\<lambda>w. case lib_get_certificate L c (ucast slotId) LIBSPDM_MAX_CERT_CHAIN_SIZE w of
      (a, w) \<Rightarrow> (?g a (lib_base_hash_algo L c w), w))" .
  moreover have "getCertificate L mem (Some (Some c)) slotId =
      (\<lambda>w. case lib_get_certificate L c (ucast slotId) LIBSPDM_MAX_CERT_CHAIN_SIZE w of
         (a, w) \<Rightarrow> (?g a (lib_base_hash_algo L c w), w))"
    by (rule ext) (simp add: getCertificate_def with_context_def Let_def split: prod.split sum.split)
  ultimately show ?thesis
    by simp
qed

lemma measurements_confined:
  assumes ind: "independent_contexts L OS view"
  shows "confined view c (getSignedMeasurements L (Some (Some c)) idxs nonce slotId)"
proof -
  have single: "confined view c (getSingleMeasurement L c i slotId)" for i
  proof -
    have "getSingleMeasurement L c i slotId =
        (\<lambda>w. case lib_get_measurement L c 0 (ucast i) (ucast slotId) MAX_MEASUREMENT_SIZE w of (a, w) \<Rightarrow>
           ((\<lambda>(st, n, measurement). if IS_ERROR st then Inl (RuntimeError ''Failed to get signed measurements'')
              else Inr (measurement, n)) a, w))"
      by (rule ext) (simp add: getSingleMeasurement_def Let_def split: prod.split)
    then show ?thesis
      by (simp add: confined_bind [OF independent_calls(4) [OF ind] confined_return])
  qed
  have loop: "confined view c (measurement_loop L c slotId is acc)" for "is" acc
  proof (induction "is" arbitrary: acc)
    case Nil
    have "measurement_loop L c slotId [] acc = (\<lambda>w. (Inr acc, w))"
      by (rule ext) simp
    then show ?case
      by (simp add: confined_return)
  next
    case (Cons i "is")
    have "measurement_loop L c slotId (i # is) acc =
        exn_bind (getSingleMeasurement L c i slotId)
          (\<lambda>(data, n). measurement_loop L c slotId is (processMeasurementData i data acc))"
      by (rule ext) simp
    with Cons single show ?case
      by (auto intro!: confined_exn_bind)
  qed
  have "getSignedMeasurements L (Some (Some c)) idxs nonce slotId =
      exn_bind (measurement_loop L c slotId (if idxs = [] then [255] else idxs) [])
        (\<lambda>all w. (Inr (base64Encode all), w))"
    by (rule ext) (simp add: getSignedMeasurements_def with_context_def)
  with loop show ?thesis
    by (auto intro!: confined_exn_bind confined_return)
qed

text \<open>A run whose outcome has two parts beside the world.\<close>

definition paired :: "('w \<Rightarrow> 'a \<times> 'b \<times> 'w) \<Rightarrow> 'w \<Rightarrow> ('a \<times> 'b) \<times> 'w" where
  "paired f w = (case f w of (a, b, w) \<Rightarrow> ((a, b), w))"

lemma paired_apply [simp]:
  "fst (paired f w) = (fst (f w), fst (snd (f w)))" "snd (paired f w) = snd (snd (f w))"
  by (simp_all add: paired_def split_beta)

lemma method_body_confined:
  assumes ind: "independent_contexts (L :: 'w libspdm) OS view"
  shows "confined view c (paired (method_body L C S filename mem add (Some (Some c)) idxs nonce slotId ci))"
proof -
  let ?T = "Some (Some c)"
  define finish :: "string \<Rightarrow> bytes \<Rightarrow> string \<Rightarrow> u32 \<Rightarrow> u32 \<Rightarrow> (exn + measurements_reply) \<times> component_integrity" where
    "finish pem leaf meas hash asym =
      (case updateCertificateObject S add (filename (ci_path ci)) pem leaf ci of
         (Inl e, ci) \<Rightarrow> (Inl e, ci)
       | (Inr path, ci) \<Rightarrow>
           (Inr (path, getHashingAlgorithmStr C (ucast hash), pem, meas,
                 getSigningAlgorithmStr C (ucast asym), type_version ci), ci))"
    for pem leaf meas hash asym
  let ?measured = "\<lambda>pem leaf r w.
    (case r of Inl e \<Rightarrow> ((Inl e, ci), w)
     | Inr meas \<Rightarrow> (finish pem leaf meas (lib_base_hash_algo L c w) (lib_base_asym_algo L c w), w))"
  let ?certified = "\<lambda>r w.
    (case r of Inl e \<Rightarrow> ((Inl e, ci), w)
     | Inr (pem, raw, leaf) \<Rightarrow>
         (case getSignedMeasurements L ?T idxs nonce slotId w of (r, w) \<Rightarrow> ?measured pem leaf r w))"
  let ?digested = "\<lambda>r w.
    (case r of Inl e \<Rightarrow> ((Inl e, ci), w)
     | Inr _ \<Rightarrow> (case getCertificate L mem ?T slotId w of (r, w) \<Rightarrow> ?certified r w))"
  let ?connected = "\<lambda>r w.
    (case r of Inl e \<Rightarrow> ((Inl e, ci), w)
     | Inr _ \<Rightarrow> (case getCertificateDigests L ?T w of (r, w) \<Rightarrow> ?digested r w))"
  have asym: "confined view c (\<lambda>w. (finish pem leaf meas hash (lib_base_asym_algo L c w), w))"
    for pem leaf meas hash
    using confined_read [where g = "\<lambda>asym w. (finish pem leaf meas hash asym, w)",
      OF independent_reads(2) [OF ind] confined_return] .
  have hash: "confined view c (\<lambda>w. (finish pem leaf meas (lib_base_hash_algo L c w) (lib_base_asym_algo L c w), w))"
    for pem leaf meas
    using confined_read [where g = "\<lambda>hash w. (finish pem leaf meas hash (lib_base_asym_algo L c w), w)",
      OF independent_reads(1) [OF ind] asym] .
  have measured: "confined view c (?measured pem leaf r)" for pem leaf r
    using hash by (cases r) (simp_all only: sum.case confined_return)
  have certified: "confined view c (?certified r)" for r
    using confined_bind [OF measurements_confined [OF ind] measured]
    by (cases r) (simp_all add: confined_return split_beta)
  have digested: "confined view c (?digested r)" for r
    using confined_bind [OF certificate_confined [OF ind] certified]
    by (cases r) (simp_all add: confined_return)
  have connected: "confined view c (?connected r)" for r
    using confined_bind [OF digests_confined [OF ind] digested]
    by (cases r) (simp_all add: confined_return)
  have run: "confined view c (\<lambda>w. case initializeSpdmConnection L ?T w of (r, w) \<Rightarrow> ?connected r w)"
    using connection_confined [OF ind] connected by (rule confined_bind)
  have "paired (method_body L C S filename mem add ?T idxs nonce slotId ci) =
    (case validateMeasurementIndices idxs of
       Inl e \<Rightarrow> (\<lambda>w. ((Inl e, ci), w))
     | Inr _ \<Rightarrow> (\<lambda>w. case initializeSpdmConnection L ?T w of (r, w) \<Rightarrow> ?connected r w))"
    by (rule ext)
      (auto simp: paired_def method_body_def finish_def Let_def split: sum.split prod.split)
  with run show ?thesis
    by (cases "validateMeasurementIndices idxs") (simp_all add: confined_return)
qed

lemma method_call_confined:
  assumes ind: "independent_contexts (L :: 'w libspdm) OS view"
  shows "confined view c (paired (method_call L C S filename mem add (Some (Some c)) idxs nonce slotId ci))"
proof -
  let ?body = "paired (method_body L C S filename mem add (Some (Some c)) idxs nonce slotId ci)"
  let ?caught = "\<lambda>(r, ci). (case r of
       Inl Undefined \<Rightarrow> (Inl Undefined, ci)
     | Inl e \<Rightarrow> (Inr (empty_reply ci), ci)
     | Inr reply \<Rightarrow> (Inr reply, ci))"
  have "paired (method_call L C S filename mem add (Some (Some c)) idxs nonce slotId ci) =
      (\<lambda>w. (?caught (fst (?body w)), snd (?body w)))"
    by (rule ext) (simp add: paired_def method_call_def split: sum.split prod.split exn.split)
  with confined_map [OF method_body_confined [OF ind], of c ?caught C S filename mem add idxs nonce slotId ci]
  show ?thesis
    by simp
qed

section \<open>The session\<close>

lemma loadPeerRootCert_view:
  assumes ind: "independent_contexts L OS view" and "view c w1 = view c w2"
  shows "loadPeerRootCert L OS C c cfg w1 = loadPeerRootCert L OS C c cfg w2"
  using independent_reads [OF assms]
  by (simp add: loadPeerRootCert_def loadCertFromFile_def readFile_def getNegotiatedAsymAlgo_def
      cong: if_cong option.case_cong)

lemma install_confined:
  assumes ind: "independent_contexts L OS view" and c: "spdmContext t = Some c"
  shows "confined view c (installPeerRootCert L OS C t cfg)"
proof -
  let ?g = "\<lambda>cert w.
    (case cert of
       None \<Rightarrow> (if configAttempted cfg then LIBSPDM_STATUS_INVALID_PARAMETER else LIBSPDM_STATUS_SUCCESS, w)
     | Some (data, source) \<Rightarrow>
         (case lib_set_data L c LIBSPDM_DATA_PEER_PUBLIC_ROOT_CERT LIBSPDM_DATA_LOCATION_LOCAL
                 (DataBlob data) w of
            (st, w) \<Rightarrow> (if IS_ERROR st then st else LIBSPDM_STATUS_SUCCESS, w)))"
  have "confined view c (?g cert)" for cert
    using confined_bind [OF independent_calls(5) [OF ind] confined_return]
    by (cases cert) (auto simp: confined_return)
  from confined_read [where g = ?g, OF loadPeerRootCert_view [OF ind] this]
  have "confined view c (\<lambda>w. ?g (loadPeerRootCert L OS C c cfg w) w)" .
  moreover have "installPeerRootCert L OS C t cfg = (\<lambda>w. ?g (loadPeerRootCert L OS C c cfg w) w)"
    by (rule ext) (simp add: installPeerRootCert_def c split: option.split prod.split)
  ultimately show ?thesis
    by simp
qed

lemma fetch_confined:
  assumes ind: "independent_contexts L OS view"
  shows "confined view c (fetchPeerCert L c slotId)"
proof -
  let ?h = "\<lambda>(st, chain :: bytes). if IS_ERROR st then st else LIBSPDM_STATUS_SUCCESS"
  let ?g = "\<lambda>(st, slotMask, digests :: bytes) w.
    (if IS_ERROR st then (st, w)
     else if \<not> slot_present slotMask slotId then (LIBSPDM_STATUS_INVALID_PARAMETER, w)
     else (?h (fst (lib_get_certificate L c slotId LIBSPDM_MAX_CERT_CHAIN_SIZE w)),
           snd (lib_get_certificate L c slotId LIBSPDM_MAX_CERT_CHAIN_SIZE w)))"
  have "confined view c (?g a)" for a
    using confined_map [OF independent_calls(3) [OF ind], of c ?h slotId LIBSPDM_MAX_CERT_CHAIN_SIZE]
    by (cases a; cases "IS_ERROR (fst a)"; cases "slot_present (fst (snd a)) slotId")
      (simp_all add: confined_return)
  from confined_bind [OF independent_calls(2) [OF ind] this]
  have "confined view c (\<lambda>w. case lib_get_digest L c w of (a, w) \<Rightarrow> ?g a w)" .
  moreover have "fetchPeerCert L c slotId = (\<lambda>w. case lib_get_digest L c w of (a, w) \<Rightarrow> ?g a w)"
    by (rule ext) (simp add: fetchPeerCert_def Let_def split_beta)
  ultimately show ?thesis
    by simp
qed

lemma start_confined:
  assumes ind: "independent_contexts L OS view"
  shows "confined view c (paired (session_start L (Some c) slotId hash pol False s))"
proof (cases "isActive s")
  case True
  then have "paired (session_start L (Some c) slotId hash pol False s) = (\<lambda>w. ((LIBSPDM_STATUS_SUCCESS, s), w))"
    by (intro ext) (simp add: paired_def session_start_def)
  then show ?thesis
    by (simp add: confined_return)
next
  case False
  let ?h = "\<lambda>(st, i, hb). (if IS_ERROR st then (st, s\<lparr>hbPeriod := hb, sess_id := i\<rparr>)
    else (LIBSPDM_STATUS_SUCCESS, s\<lparr>hbPeriod := hb, sess_id := i, isActive := True\<rparr>))"
  let ?g = "\<lambda>st w. if IS_ERROR st then ((st, s), w)
    else (?h (fst (lib_start_session L c False hash slotId pol w)), snd (lib_start_session L c False hash slotId pol w))"
  have "confined view c (?g st)" for st
    using confined_map [OF independent_calls(6) [OF ind], of c ?h]
    by (cases "IS_ERROR st") (simp_all add: confined_return)
  from confined_bind [OF fetch_confined [OF ind] this]
  have "confined view c (\<lambda>w. case fetchPeerCert L c slotId w of (st, w) \<Rightarrow> ?g st w)" .
  moreover have "paired (session_start L (Some c) slotId hash pol False s) =
      (\<lambda>w. case fetchPeerCert L c slotId w of (st, w) \<Rightarrow> ?g st w)"
    using False by (intro ext) (simp add: paired_def session_start_def Let_def split_beta)
  ultimately show ?thesis
    by simp
qed

lemma responder_context_transport:
  "responder_context st r = Some c \<Longrightarrow> \<exists>i. r_transport r = Some i \<and> any_context (st ! i) = Some c"
  by (auto simp: responder_context_def split: option.splits)

lemma open_confined:
  assumes ind: "independent_contexts L OS view" and c: "responder_context st r = Some c"
  shows "confined view c (paired (openSecureSession L OS C st cfg slotId r))"
proof -
  obtain i where i: "r_transport r = Some i" "any_context (st ! i) = Some c"
    using responder_context_transport [OF c] by blast
  have base: "spdmContext (any_base (st ! i)) = Some c"
    using i(2) by (cases "st ! i") (simp_all add: spdm_transport.defs)
  define s where "s = (case r_session r of None \<Rightarrow> spdm_session_init | Some s \<Rightarrow> s)"
  let ?h = "\<lambda>(e, s). (e, r\<lparr>r_session := Some s\<rparr>)"
  let ?start = "paired (session_start L (Some c) slotId (NO_MEASUREMENT_SUMMARY_HASH C) 0 False s)"
  let ?g = "\<lambda>e w. if IS_ERROR e then ((e, r), w)
    else if isActive s then ((LIBSPDM_STATUS_SUCCESS, r\<lparr>r_session := Some s\<rparr>), w)
    else (?h (fst (?start w)), snd (?start w))"
  have "confined view c (?g e)" for e
    using confined_map [OF start_confined [OF ind], of c ?h slotId _ 0 s]
    by (cases "IS_ERROR e"; cases "isActive s") (simp_all add: confined_return)
  from confined_bind [OF install_confined [OF ind base] this]
  have "confined view c (\<lambda>w. case installPeerRootCert L OS C (any_base (st ! i)) cfg w of (e, w) \<Rightarrow> ?g e w)" .
  moreover have "paired (openSecureSession L OS C st cfg slotId r) =
      (\<lambda>w. case installPeerRootCert L OS C (any_base (st ! i)) cfg w of (e, w) \<Rightarrow> ?g e w)"
    by (rule ext) (simp add: paired_def openSecureSession_def i s_def [symmetric] Let_def split_beta)
  ultimately show ?thesis
    by simp
qed

lemma close_confined:
  assumes ind: "independent_contexts L OS view" and c: "responder_context st r = Some c"
  shows "confined view c (paired (closeSecureSession L st r))"
proof (cases "r_session r")
  case None
  then have "paired (closeSecureSession L st r) = (\<lambda>w. ((LIBSPDM_STATUS_SUCCESS, r), w))"
    by (intro ext) (simp add: paired_def closeSecureSession_def)
  then show ?thesis
    by (simp add: confined_return)
next
  case (Some s)
  show ?thesis
  proof (cases "isActive s")
    case True
    let ?h = "\<lambda>st. (st, r\<lparr>r_session := Some (s\<lparr>isActive := False\<rparr>)\<rparr>)"
    have "paired (closeSecureSession L st r) =
        (\<lambda>w. (?h (fst (lib_stop_session L (Some c) (sess_id s) 0 w)), snd (lib_stop_session L (Some c) (sess_id s) 0 w)))"
      using Some True by (intro ext) (simp add: paired_def closeSecureSession_def session_stop_def c split_beta)
    then show ?thesis
      using confined_map [OF independent_calls(7) [OF ind], of c ?h] by simp
  next
    case False
    with Some have "paired (closeSecureSession L st r) =
        (\<lambda>w. ((LIBSPDM_STATUS_SUCCESS, r\<lparr>r_session := Some s\<rparr>), w))"
      by (intro ext) (simp add: paired_def closeSecureSession_def session_stop_def)
    then show ?thesis
      by (simp add: confined_return)
  qed
qed

lemma heartbeat_confined:
  assumes ind: "independent_contexts L OS view" and c: "responder_context st r = Some c"
  shows "confined view c (sendHeartbeat L st r)"
proof (cases "secureSessionActive r")
  case True
  then obtain s where "r_session r = Some s" "isActive s"
    by (auto simp: secureSessionActive_def split: option.splits)
  then have "sendHeartbeat L st r = lib_heartbeat L (Some c) (sess_id s)"
    by (intro ext) (simp add: sendHeartbeat_def session_heartbeat_def c)
  then show ?thesis
    by (simp add: independent_calls(8) [OF ind])
next
  case False
  then have "sendHeartbeat L st r = (\<lambda>w. (LIBSPDM_STATUS_INVALID_STATE_LOCAL, w))"
    by (intro ext) (auto simp: sendHeartbeat_def secureSessionActive_def split: option.splits)
  then show ?thesis
    by (simp add: confined_return)
qed

end
