(* ===== verification/Daemon_Isolation.thy ===== *)
theory Daemon_Isolation
  imports Daemon_Spec Context_Views
begin

text \<open>
  The responders of \<^verbatim>\<open>requester/spdmd.cpp\<close> do not disturb each other. In every reachable state each one
  works over a live context of its own, so what stays within a context (\<^verbatim>\<open>Context_Views\<close>) stays within
  one responder: a measurement of one device leaves the session and the later replies of the others as
  they were, and switching secure sessions gives each responder what it would get alone, whatever its
  place in the list.
\<close>

section \<open>Each responder has its own context\<close>

lemma distinct_map_neq: "distinct (map f xs) \<Longrightarrow> i < length xs \<Longrightarrow> j < length xs \<Longrightarrow> i \<noteq> j \<Longrightarrow> f (xs ! i) \<noteq> f (xs ! j)"
  by (metis length_map nth_eq_iff_index_eq nth_map)

lemma responder_transports_distinct:
  assumes "shared_ok s"
  shows "distinct (map r_transport (responders s))"
proof -
  have "subseq (map snd (map responder_key (responders s))) (map snd (map device_key (discoveredDevices s)))"
    using assms by (intro subseq_map) (simp add: shared_ok_def)
  moreover have "distinct (map snd (map device_key (discoveredDevices s)))"
    using assms by (simp add: shared_ok_def devices_ok_def refs_def device_key_def comp_def)
  ultimately have "distinct (map snd (map responder_key (responders s)))"
    using subseq_distinct_list by blast
  then show ?thesis
    by (simp add: responder_key_def comp_def)
qed

lemma reachable_contexts:
  assumes "reachable E J d" and "j < length (responders (d_shared d))"
  obtains i c where "r_transport (responders (d_shared d) ! j) = Some i"
    and "any_context (d_store (d_shared d) ! i) = Some c"
    and "responder_context (d_store (d_shared d)) (responders (d_shared d) ! j) = Some c"
    and "c \<in> live (mheap (d_machine (d_shared d)))"
proof -
  let ?s = "d_shared d"
  have "responder_ok (d_store ?s) (responders ?s ! j)"
    using reachable_ok [OF assms(1)] assms(2)
    by (simp add: daemon_ok_def shared_ok_def list_all_length)
  then obtain i c where i: "r_transport (responders ?s ! j) = Some i" "i < length (d_store ?s)"
    and c: "any_context (d_store ?s ! i) = Some c"
    by (auto simp: responder_ok_def)
  have "separate any_context any_scratch (d_store ?s) (mheap (d_machine ?s))"
    using reachable_owns [OF assms(1)] by (auto simp: daemon_owns_def shared_owns_def)
  with scratches_nth [OF i(2), of any_context] c have "c \<in> live (mheap (d_machine ?s))"
    by (auto simp: separate_def)
  with i c show ?thesis
    by (intro that [of i c]) (simp_all add: responder_context_def)
qed

lemma reachable_contexts_distinct:
  assumes reach: "reachable E J d"
  shows "distinct (map (responder_context (d_store (d_shared d))) (responders (d_shared d)))"
    (is "distinct (map ?ctx ?rs)")
proof -
  let ?s = "d_shared d"
  have "?ctx (?rs ! j) \<noteq> ?ctx (?rs ! k)" if jk: "j < length ?rs" "k < length ?rs" "j \<noteq> k" for j k
  proof -
    obtain i c where j: "r_transport (?rs ! j) = Some i" "any_context (d_store ?s ! i) = Some c"
      "?ctx (?rs ! j) = Some c"
      using reachable_contexts [OF reach jk(1)] by metis
    obtain l c' where k: "r_transport (?rs ! k) = Some l" "any_context (d_store ?s ! l) = Some c'"
      "?ctx (?rs ! k) = Some c'"
      using reachable_contexts [OF reach jk(2)] by metis
    have ok: "shared_ok ?s"
      using reachable_ok [OF reach] by (simp add: daemon_ok_def)
    then have "i \<noteq> l"
      using distinct_map_neq [OF responder_transports_distinct jk] j(1) k(1) by metis
    moreover have "i < length (d_store ?s)" "l < length (d_store ?s)"
      using ok jk(1,2) j(1) k(1) by (auto simp: shared_ok_def list_all_length responder_ok_def)
    moreover have "separate any_context any_scratch (d_store ?s) (mheap (d_machine ?s))"
      using reachable_owns [OF reach] by (auto simp: daemon_owns_def shared_owns_def)
    ultimately have "c \<noteq> c'"
      using separate_nth j(2) k(2) by metis
    with j k show ?thesis
      by simp
  qed
  then show ?thesis
    by (simp add: distinct_conv_nth)
qed

section \<open>A measurement of another device\<close>

text \<open>The reply of a measurement is determined by the view of the responder's context.\<close>

definition measure_call ::
    "'w env \<Rightarrow> ('c, 'n, 't, 'b) openssl \<Rightarrow> string list \<Rightarrow> ptr \<Rightarrow> u64 list \<Rightarrow> string \<Rightarrow> u64
     \<Rightarrow> component_integrity \<Rightarrow> 'w \<Rightarrow> ((exn + measurements_reply) \<times> component_integrity) \<times> 'w"
where
  "measure_call E S objects c idxs nonce slotId ci =
     paired (method_call (env_lib E) (env_consts E) S (env_filename E) (env_memory E)
       (env_add_object E objects) (Some (Some c)) idxs nonce slotId ci)"

lemma measure_call_confined:
  "independent_contexts (env_lib E) (env_os E) view \<Longrightarrow>
   confined view c (measure_call E S objects c idxs nonce slotId ci)"
  unfolding measure_call_def by (rule method_call_confined)

lemma measure_reply:
  assumes c: "responder_context (d_store s) (responders s ! k) = Some c"
  shows "measure_responder E S k idxs nonce slotId s =
    (case measure_call E S (bus_objects (responders s)) c idxs nonce slotId
            (componentIntegrity (responders s ! k)) (world (d_machine s)) of
       ((reply, ci), w) \<Rightarrow>
         (reply, s\<lparr>responders := (responders s)[k := (responders s ! k)\<lparr>componentIntegrity := ci\<rparr>],
                   d_machine := put_world w (d_machine s)\<rparr>))"
proof -
  have "deref (d_store s) (r_transport (responders s ! k)) = Some (Some c)"
    using c by (auto simp: deref_def responder_context_def split: option.splits)
  then show ?thesis
    by (simp add: measure_responder_def measure_call_def paired_def Let_def split: prod.split)
qed

lemma measure_isolated:
  assumes ind: "independent_contexts (env_lib E) (env_os E) view"
    and k: "responder_context (d_store s) (responders s ! k) = Some c" "k < length (responders s)"
    and j: "responder_context (d_store s) (responders s ! j) = Some c'"
    and "c' \<noteq> c" "j \<noteq> k" and call: "measure_responder E S k idxs nonce slotId s = (reply, s')"
  shows "responders s' ! j = responders s ! j \<and> d_store s' = d_store s \<and>
    view c' (world (d_machine s')) = view c' (world (d_machine s)) \<and>
    fst (measure_responder E T j idxs' nonce' slotId' s') = fst (measure_responder E T j idxs' nonce' slotId' s)"
proof -
  let ?objects = "bus_objects (responders s)" and ?w = "world (d_machine s)"
  let ?mine = "measure_call E S ?objects c idxs nonce slotId (componentIntegrity (responders s ! k))"
  let ?other = "measure_call E T ?objects c' idxs' nonce' slotId' (componentIntegrity (responders s ! j))"
  have s': "s' = s\<lparr>responders :=
        (responders s)[k := (responders s ! k)\<lparr>componentIntegrity := snd (fst (?mine ?w))\<rparr>],
      d_machine := put_world (snd (?mine ?w)) (d_machine s)\<rparr>"
    using call unfolding measure_reply [OF k(1)] by (simp add: split_beta)
  have same: "responders s' ! j = responders s ! j" "d_store s' = d_store s"
    "world (d_machine s') = snd (?mine ?w)"
    using \<open>j \<noteq> k\<close> by (simp_all add: s' put_world_def)
  have objects: "bus_objects (responders s') = ?objects"
    by (rule measure_bus_objects [OF call k(2)])
  have view: "view c' (snd (?mine ?w)) = view c' ?w"
    by (rule confined_other [OF measure_call_confined [OF ind] \<open>c' \<noteq> c\<close>])
  have "fst (?other (snd (?mine ?w))) = fst (?other ?w)"
    by (rule confined_same(1) [OF measure_call_confined [OF ind] view])
  moreover have "responder_context (d_store s') (responders s' ! j) = Some c'"
    using j same by simp
  ultimately have "fst (measure_responder E T j idxs' nonce' slotId' s') =
      fst (measure_responder E T j idxs' nonce' slotId' s)"
    by (simp add: measure_reply [OF j] measure_reply [of s' j c'] same objects split_beta)
  then show ?thesis
    using same view by simp
qed

section \<open>Opening and closing sessions, one responder after the other\<close>

fun map_state :: "('a \<Rightarrow> 'w \<Rightarrow> 'b \<times> 'w) \<Rightarrow> 'a list \<Rightarrow> 'w \<Rightarrow> 'b list \<times> 'w" where
  "map_state f [] w = ([], w)"
| "map_state f (x # xs) w = (let (y, w) = f x w; (ys, w) = map_state f xs w in (y # ys, w))"

lemma map_state_length [simp]: "length (fst (map_state f xs w)) = length xs"
  by (induction xs arbitrary: w) (simp_all add: split_beta Let_def)

lemma map_state_other:
  "list_all (\<lambda>x. \<exists>c. ctx x = Some c \<and> confined view c (f x)) xs \<Longrightarrow> Some c' \<notin> set (map ctx xs) \<Longrightarrow>
   view c' (snd (map_state f xs w)) = view c' w"
proof (induction xs arbitrary: w)
  case (Cons x xs)
  then obtain c where c: "ctx x = Some c" "confined view c (f x)" "c' \<noteq> c"
    by auto
  with Cons confined_other [OF c(2,3)] show ?case
    by (simp add: split_beta Let_def)
qed simp

text \<open>Runs in pairwise different contexts give each element what it would get alone.\<close>

lemma map_state_pointwise:
  "list_all (\<lambda>x. \<exists>c. ctx x = Some c \<and> confined view c (f x)) xs \<Longrightarrow> distinct (map ctx xs) \<Longrightarrow>
   j < length xs \<Longrightarrow> ctx (xs ! j) = Some c \<Longrightarrow>
   fst (map_state f xs w) ! j = fst (f (xs ! j) w) \<and>
   view c (snd (map_state f xs w)) = view c (snd (f (xs ! j) w))"
proof (induction xs arbitrary: w j)
  case (Cons x xs)
  then obtain b where b: "ctx x = Some b" "confined view b (f x)"
    and tail: "list_all (\<lambda>x. \<exists>c. ctx x = Some c \<and> confined view c (f x)) xs" "distinct (map ctx xs)"
      "Some b \<notin> set (map ctx xs)"
    by auto
  show ?case
  proof (cases j)
    case 0
    with Cons.prems(4) b(1) map_state_other [OF tail(1,3)] show ?thesis
      by (simp add: split_beta Let_def)
  next
    case (Suc k)
    with Cons.prems have k: "k < length xs" "ctx (xs ! k) = Some c"
      by simp_all
    then have "Some c \<in> set (map ctx xs)"
      by (metis length_map nth_map nth_mem)
    with tail(3) have "c \<noteq> b"
      by auto
    from confined_other [OF b(2) this, of w] have view: "view c (snd (f x w)) = view c w" .
    obtain a where "ctx (xs ! k) = Some a" "confined view a (f (xs ! k))"
      using tail(1) k(1) by (auto simp: list_all_length)
    with k(2) have "confined view c (f (xs ! k))"
      by simp
    from confined_same [OF this, where ?w1.0 = "snd (f x w)" and ?w2.0 = w] view
    have "fst (f (xs ! k) (snd (f x w))) = fst (f (xs ! k) w)"
      "view c (snd (f (xs ! k) (snd (f x w)))) = view c (snd (f (xs ! k) w))"
      by simp_all
    with Cons.IH [OF tail(1,2) k, of "snd (f x w)"] Suc show ?thesis
      by (simp add: split_beta Let_def)
  qed
qed simp

text \<open>What the callback for the secure-session flag does to one responder.\<close>

definition switch_session :: "'w env \<Rightarrow> bool \<Rightarrow> store \<Rightarrow> responder \<Rightarrow> 'w \<Rightarrow> responder \<times> 'w" where
  "switch_session E v st r w =
     (if v then (if secureSessionActive r then (r, w) else open_and_heartbeat E st r w)
      else if secureSessionActive r
      then (let (e, r, w) = closeSecureSession (env_lib E) st r w in (r, w)) else (r, w))"

lemma switch_session_map:
  "open_inactive E st rs w = map_state (switch_session E True st) rs w"
  "close_active (env_lib E) st rs w = map_state (switch_session E False st) rs w"
  by (induction rs arbitrary: w) (simp_all add: switch_session_def Let_def split_beta)

lemma switch_session_confined:
  assumes ind: "independent_contexts (env_lib E) (env_os E) view" and c: "responder_context st r = Some c"
  shows "confined view c (switch_session E v st r)"
proof -
  let ?open = "paired (openSecureSession (env_lib E) (env_os E) (env_consts E) st (sessionCfg E) 0 r)"
  let ?g = "\<lambda>(e, r) w. if IS_ERROR e then (r, w) else (r, snd (sendHeartbeat (env_lib E) st r w))"
  have beat: "confined view c (\<lambda>w. (r', snd (sendHeartbeat (env_lib E) st r' w)))" if "r_transport r' = r_transport r" for r'
  proof -
    have "responder_context st r' = Some c"
      using c that by (simp add: responder_context_def)
    from confined_map [OF heartbeat_confined [OF ind this], of "\<lambda>e. r'"] show ?thesis .
  qed
  have "confined view c (\<lambda>w. case ?open w of (a, w) \<Rightarrow> ?g a w)"
  proof (rule confinedI)
    fix w c'
    assume "c' \<noteq> c"
    let ?r = "snd (fst (?open w))"
    have "r_transport ?r = r_transport r"
      using sans_session_cong(1) [OF open_sans_session] by simp
    from confined_other [OF beat [OF this] \<open>c' \<noteq> c\<close>, of "snd (?open w)"]
      confined_other [OF open_confined [OF ind c] \<open>c' \<noteq> c\<close>]
    show "view c' (snd (case ?open w of (a, w) \<Rightarrow> ?g a w)) = view c' w"
      by (simp add: split_beta)
  next
    fix w1 w2
    assume eq: "view c w1 = view c w2"
    note o = confined_same [OF open_confined [OF ind c], where ?w1.0 = w1 and ?w2.0 = w2, OF eq]
    let ?r = "snd (fst (?open w2))"
    have "r_transport ?r = r_transport r"
      using sans_session_cong(1) [OF open_sans_session] by simp
    from confined_same [OF beat [OF this], where ?w1.0 = "snd (?open w1)" and ?w2.0 = "snd (?open w2)"] o
    show "fst (case ?open w1 of (a, w) \<Rightarrow> ?g a w) = fst (case ?open w2 of (a, w) \<Rightarrow> ?g a w) \<and>
        view c (snd (case ?open w1 of (a, w) \<Rightarrow> ?g a w)) = view c (snd (case ?open w2 of (a, w) \<Rightarrow> ?g a w))"
      by (simp add: split_beta)
  qed
  moreover have "open_and_heartbeat E st r = (\<lambda>w. case ?open w of (a, w) \<Rightarrow> ?g a w)"
    by (rule ext) (simp add: open_and_heartbeat_def paired_def split_beta)
  moreover have "confined view c (\<lambda>w. (snd (fst (paired (closeSecureSession (env_lib E) st r) w)),
      snd (paired (closeSecureSession (env_lib E) st r) w)))"
    by (rule confined_map [OF close_confined [OF ind c]])
  ultimately show ?thesis
    by (cases v; cases "secureSessionActive r")
      (simp_all add: switch_session_def [abs_def] confined_return split_beta)
qed

section \<open>An example\<close>

text \<open>
  Two TCP devices. The world counts the measurements taken on each context, and a device answers with
  the count.
\<close>

definition counting_libspdm :: "(ptr \<Rightarrow> nat) libspdm" where
  "counting_libspdm = (lift_libspdm example_libspdm)\<lparr>lib_get_measurement :=
     \<lambda>c attr op slot n w. ((LIBSPDM_STATUS_SUCCESS, 1, [op, of_nat (w c)]), w(c := Suc (w c)))\<rparr>"

definition counting_env :: "(ptr \<Rightarrow> nat) env" where
  "counting_env =
     \<lparr>env_lib = counting_libspdm,
      env_os = \<lparr>os_malloc = (\<lambda>n w. (True, w)), os_mctp_socket = (\<lambda>w. ((3, 0), w)),
        os_read_file = (\<lambda>path w. Some [0x30]),
        os_tcp_connect = (\<lambda>ip p w. (fst (os_tcp_connect example_os ip p ()), w))\<rparr>,
      env_consts = dsp0274, env_filename = (\<lambda>p. p), env_attach = AttachUnknown, env_now = (\<lambda>w. 0),
      env_asyncCtx = True, env_add_object = (\<lambda>objects path. path \<notin> set objects), env_memory = plenty\<rparr>"

definition counting_view :: "ptr \<Rightarrow> (ptr \<Rightarrow> nat) \<Rightarrow> nat" where
  "counting_view c w = w c"

lemma counting_independent:
  "independent_contexts (env_lib counting_env) (env_os counting_env) counting_view"
proof -
  have "confined counting_view c (lib_get_measurement counting_libspdm c attr op slot n)" for c attr op slot n
    by (rule confinedI) (simp_all add: counting_libspdm_def counting_view_def)
  then show ?thesis
    by (simp add: independent_contexts_def counting_env_def counting_libspdm_def lift_libspdm_def
        example_libspdm_def confined_return)
qed

lemma counting_cooperative: "cooperative counting_env"
  by (simp add: cooperative_def counting_env_def counting_libspdm_def lift_libspdm_def
      example_os_def example_libspdm_def)

lemma counting_secure: "secure_device counting_env"
  by (simp add: secure_device_def counting_env_def counting_libspdm_def lift_libspdm_def example_libspdm_def
      loadPeerRootCert_def sessionCfg_def default_SecureSessionConfig_def asymAlgoSubdir_def
      getNegotiatedAsymAlgo_def dsp0274_def loadCertFromFile_def readFile_def slot_present_def)

lemma counting_sd_bus: "sd_bus counting_env"
  by (simp add: sd_bus_def counting_env_def)

lemma two_responders:
  "\<exists>d. reachable counting_env example_json d \<and> pm_enabled (d_policy d) \<and>
     pm_secure_session_enabled (d_policy d) \<and>
     map (\<lambda>r. (responder_key r, secureSessionActive r)) (responders (d_shared d)) =
       [((''/a'', Some 0), True), ((''/b'', Some 1), True)]"
proof -
  let ?p = "example_policy\<lparr>pm_enabled := True\<rparr>"
  let ?m = "\<lparr>mheap = empty_heap, mkernel = \<lparr>open_fds = {}, nonblocking = {}\<rparr>, world = (\<lambda>_. 0 :: nat)\<rparr>"
  let ?init = "\<lparr>d_policy = ?p, d_shared = \<lparr>d_store = [], d_machine = ?m, responders = [], discoveredDevices = []\<rparr>,
    d_awaiting = True\<rparr>"
  have start: "reachable counting_env example_json ?init"
    by (rule reachable_start [of ?m _ None ?p]) (simp_all add: main_start_def load_def empty_heap_def heap_ok_def)
  obtain devices st where
    found: "tcp_discoverDevices dsp0274 True (Then_first, Some two_objects) [] = Some (devices, st)"
    and keys: "map device_key devices = [(''/a'', Some 0), (''/b'', Some 1)]"
    and paths: "map deviceObjectPath devices = [''/a'', ''/b'']"
    using two_devices by (elim exE conjE)
  let ?found = "\<lparr>d_store = st, d_machine = ?m, responders = [], discoveredDevices = []\<rparr>"
  let ?d = "\<lparr>d_policy = ?p, d_shared = discovery_callback counting_env ?p devices ?found, d_awaiting = False\<rparr>"
  have "daemon_discover counting_env (Tcp_reply (Then_first, Some two_objects)) (d_store (d_shared ?init)) =
      Some (devices, st)"
    using found by (simp add: counting_env_def)
  then have step: "step counting_env ?init ?d"
    using step_discovered [of ?init counting_env "Tcp_reply (Then_first, Some two_objects)" devices st] by simp
  have reach: "reachable counting_env example_json ?d"
    using start step by (rule reachable_step)
  let ?s = "\<lparr>d_store = st, d_machine = ?m, responders = [], discoveredDevices = devices\<rparr>"
  have s: "d_shared ?d = processDiscoveredDevices counting_env devices True ?s"
    by (simp add: discovery_callback_def example_policy_def)
  have "devices_ok st devices"
    using daemon_discover_ok [of counting_env "Tcp_reply (Then_first, Some two_objects)" "[]" devices st] found
    by (simp add: counting_env_def)
  moreover have "published counting_env devices = devices"
  proof (rule published_all)
    have "bus_name counting_env = deviceObjectPath"
      by (rule ext) (simp add: bus_name_def counting_env_def)
    with paths have "map (bus_name counting_env) devices = [''/a'', ''/b'']"
      by simp
    then show "distinct (map (bus_name counting_env) devices)"
      by simp
  qed (simp add: bus_accepts_def counting_env_def list_all_iff)
  ultimately have "served (d_shared ?d) = map (\<lambda>d. (device_key d, True)) devices"
    using processed_served [OF counting_cooperative counting_sd_bus counting_secure _ _ s]
    by (simp add: empty_heap_def heap_ok_def)
  also have "\<dots> = map (\<lambda>k. (k, True)) (map device_key devices)"
    by (simp add: comp_def)
  finally have "served (d_shared ?d) = [((''/a'', Some 0), True), ((''/b'', Some 1), True)]"
    by (simp add: keys)
  with reach show ?thesis
    by (intro exI [of _ ?d]) (simp add: served_def example_policy_def)
qed

section \<open>Properties\<close>

text \<open>
  C8. The responders are isolated from each other. In every reachable state each responder has a live
  libspdm context of its own. If libspdm keeps its contexts apart, then a call of the measurement
  method on one responder leaves every other responder, the transports and all that belongs to the
  other's context and device as they were, and the reply that the other gives afterwards to any
  request is the one it would have given before.
\<close>

theorem responders_isolated:
  assumes "independent_contexts (env_lib E) (env_os E) view" and "reachable E J d"
    and "j < length (responders (d_shared d))" "k < length (responders (d_shared d))" "j \<noteq> k"
    and "measure_responder E S k idxs nonce slotId (d_shared d) = (reply, s)"
  shows "\<exists>c. responder_context (d_store (d_shared d)) (responders (d_shared d) ! j) = Some c \<and>
    c \<in> live (mheap (d_machine (d_shared d))) \<and>
    responder_context (d_store (d_shared d)) (responders (d_shared d) ! k) \<noteq> Some c \<and>
    responders s ! j = responders (d_shared d) ! j \<and> d_store s = d_store (d_shared d) \<and>
    view c (world (d_machine s)) = view c (world (d_machine (d_shared d))) \<and>
    fst (measure_responder E T j idxs' nonce' slotId' s) =
      fst (measure_responder E T j idxs' nonce' slotId' (d_shared d))"
proof -
  let ?s = "d_shared d"
  obtain c where j: "responder_context (d_store ?s) (responders ?s ! j) = Some c"
    and live: "c \<in> live (mheap (d_machine ?s))"
    using reachable_contexts [OF assms(2,3)] by metis
  obtain b where k: "responder_context (d_store ?s) (responders ?s ! k) = Some b"
    using reachable_contexts [OF assms(2,4)] by metis
  have "c \<noteq> b"
    using distinct_map_neq [OF reachable_contexts_distinct [OF assms(2)] assms(3-5)] j k by simp
  with measure_isolated [OF assms(1) k assms(4) j this assms(5,6)] j k live show ?thesis
    by simp
qed

lemma responders_isolated_witness:
  "\<exists>d c. reachable counting_env example_json d \<and>
     responder_context (d_store (d_shared d)) (responders (d_shared d) ! 1) = Some c \<and>
     world (d_machine (snd (measure_responder counting_env (no_openssl :: (unit, unit, unit, unit) openssl)
         0 [1] ''n'' 0 (d_shared d)))) c = world (d_machine (d_shared d)) c"
proof -
  obtain d where d: "reachable counting_env example_json d"
    and two: "map (\<lambda>r. (responder_key r, secureSessionActive r)) (responders (d_shared d)) =
       [((''/a'', Some 0), True), ((''/b'', Some 1), True)]"
    using two_responders by (elim exE conjE)
  have "1 < length (responders (d_shared d))" "0 < length (responders (d_shared d))"
    using arg_cong [OF two, of length] by simp_all
  from responders_isolated [OF counting_independent d this one_neq_zero prod.collapse [symmetric],
      where S = "no_openssl :: (unit, unit, unit, unit) openssl" and idxs = "[1]" and nonce = "''n''" and slotId = 0
        and T = "no_openssl :: (unit, unit, unit, unit) openssl" and idxs' = "[255]" and nonce' = "[]" and slotId' = 0]
  obtain c where
    "responder_context (d_store (d_shared d)) (responders (d_shared d) ! 1) = Some c"
    "counting_view c (world (d_machine (snd (measure_responder counting_env
       (no_openssl :: (unit, unit, unit, unit) openssl) 0 [1] ''n'' 0 (d_shared d))))) =
     counting_view c (world (d_machine (d_shared d)))"
    by (elim exE conjE)
  then show ?thesis
    using d unfolding counting_view_def by (intro exI conjI)
qed

text \<open>
  C9. Switching secure sessions on or off does to each responder what it would do to it alone: although
  the callback goes through the responders one after the other over one world, the session that a
  responder ends up with does not depend on the others or on its place in the list, whatever fails for
  them.
\<close>

theorem secure_switch_pointwise:
  assumes "independent_contexts (env_lib E) (env_os E) view" and "reachable E J d"
    and "pm_enabled (d_policy d)" "pm_secure_session_enabled (d_policy d) \<noteq> v"
    and "set_property_secure_session_enabled (daemon_callbacks E) v (d_policy d) (d_shared d) = (r, p, s)"
  shows "length (responders s) = length (responders (d_shared d)) \<and>
    (\<forall>j < length (responders s). responders s ! j =
       (let r = responders (d_shared d) ! j; st = d_store (d_shared d); w = world (d_machine (d_shared d)) in
        if secureSessionActive r = v then r
        else if v then fst (open_and_heartbeat E st r w)
        else fst (snd (closeSecureSession (env_lib E) st r w))))"
proof -
  let ?s = "d_shared d"
  let ?st = "d_store ?s" and ?w = "world (d_machine ?s)" and ?rs = "responders ?s"
  let ?p = "(d_policy d)\<lparr>pm_secure_session_enabled := v\<rparr>"
  have cb: "secureSessionEnabledChangeCallback (daemon_callbacks E) = Some (secure_callback E)"
    by (simp add: daemon_callbacks_def registerSecureSessionEnabledChangeCallback_def)
  have "s = secure_callback E (\<not> v) v ?p ?s"
    using assms(4,5) secure_property.set_change [of v "d_policy d" "daemon_callbacks E" ?s]
    by (auto simp: call_back_def cb)
  then have rs: "responders s = fst (map_state (switch_session E v ?st) ?rs ?w)"
    using assms(3) by (cases v) (simp_all add: secure_callback_def split_beta switch_session_map)
  have ctx: "\<exists>c. responder_context ?st (?rs ! j) = Some c" if "j < length ?rs" for j
    using reachable_contexts [OF assms(2) that] by metis
  then have "list_all (\<lambda>r. \<exists>c. responder_context ?st r = Some c \<and> confined view c (switch_session E v ?st r)) ?rs"
    unfolding list_all_length by (metis switch_session_confined [OF assms(1)])
  from map_state_pointwise [OF this reachable_contexts_distinct [OF assms(2)]] ctx
  have "responders s ! j = fst (switch_session E v ?st (?rs ! j) ?w)" if "j < length ?rs" for j
    using that unfolding rs by metis
  then show ?thesis
    by (auto simp: rs switch_session_def Let_def split_beta)
qed

lemma secure_switch_pointwise_witness:
  "\<exists>d r p s. reachable counting_env example_json d \<and>
     set_property_secure_session_enabled (daemon_callbacks counting_env) False (d_policy d) (d_shared d) = (r, p, s) \<and>
     length (responders s) = 2 \<and>
     responders s ! 1 = fst (snd (closeSecureSession (env_lib counting_env) (d_store (d_shared d))
       (responders (d_shared d) ! 1) (world (d_machine (d_shared d)))))"
proof -
  obtain d where d: "reachable counting_env example_json d" "pm_enabled (d_policy d)"
    "pm_secure_session_enabled (d_policy d)"
    and two: "map (\<lambda>r. (responder_key r, secureSessionActive r)) (responders (d_shared d)) =
       [((''/a'', Some 0), True), ((''/b'', Some 1), True)]"
    using two_responders by (elim exE conjE)
  obtain r p s where set: "set_property_secure_session_enabled (daemon_callbacks counting_env) False
      (d_policy d) (d_shared d) = (r, p, s)"
    by (metis prod_cases3)
  have n: "length (responders (d_shared d)) = 2"
    using arg_cong [OF two, of length] by simp
  have "secureSessionActive (responders (d_shared d) ! 1)"
    using arg_cong [OF two, of "\<lambda>xs. snd (xs ! 1)"] n by simp
  with secure_switch_pointwise [OF counting_independent d(1,2) _ set] d(3) n
  have "length (responders s) = 2"
    "responders s ! 1 = fst (snd (closeSecureSession (env_lib counting_env) (d_store (d_shared d))
       (responders (d_shared d) ! 1) (world (d_machine (d_shared d)))))"
    by (simp_all add: Let_def)
  with d(1) set show ?thesis
    by (intro exI conjI)
qed

end
