(* ===== verification/Transport_Callbacks.thy ===== *)
theory Transport_Callbacks
  imports Transport_Lifecycle
begin

text \<open>
  The callbacks that the transports register with libspdm: sending and receiving one message
  (\<open>device_send_message\<close>, \<open>device_receive_message\<close> of \<^verbatim>\<open>libspdm_mctp_transport.cpp\<close>,
  \<open>deviceSendMessage\<close>, \<open>deviceReceiveMessage\<close> of \<^verbatim>\<open>libspdm_tcp_transport.cpp\<close>), which compose the
  framing with the socket, and the buffer callbacks. The transport argument is what
  \<^verbatim>\<open>app_context_data_ptr\<close> of the context holds. The argument \<open>mem\<close> says which vectors there is memory
  for; the \<^verbatim>\<open>catch\<close> blocks make a failed transfer of the exception.
\<close>

section \<open>MCTP\<close>

definition mctp_device_send_message ::
    "memory \<Rightarrow> int \<Rightarrow> u64 \<Rightarrow> mctp_transport option \<Rightarrow> bytes
     \<Rightarrow> mem_error + (status \<times> mctp_datagram option)"
where
  "mctp_device_send_message mem sendto_ret timeout transport msg =
     (case transport of
        None \<Rightarrow> Inr (LIBSPDM_STATUS_INVALID_STATE_LOCAL, None)
      | Some t \<Rightarrow>
          if \<not> vec_fits mem [] (length msg) then Inr (LIBSPDM_STATUS_SEND_FAIL, None)
          else
            (case mctp_encode mem (eid t) [] msg of
               Inl Bad_alloc \<Rightarrow> Inr (LIBSPDM_STATUS_SEND_FAIL, None)
             | Inr (st, mctpMessage) \<Rightarrow>
                 if st \<noteq> LIBSPDM_STATUS_SUCCESS then Inr (LIBSPDM_STATUS_SEND_FAIL, None)
                 else
                   (case mctp_write sendto_ret timeout (mctpIo t) mctpMessage of
                      Inl e \<Rightarrow> Inl e
                    | Inr (ret, dg) \<Rightarrow>
                        if ret \<noteq> LIBSPDM_STATUS_SUCCESS then Inr (LIBSPDM_STATUS_SEND_FAIL, None)
                        else Inr (LIBSPDM_STATUS_SUCCESS, dg))))"

text \<open>
  A reception gives the status and the message; it takes answers from the queue and, for the block of
  the message, changes the heap. It is \<open>None\<close> while it waits.
\<close>

definition mctp_device_receive_message ::
    "memory \<Rightarrow> u64 \<Rightarrow> bool \<Rightarrow> mctp_transport option \<Rightarrow> mctp_recv list \<Rightarrow> heap
     \<Rightarrow> ((status \<times> bytes option) \<times> mctp_recv list \<times> heap) option"
where
  "mctp_device_receive_message mem timeout malloc_ok transport rs h =
     (case transport of
        None \<Rightarrow> Some ((LIBSPDM_STATUS_INVALID_STATE_LOCAL, None), rs, h)
      | Some t \<Rightarrow>
          (case mctp_read mem timeout (mctpIo t) [] rs of
             None \<Rightarrow> None
           | Some (Inl Bad_alloc, response, rs) \<Rightarrow> Some ((LIBSPDM_STATUS_RECEIVE_FAIL, None), rs, h)
           | Some (Inr ret, response, rs) \<Rightarrow>
               if ret \<noteq> LIBSPDM_STATUS_SUCCESS then Some ((LIBSPDM_STATUS_RECEIVE_FAIL, None), rs, h)
               else
                 (let ((st, message), h) = mctp_decode (eid t) response malloc_ok h in
                  if st \<noteq> LIBSPDM_STATUS_SUCCESS
                  then Some ((LIBSPDM_STATUS_RECEIVE_FAIL, None), rs, h)
                  else Some ((LIBSPDM_STATUS_SUCCESS, message), rs, h))))"

definition mctp_acquire_sender_buffer :: "mctp_transport \<Rightarrow> status \<times> mctp_transport" where
  "mctp_acquire_sender_buffer = transport_acquire"

definition mctp_release_sender_buffer :: "mctp_transport \<Rightarrow> mctp_transport" where
  "mctp_release_sender_buffer = transport_release"

definition mctp_acquire_receiver_buffer :: "mctp_transport \<Rightarrow> status \<times> mctp_transport" where
  "mctp_acquire_receiver_buffer = transport_acquire"

definition mctp_release_receiver_buffer :: "mctp_transport \<Rightarrow> mctp_transport" where
  "mctp_release_receiver_buffer = transport_release"

section \<open>TCP\<close>

text \<open>What the callbacks work on: the timeouts of the socket, and the heap.\<close>

record callback_state = sock_opts +
  callback_heap :: heap

definition tcp_deviceSendMessage ::
    "memory \<Rightarrow> timeout_calls \<Rightarrow> u64 \<Rightarrow> tcp_transport option \<Rightarrow> bytes \<Rightarrow> 'a sock_opts_scheme
     \<Rightarrow> send_event list \<Rightarrow> 'a sock_opts_scheme \<times> (status \<times> bytes \<times> send_event list) option"
where
  "tcp_deviceSendMessage mem c timeout transport msg so es =
     (case transport of
        None \<Rightarrow> (so, Some (LIBSPDM_STATUS_INVALID_STATE_LOCAL, [], es))
      | Some t \<Rightarrow>
          if \<not> vec_fits mem [] (length msg) then (so, Some (LIBSPDM_STATUS_SEND_FAIL, [], es))
          else
            (case tcp_encode mem [] msg of
               Inl Bad_alloc \<Rightarrow> (so, Some (LIBSPDM_STATUS_SEND_FAIL, [], es))
             | Inr (encodeStatus, tcpMessage) \<Rightarrow>
                 if encodeStatus \<noteq> LIBSPDM_STATUS_SUCCESS
                 then (so, Some (LIBSPDM_STATUS_SEND_FAIL, [], es))
                 else
                   (case tcp_write c timeout (tcpIo t) tcpMessage so es of
                      (so, None) \<Rightarrow> (so, None)
                    | (so, Some (sendStatus, wire, es)) \<Rightarrow>
                        if sendStatus \<noteq> LIBSPDM_STATUS_SUCCESS
                        then (so, Some (LIBSPDM_STATUS_SEND_FAIL, wire, es))
                        else (so, Some (LIBSPDM_STATUS_SUCCESS, wire, es)))))"

definition tcp_deviceReceiveMessage ::
    "memory \<Rightarrow> timeout_calls \<Rightarrow> u64 \<Rightarrow> tcp_transport option \<Rightarrow> bool \<Rightarrow> callback_state
     \<Rightarrow> recv_event list \<Rightarrow> callback_state \<times> (status \<times> bytes option \<times> recv_event list) option"
where
  "tcp_deviceReceiveMessage mem c timeout transport malloc_ok so es =
     (case transport of
        None \<Rightarrow> (so, Some (LIBSPDM_STATUS_INVALID_STATE_LOCAL, None, es))
      | Some t \<Rightarrow>
          (case tcp_read mem c timeout (tcpIo t) [] so es of
             (so, None) \<Rightarrow> (so, None)
           | (so, Some (Inl Bad_alloc, tcpMessage, es)) \<Rightarrow>
               (so, Some (LIBSPDM_STATUS_RECEIVE_FAIL, None, es))
           | (so, Some (Inr readStatus, tcpMessage, es)) \<Rightarrow>
               if readStatus \<noteq> LIBSPDM_STATUS_SUCCESS
               then (so, Some (LIBSPDM_STATUS_RECEIVE_FAIL, None, es))
               else
                 (let ((decodeStatus, message), h) = tcp_decode tcpMessage malloc_ok (callback_heap so);
                      so = so\<lparr>callback_heap := h\<rparr> in
                  if decodeStatus \<noteq> LIBSPDM_STATUS_SUCCESS
                  then (so, Some (LIBSPDM_STATUS_RECEIVE_FAIL, None, es))
                  else (so, Some (LIBSPDM_STATUS_SUCCESS, message, es)))))"

definition tcp_acquireSenderBuffer :: "tcp_transport \<Rightarrow> status \<times> tcp_transport" where
  "tcp_acquireSenderBuffer = transport_acquire"

definition tcp_releaseSenderBuffer :: "tcp_transport \<Rightarrow> tcp_transport" where
  "tcp_releaseSenderBuffer = transport_release"

definition tcp_acquireReceiverBuffer :: "tcp_transport \<Rightarrow> status \<times> tcp_transport" where
  "tcp_acquireReceiverBuffer = transport_acquire"

definition tcp_releaseReceiverBuffer :: "tcp_transport \<Rightarrow> tcp_transport" where
  "tcp_releaseReceiverBuffer = transport_release"

text \<open>
  Receiving one message after another, as libspdm does, each with its own timeout, while there is
  memory.
\<close>

fun tcp_receive_many ::
    "(timeout_calls \<times> u64) list \<Rightarrow> tcp_transport \<Rightarrow> callback_state \<Rightarrow> recv_event list
     \<Rightarrow> (bytes list \<times> callback_state \<times> recv_event list) option" where
  "tcp_receive_many [] t so es = Some ([], so, es)"
| "tcp_receive_many ((c, timeout) # calls) t so es =
     (case tcp_deviceReceiveMessage plenty c timeout (Some t) True so es of
        (so, Some (LIBSPDM_STATUS_SUCCESS, Some m, es)) \<Rightarrow>
          (case tcp_receive_many calls t so es of
             Some (ms, so, es) \<Rightarrow> Some (m # ms, so, es)
           | None \<Rightarrow> None)
      | _ \<Rightarrow> None)"

text \<open>The same over MCTP, whatever became of the reception before.\<close>

fun mctp_receive_many ::
    "(u64 \<times> bool) list \<Rightarrow> mctp_transport \<Rightarrow> mctp_recv list \<Rightarrow> heap
     \<Rightarrow> ((status \<times> bytes option) list \<times> mctp_recv list \<times> heap) option" where
  "mctp_receive_many [] t rs h = Some ([], rs, h)"
| "mctp_receive_many ((timeout, malloc_ok) # calls) t rs h =
     (case mctp_device_receive_message plenty timeout malloc_ok (Some t) rs h of
        None \<Rightarrow> None
      | Some (result, rs, h) \<Rightarrow>
          (case mctp_receive_many calls t rs h of
             None \<Rightarrow> None
           | Some (results, rs, h) \<Rightarrow> Some (result # results, rs, h)))"

section \<open>Lemmas\<close>

lemma mctp_send_result:
  assumes "mctp_isSocketOpen (mctpIo t)" and "length msg < 2 ^ 64 - 2"
  shows "mctp_device_send_message plenty r timeout (Some t) msg =
     (if msg = [] then Inl OutOfBounds
      else if r < 0 then Inr (LIBSPDM_STATUS_SEND_FAIL, None)
      else Inr (LIBSPDM_STATUS_SUCCESS,
             Some \<lparr>dg_eid = eid t, dg_type = MCTP_TYPE_SPDM, dg_tag = MCTP_TAG_OWNER,
                   dg_payload = tl msg\<rparr>))"
proof (cases "msg = []")
  case True
  then show ?thesis
    using assms mctp_sendto_len_wraps [of "[8, eid t]"]
    by (simp add: mctp_device_send_message_def mctp_write_def frame_simps mctp_writeToSocket_def)
next
  case False
  with assms(2) have "unat (mctp_sendto_len ([8, eid t] @ msg)) = length msg - 1"
    by (subst mctp_sendto_len_fits) (simp_all add: Suc_le_eq)
  with False assms(1) show ?thesis
    by (cases msg)
      (simp_all add: mctp_device_send_message_def mctp_write_def frame_simps mctp_writeToSocket_def)
qed

lemma mctp_receive_result:
  assumes "mctp_isSocketOpen (mctpIo t)" and "mctp_recv_ok r"
  shows "mctp_device_receive_message mem timeout malloc_ok (Some t) (r # rs) h =
     (if \<not> vec_fits mem [] (length (recvfrom_data r))
      then Some ((LIBSPDM_STATUS_RECEIVE_FAIL, None), r # rs, h)
      else if mem 12 \<and> mem (length (recvfrom_data r) + 3) \<and> recvfrom_addr r = eid t \<and> malloc_ok
      then Some ((LIBSPDM_STATUS_SUCCESS, Some (MCTP_TYPE_SPDM # recvfrom_data r)), rs, snd (malloc True h))
      else Some ((LIBSPDM_STATUS_RECEIVE_FAIL, None), rs, h))"
proof -
  have "mctp_readFromSocket mem (mctpIo t) [] (r # rs) =
      (if \<not> vec_fits mem [] (length (recvfrom_data r)) then Some (Inl Bad_alloc, [], r # rs)
       else if mem 12 \<and> mem (length (recvfrom_data r) + 3)
       then Some (Inr LIBSPDM_STATUS_SUCCESS, [1, recvfrom_addr r, MCTP_TYPE_SPDM] @ recvfrom_data r, rs)
       else Some (Inl Bad_alloc, recvfrom_data r, rs))"
    using assms
    by (simp add: mctp_readFromSocket_def mctp_recv_ok_def vec_write_all vec_fits_def
        [of _ "vec_resize _ _"] vec_fits_def [of _ "recvfrom_data _"])
  then show ?thesis
    by (cases malloc_ok)
      (simp_all add: mctp_device_receive_message_def mctp_read_def mctp_decode_def
        mctp_header_size_def malloc_works)
qed

lemma mctp_receive_waits:
  "mctp_isSocketOpen (mctpIo t) \<Longrightarrow> mctp_device_receive_message mem timeout malloc_ok (Some t) [] h = None"
  by (simp add: mctp_device_receive_message_def mctp_read_def mctp_readFromSocket_def)

lemma tcp_callback_timeouts:
  "fst (tcp_deviceSendMessage mem c timeout (Some t) msg so es) =
   (if vec_fits mem [] (length msg) \<and> mem (12 + length msg)
    then snd (tcp_setSocketTimeout c (tcpIo t) timeout so) else so)"
  "so' = fst (tcp_deviceReceiveMessage mem c timeout (Some t) ok so0 rs) \<Longrightarrow>
   so' = (snd (tcp_setSocketTimeout c (tcpIo t) timeout so0))\<lparr>callback_heap := callback_heap so'\<rparr>"
  by (simp_all add: tcp_deviceSendMessage_def tcp_deviceReceiveMessage_def frame_simps split_beta Let_def
      vec_fits_def split: option.split sum.split cpp_exception.split)

lemma tcp_send_result:
  assumes "tcp_isSocketOpen (tcpIo t)"
    and "snd (tcp_deviceSendMessage mem c timeout (Some t) msg so es) = Some (st, wire, es')"
  shows "(st = LIBSPDM_STATUS_SUCCESS \<and> wire = tcp_frame_of msg) \<or>
         (st = LIBSPDM_STATUS_SEND_FAIL \<and> (\<exists>k < 12 + length msg. wire = take k (tcp_frame_of msg)))"
proof (cases "vec_fits mem [] (length msg) \<and> vec_fits mem [] (12 + length msg)")
  case False
  with assms show ?thesis
    by (auto simp: tcp_deviceSendMessage_def frame_simps split: if_splits intro!: exI [of _ 0])
next
  case True
  with assms obtain st' where
    "tcp_send_loop (tcp_frame_of msg) 0 (take 0 (tcp_frame_of msg)) es = Some (st', wire, es')"
    and "st = (if st' = LIBSPDM_STATUS_SUCCESS then LIBSPDM_STATUS_SUCCESS
               else LIBSPDM_STATUS_SEND_FAIL)"
    by (auto simp: tcp_deviceSendMessage_def frame_simps tcp_write_def
        split: option.splits if_splits prod.splits)
  with tcp_send_loop_prefix [of "tcp_frame_of msg" 0 es st' wire es'] show ?thesis
    by (auto simp: tcp_frame_fields)
qed

lemma tcp_receive_frame:
  assumes "tcp_isSocketOpen (tcpIo t)" and "list_all undisturbed es"
    and "stream_of es = tcp_frame_of msg @ rest" and "length msg \<le> tcpMaxMessageSize"
  shows "\<exists>es'. snd (tcp_deviceReceiveMessage plenty c timeout (Some t) True so es) =
                Some (LIBSPDM_STATUS_SUCCESS, Some msg, es') \<and>
               list_all undisturbed es' \<and> stream_of es' = rest"
proof -
  from tcp_read_frame [OF assms] obtain es' where
    "snd (tcp_read plenty c timeout (tcpIo t) [] so es) =
      Some (Inr LIBSPDM_STATUS_SUCCESS, tcp_frame_of msg, es')"
    "list_all undisturbed es'" "stream_of es' = rest"
    by blast
  moreover have "tcp_decode (tcp_frame_of msg) True h = ((LIBSPDM_STATUS_SUCCESS, Some msg), snd (malloc True h))" for h
    using tcp_decode_frame [of msg "[]" h] assms(4) by (simp add: tcpMaxMessageSize_def)
  ultimately show ?thesis
    by (auto simp: tcp_deviceReceiveMessage_def Let_def simp del: tcp_read_result split: prod.split)
qed

lemma tcp_receive_sound:
  assumes "snd (tcp_deviceReceiveMessage mem c timeout (Some t) ok so es) = Some (LIBSPDM_STATUS_SUCCESS, message, es')"
  shows "\<exists>hdr m. message = Some m \<and> stream_of es = hdr @ m @ stream_of es' \<and>
           length hdr = platformHeaderSize \<and> length m \<le> tcpMaxMessageSize \<and>
           be32_at 4 hdr = PlatformTransportType_value Transport_TCP \<and>
           unat (be32_at 8 hdr) = length m"
proof -
  from assms obtain buf where
    r: "snd (tcp_read mem c timeout (tcpIo t) [] so es) = Some (Inr LIBSPDM_STATUS_SUCCESS, buf, es')"
    and d: "\<exists>h h'. tcp_decode buf ok h = ((LIBSPDM_STATUS_SUCCESS, message), h')"
    by (auto simp: tcp_deviceReceiveMessage_def Let_def simp del: tcp_read_result
        split: option.splits if_splits prod.splits sum.splits cpp_exception.splits)
  from tcp_read_success [OF r]
  have len: "length buf = platformHeaderSize + unat (be32_at 8 buf)"
    and small: "unat (be32_at 8 buf) \<le> tcpMaxMessageSize"
    and str: "stream_of es = buf @ stream_of es'"
    by auto
  let ?h = "take 12 buf" and ?m = "drop 12 buf"
  have fields: "be32_at 8 ?h = be32_at 8 buf" "be32_at 4 ?h = be32_at 4 buf"
    using len by (simp_all add: be32_at_def platformHeaderSize_def)
  from d len have "message = Some ?m"
    and "be32_at 4 buf = PlatformTransportType_value Transport_TCP"
    by (auto simp: tcp_decode_def Let_def platformHeaderSize_def split: if_splits option.splits prod.splits)
  with len small str fields show ?thesis
    by (intro exI [of _ ?h] exI [of _ ?m])
      (auto simp: platformHeaderSize_def simp flip: append_assoc)
qed

text \<open>Neither the timeouts nor the heap have an influence on what is received.\<close>

lemma tcp_decode_result_only: "fst (tcp_decode buf ok h) = fst (tcp_decode buf ok h')"
  by (cases ok) (simp_all add: tcp_decode_def malloc_works Let_def)

lemma tcp_receive_result_only:
  "snd (tcp_deviceReceiveMessage mem c timeout (Some t) ok so rs) =
   snd (tcp_deviceReceiveMessage mem c' timeout' (Some t) ok so' rs)"
proof -
  have "snd (tcp_read mem c timeout (tcpIo t) [] so rs) = snd (tcp_read mem c' timeout' (tcpIo t) [] so' rs)"
    by (simp add: tcp_read_def split_beta)
  then show ?thesis
    using tcp_decode_result_only
    by (auto simp: tcp_deviceReceiveMessage_def split_beta Let_def
        split: option.split sum.split cpp_exception.split)
      (metis)+
qed

text \<open>A TCP reception never invents a message, whatever the transport pointer.\<close>

lemma tcp_receive_takes_one_frame:
  assumes "snd (tcp_deviceReceiveMessage mem c timeout transport ok so es) =
      Some (LIBSPDM_STATUS_SUCCESS, message, es')"
  shows "\<exists>hdr m. message = Some m \<and> stream_of es = hdr @ m @ stream_of es' \<and>
           length hdr = platformHeaderSize \<and> length m \<le> tcpMaxMessageSize \<and>
           be32_at 4 hdr = PlatformTransportType_value Transport_TCP \<and>
           unat (be32_at 8 hdr) = length m"
proof (cases transport)
  case None
  with assms show ?thesis
    by (simp add: tcp_deviceReceiveMessage_def)
next
  case (Some t)
  show ?thesis
    by (rule tcp_receive_sound [OF assms [unfolded Some]])
qed

text \<open>An error in the middle of a frame fails the reception; what was read of the frame is gone.\<close>

lemma tcp_receive_cut:
  assumes "tcp_isSocketOpen (tcpIo t)" and "list_all undisturbed es"
    and "stream_of es = take k (tcp_frame_of msg)" "k < 12 + length msg"
    and small: "length msg \<le> tcpMaxMessageSize" and "err \<noteq> EINTR"
  shows "snd (tcp_deviceReceiveMessage plenty c timeout (Some t) ok so (es @ RecvErr err # late)) =
    Some (LIBSPDM_STATUS_RECEIVE_FAIL, None, late)"
proof -
  have "unat (be32_at 8 (tcp_frame_of msg)) = length msg"
    using tcp_frame_fields(4) [of msg "[]"] small by (simp add: unat_of_nat tcpMaxMessageSize_def)
  with tcp_read_frame_cut [OF assms(2,3) _ _ _ assms(6), of "[]" late] assms(4) small obtain buf' where
    "tcp_read_frame_bytes plenty [] (es @ RecvErr err # late) = Some (Inr LIBSPDM_STATUS_RECEIVE_FAIL, buf', late)"
    by (auto simp: tcp_frame_fields platformHeaderSize_def)
  with assms(1) have "snd (tcp_read plenty c timeout (tcpIo t) [] so (es @ RecvErr err # late)) =
      Some (Inr LIBSPDM_STATUS_RECEIVE_FAIL, buf', late)"
    by simp
  then show ?thesis
    by (auto simp: tcp_deviceReceiveMessage_def simp del: tcp_read_result split: prod.split)
qed

text \<open>So does a reception without memory for the message.\<close>

lemma tcp_receive_no_memory:
  assumes "tcp_isSocketOpen (tcpIo t)" and "list_all undisturbed es"
    and "stream_of es = tcp_frame_of msg @ rest" and "length msg \<le> tcpMaxMessageSize"
    and "\<not> vec_fits mem [] (platformHeaderSize + length msg)"
  shows "\<exists>es'. snd (tcp_deviceReceiveMessage mem c timeout (Some t) ok so es) =
      Some (LIBSPDM_STATUS_RECEIVE_FAIL, None, es') \<and> stream_of es' = msg @ rest"
  using tcp_read_no_memory [OF assms, of c timeout so]
  by (auto simp: tcp_deviceReceiveMessage_def simp del: tcp_read_result split: prod.split)

lemma tcp_frame_nonempty: "tcp_frame_of m \<noteq> []"
  using tcp_frame_fields(1) [of m] by (metis add_is_0 list.size(3) zero_neq_numeral)

section \<open>Properties\<close>

text \<open>
  C12. Messages sent over a TCP connection are received one by one and in order: if the byte stream
  begins with the frames of \<open>msgs\<close>, then however the kernel cuts it into chunks, and with
  interrupted calls anywhere, that many receptions return exactly \<open>msgs\<close> and leave the rest of the
  stream for later.
\<close>

theorem tcp_receive_sequence:
  assumes "tcp_isSocketOpen (tcpIo t)" and "list_all undisturbed es"
    and "stream_of es = concat (map tcp_frame_of msgs) @ rest"
    and "list_all (\<lambda>m. length m \<le> tcpMaxMessageSize) msgs"
    and "length calls = length msgs"
  shows "\<exists>so' es'. tcp_receive_many calls t so es = Some (msgs, so', es') \<and>
           list_all undisturbed es' \<and> stream_of es' = rest"
  using assms(2-5)
proof (induction msgs arbitrary: calls so es)
  case Nil
  then show ?case
    by simp
next
  case (Cons m ms)
  then obtain c timeout calls' where calls: "calls = (c, timeout) # calls'"
    by (metis length_Suc_conv surj_pair)
  have "stream_of es = tcp_frame_of m @ concat (map tcp_frame_of ms) @ rest" "length m \<le> tcpMaxMessageSize"
    using Cons.prems by simp_all
  with tcp_receive_frame [OF assms(1) Cons.prems(1)] obtain es1 where
    "snd (tcp_deviceReceiveMessage plenty c timeout (Some t) True so es) = Some (LIBSPDM_STATUS_SUCCESS, Some m, es1)"
    and 2: "list_all undisturbed es1" "stream_of es1 = concat (map tcp_frame_of ms) @ rest"
    by blast
  then obtain so1 where 1: "tcp_deviceReceiveMessage plenty c timeout (Some t) True so es =
      (so1, Some (LIBSPDM_STATUS_SUCCESS, Some m, es1))"
    by (metis prod.collapse)
  from Cons.IH [OF 2, of calls' so1] Cons.prems calls obtain so' es' where
    "tcp_receive_many calls' t so1 es1 = Some (ms, so', es')"
    "list_all undisturbed es'" "stream_of es' = rest"
    by auto
  with 1 calls show ?case
    by simp
qed

definition ok_calls :: timeout_calls where
  "ok_calls = \<lparr>rcvtimeo_ret = 0, sndtimeo_ret = 0\<rparr>"

definition example_state :: callback_state where
  "example_state =
     \<lparr>so_rcvtimeo = so_rcvtimeo no_timeouts, so_sndtimeo = so_sndtimeo no_timeouts,
      callback_heap = empty_heap\<rparr>"

definition example_tcp :: tcp_transport where
  "example_tcp =
     (tcp_transport_init dsp0274 ''h'' 1)\<lparr>tcpIo := (tcp_io_init ''h'' 1)\<lparr>tcpSocketFd := 4\<rparr>\<rparr>"

lemma example_tcp_open: "tcp_isSocketOpen (tcpIo example_tcp)"
  by (simp add: example_tcp_def tcp_isSocketOpen_def)

text \<open>Two messages, cut inside the second header, with an interrupted call between.\<close>

definition example_stream :: bytes where
  "example_stream = tcp_frame_of [16, 132] @ tcp_frame_of [] @ [77]"

lemma length_example_stream: "length example_stream = 27"
  by (simp add: example_stream_def tcp_frame_fields)

lemma tcp_receive_sequence_witness:
  "\<exists>so' es'. tcp_receive_many [(ok_calls, 100), (ok_calls, 0)] example_tcp example_state
     [RecvData (take 18 example_stream), RecvErr EINTR, RecvData (drop 18 example_stream)] =
       Some ([[16, 132], []], so', es') \<and> stream_of es' = [77]"
proof -
  let ?es = "[RecvData (take 18 example_stream), RecvErr EINTR, RecvData (drop 18 example_stream)]"
  have "example_stream \<noteq> []"
    using length_example_stream by (metis list.size(3) zero_neq_numeral)
  then have "list_all undisturbed ?es"
    using length_example_stream by simp
  moreover have "stream_of ?es = concat (map tcp_frame_of [[16, 132], []]) @ [77]"
    by (simp add: append_take_drop_id del: take_append drop_append) (simp add: example_stream_def)
  ultimately show ?thesis
    using tcp_receive_sequence [OF example_tcp_open, of ?es "[[16, 132], []]" "[77]"
        "[(ok_calls, 100), (ok_calls, 0)]" example_state]
    by (auto simp: tcpMaxMessageSize_def)
qed

text \<open>
  C13. What one TCP transport reports as sent is what the other receives: after a successful send of
  a message within the size limit, the bytes on the wire, however chunked, make the peer's reception
  succeed with that message. A send that fails has put a proper prefix of the frame on the wire.
\<close>

theorem tcp_send_then_receive:
  assumes "tcp_isSocketOpen (tcpIo t)"
    and "snd (tcp_deviceSendMessage mem c timeout (Some t) msg so es) = Some (st, wire, es')"
  shows "if st = LIBSPDM_STATUS_SUCCESS
    then length msg \<le> tcpMaxMessageSize \<longrightarrow>
      (\<forall>c' timeout' u so' rs rest.
        tcp_isSocketOpen (tcpIo u) \<and> list_all undisturbed rs \<and> stream_of rs = wire @ rest \<longrightarrow>
        (\<exists>rs'. snd (tcp_deviceReceiveMessage plenty c' timeout' (Some u) True so' rs) =
             Some (LIBSPDM_STATUS_SUCCESS, Some msg, rs') \<and>
           stream_of rs' = rest))
    else st = LIBSPDM_STATUS_SEND_FAIL \<and> (\<exists>k < 12 + length msg. wire = take k (tcp_frame_of msg))"
  using tcp_send_result [OF assms] tcp_receive_frame by (fastforce split: if_splits)

lemma tcp_send_then_receive_witness:
  "\<exists>wire rs'. snd (tcp_deviceSendMessage plenty ok_calls 0 (Some example_tcp) [9] example_state [Sent 5, Sent 8]) =
       Some (LIBSPDM_STATUS_SUCCESS, wire, []) \<and>
     snd (tcp_deviceReceiveMessage plenty ok_calls 0 (Some example_tcp) True example_state
       [RecvErr EINTR, RecvData (wire @ [5])]) =
       Some (LIBSPDM_STATUS_SUCCESS, Some [9], rs') \<and> stream_of rs' = [5]"
proof -
  obtain wire where send:
    "snd (tcp_deviceSendMessage plenty ok_calls 0 (Some example_tcp) [9] example_state [Sent 5, Sent 8]) =
      Some (LIBSPDM_STATUS_SUCCESS, wire, [])"
    using example_tcp_open
    by (simp add: tcp_deviceSendMessage_def frame_simps tcp_write_def tcp_frame_of_def be32_bytes_def
        split_beta)
  have "list_all undisturbed [RecvErr EINTR, RecvData (wire @ [5])] \<and>
      stream_of [RecvErr EINTR, RecvData (wire @ [5])] = wire @ [5]"
    by simp
  moreover have "length [9::byte] \<le> tcpMaxMessageSize"
    by (simp add: tcpMaxMessageSize_def)
  ultimately obtain rs' where "snd (tcp_deviceReceiveMessage plenty ok_calls 0 (Some example_tcp) True example_state
      [RecvErr EINTR, RecvData (wire @ [5])]) =
      Some (LIBSPDM_STATUS_SUCCESS, Some [9], rs') \<and> stream_of rs' = [5]"
    using tcp_send_then_receive [OF example_tcp_open send, unfolded if_P [OF refl]] example_tcp_open
    by metis
  with send show ?thesis
    by blast
qed

text \<open>
  C14. A receive timeout is not recovered from. When an error interrupts the reception of a frame after
  \<open>k\<close> of its bytes, the reception fails and the socket stays open with those bytes gone. The next
  reception then starts in the middle of the frame: what it delivers comes after twelve bytes of the
  rest of the frame, taken for a header. If nothing of the frame had arrived, the late frame is
  delivered as the answer to the next request. A reception that has no memory for the message ends in
  the same way: after the header, with the content left in front of the stream.
\<close>

theorem tcp_timeout_loses_step:
  assumes "tcp_isSocketOpen (tcpIo t)" and "length msg \<le> tcpMaxMessageSize"
    and "list_all undisturbed es" "stream_of es = take k (tcp_frame_of msg)" "k < 12 + length msg"
    and "err \<noteq> EINTR" and "stream_of late = drop k (tcp_frame_of msg) @ rest"
  shows "snd (tcp_deviceReceiveMessage plenty c timeout (Some t) ok so (es @ RecvErr err # late)) =
      Some (LIBSPDM_STATUS_RECEIVE_FAIL, None, late) \<and>
    (snd (tcp_deviceReceiveMessage mem' c' timeout' (Some t) ok' so' late) =
       Some (LIBSPDM_STATUS_SUCCESS, Some msg', late') \<longrightarrow>
     (\<exists>hdr. drop k (tcp_frame_of msg) @ rest = hdr @ msg' @ stream_of late' \<and>
        length hdr = platformHeaderSize \<and> unat (be32_at 8 hdr) = length msg') \<and>
     (k = 0 \<longrightarrow> msg' = msg \<and> stream_of late' = rest)) \<and>
    (\<not> vec_fits mem [] (platformHeaderSize + length msg) \<longrightarrow>
     list_all undisturbed late \<longrightarrow>
     (\<exists>late''. snd (tcp_deviceReceiveMessage mem c timeout (Some t) ok so (es @ late)) =
          Some (LIBSPDM_STATUS_RECEIVE_FAIL, None, late'') \<and>
        stream_of late'' = drop platformHeaderSize (tcp_frame_of msg) @ rest))"
proof (intro conjI impI)
  show "snd (tcp_deviceReceiveMessage plenty c timeout (Some t) ok so (es @ RecvErr err # late)) =
      Some (LIBSPDM_STATUS_RECEIVE_FAIL, None, late)"
    by (rule tcp_receive_cut [OF assms(1,3,4,5,2,6)])
  assume run: "snd (tcp_deviceReceiveMessage mem' c' timeout' (Some t) ok' so' late) =
      Some (LIBSPDM_STATUS_SUCCESS, Some msg', late')"
  from tcp_receive_sound [OF run] assms(7) obtain hdr where
    hdr: "drop k (tcp_frame_of msg) @ rest = hdr @ msg' @ stream_of late'"
      "length hdr = platformHeaderSize" "unat (be32_at 8 hdr) = length msg'"
    by auto
  then show "\<exists>hdr. drop k (tcp_frame_of msg) @ rest = hdr @ msg' @ stream_of late' \<and>
      length hdr = platformHeaderSize \<and> unat (be32_at 8 hdr) = length msg'"
    by blast
  {
    assume "k = 0"
    with hdr(1) have eq: "tcp_frame_of msg @ rest = hdr @ msg' @ stream_of late'"
      by simp
    have "hdr = take 12 (tcp_frame_of msg)"
      using arg_cong [OF eq, of "take 12"] hdr(2) by (simp add: platformHeaderSize_def tcp_frame_fields)
    then have "be32_at 8 hdr = be32_at 8 (tcp_frame_of msg)"
      by (simp add: be32_at_def tcp_frame_fields)
    then have "length msg' = length msg"
      using hdr(3) tcp_frame_fields(4) [of msg "[]"] assms(2) by (simp add: unat_of_nat tcpMaxMessageSize_def)
    moreover have "msg @ rest = msg' @ stream_of late'"
      using arg_cong [OF eq, of "drop 12"] hdr(2) by (simp add: platformHeaderSize_def tcp_frame_fields)
    ultimately show "msg' = msg" "stream_of late' = rest"
      by simp_all
  }
next
  assume "\<not> vec_fits mem [] (platformHeaderSize + length msg)" "list_all undisturbed late"
  with assms(1-4,7) tcp_receive_no_memory [of t "es @ late" msg rest mem c timeout ok so]
  show "\<exists>late''. snd (tcp_deviceReceiveMessage mem c timeout (Some t) ok so (es @ late)) =
        Some (LIBSPDM_STATUS_RECEIVE_FAIL, None, late'') \<and>
      stream_of late'' = drop platformHeaderSize (tcp_frame_of msg) @ rest"
    by (simp add: platformHeaderSize_def tcp_frame_fields flip: append_assoc)
qed

text \<open>The content of a message is taken for a message of its own.\<close>

lemma tcp_timeout_loses_step_witness:
  "let outer = tcp_frame_of (tcp_frame_of [66]) in
     snd (tcp_deviceReceiveMessage plenty ok_calls 0 (Some example_tcp) True example_state
       [RecvData (take 12 outer), RecvErr EAGAIN, RecvData (drop 12 outer)]) =
       Some (LIBSPDM_STATUS_RECEIVE_FAIL, None, [RecvData (drop 12 outer)]) \<and>
     (\<exists>late'. snd (tcp_deviceReceiveMessage plenty ok_calls 0 (Some example_tcp) True example_state [RecvData (drop 12 outer)]) =
       Some (LIBSPDM_STATUS_SUCCESS, Some [66], late')) \<and>
     (\<exists>late''. snd (tcp_deviceReceiveMessage (\<lambda>n. n < 20) ok_calls 0 (Some example_tcp) True example_state
         [RecvData (take 12 outer), RecvData (drop 12 outer)]) =
       Some (LIBSPDM_STATUS_RECEIVE_FAIL, None, late'') \<and> stream_of late'' = tcp_frame_of [66])"
proof -
  let ?outer = "tcp_frame_of (tcp_frame_of [66])"
  have rest: "drop 12 ?outer = tcp_frame_of [66]"
    by (rule tcp_frame_fields(5))
  have "list_all undisturbed [RecvData (take 12 ?outer)]"
    using tcp_frame_nonempty by simp
  moreover have "length (tcp_frame_of [66]) \<le> tcpMaxMessageSize"
    by (simp add: tcp_frame_fields tcpMaxMessageSize_def)
  ultimately have "snd (tcp_deviceReceiveMessage plenty ok_calls 0 (Some example_tcp) True example_state
      ([RecvData (take 12 ?outer)] @ RecvErr EAGAIN # [RecvData (drop 12 ?outer)])) =
      Some (LIBSPDM_STATUS_RECEIVE_FAIL, None, [RecvData (drop 12 ?outer)]) \<and>
    (\<exists>late''. snd (tcp_deviceReceiveMessage (\<lambda>n. n < 20) ok_calls 0 (Some example_tcp) True example_state
        ([RecvData (take 12 ?outer)] @ [RecvData (drop 12 ?outer)])) =
      Some (LIBSPDM_STATUS_RECEIVE_FAIL, None, late'') \<and> stream_of late'' = tcp_frame_of [66])"
    using tcp_timeout_loses_step [OF example_tcp_open, of "tcp_frame_of [66]" "[RecvData (take 12 ?outer)]" 12
        EAGAIN "[RecvData (drop 12 ?outer)]" "[]" ok_calls 0 True example_state plenty ok_calls 0 True
        example_state "[]" "[]" "\<lambda>n. n < 20"]
    by (simp add: tcp_frame_fields rest vec_fits_def platformHeaderSize_def tcp_frame_nonempty)
  moreover have "\<exists>late'. snd (tcp_deviceReceiveMessage plenty ok_calls 0 (Some example_tcp) True example_state
      [RecvData (tcp_frame_of [66])]) = Some (LIBSPDM_STATUS_SUCCESS, Some [66], late')"
    using tcp_receive_frame [OF example_tcp_open, of "[RecvData (tcp_frame_of [66])]" "[66]" "[]" ok_calls 0 example_state]
    by (auto simp: tcpMaxMessageSize_def tcp_frame_nonempty)
  ultimately show ?thesis
    by (simp add: rest Let_def)
qed

text \<open>
  C33. Every send and every receive gives the socket both timeouts it was asked for, in
  microseconds: the infinite one becomes the zero timeval, which the kernel takes as waiting for
  ever, and a non-zero one below five seconds is raised to five. If setting the first fails neither
  changes, and if setting the second fails only the first does; the message is sent or received all
  the same.
\<close>

theorem tcp_callbacks_set_timeouts:
  assumes "tcp_isSocketOpen (tcpIo t)"
    and "so' = fst (tcp_deviceSendMessage plenty c timeout (Some t) msg so es) \<or>
         so' = fst (tcp_deviceReceiveMessage mem c timeout (Some t) ok so rs)"
  shows "(if rcvtimeo_ret c < 0
      then so_rcvtimeo so' = so_rcvtimeo so \<and> so_sndtimeo so' = so_sndtimeo so
      else
        unat (tv_sec (so_rcvtimeo so')) * 1000000 + unat (tv_usec (so_rcvtimeo so')) =
          (if timeout = timeoutUsInfinite then 0 else if timeout = 0 then 0
           else max 5000000 (unat timeout)) \<and>
        unat (tv_usec (so_rcvtimeo so')) < 1000000 \<and>
        so_sndtimeo so' = (if sndtimeo_ret c < 0 then so_sndtimeo so else so_rcvtimeo so')) \<and>
    snd (tcp_deviceSendMessage mem c timeout (Some t) msg so es) =
      snd (tcp_deviceSendMessage mem c' timeout' (Some t) msg so'' es) \<and>
    snd (tcp_deviceReceiveMessage mem c timeout (Some t) ok so rs) =
      snd (tcp_deviceReceiveMessage mem c' timeout' (Some t) ok so'' rs)"
proof (intro conjI)
  have "so' = (snd (tcp_setSocketTimeout c (tcpIo t) timeout so))\<lparr>callback_heap := callback_heap so'\<rparr>"
    using assms(2)
  proof
    assume "so' = fst (tcp_deviceReceiveMessage mem c timeout (Some t) ok so rs)"
    then show ?thesis
      by (rule tcp_callback_timeouts(2))
  qed (simp add: tcp_callback_timeouts(1))
  then obtain h where so': "so' = (snd (tcp_setSocketTimeout c (tcpIo t) timeout so))\<lparr>callback_heap := h\<rparr>"
    by blast
  show "if rcvtimeo_ret c < 0
      then so_rcvtimeo so' = so_rcvtimeo so \<and> so_sndtimeo so' = so_sndtimeo so
      else
        unat (tv_sec (so_rcvtimeo so')) * 1000000 + unat (tv_usec (so_rcvtimeo so')) =
          (if timeout = timeoutUsInfinite then 0 else if timeout = 0 then 0
           else max 5000000 (unat timeout)) \<and>
        unat (tv_usec (so_rcvtimeo so')) < 1000000 \<and>
        so_sndtimeo so' = (if sndtimeo_ret c < 0 then so_sndtimeo so else so_rcvtimeo so')"
  proof (cases "rcvtimeo_ret c < 0")
    case True
    with so' assms(1) show ?thesis
      by (simp add: tcp_setSocketTimeout_def Let_def)
  next
    case False
    with so' assms(1) have "so_rcvtimeo so' = socket_timeval timeout"
      "so_sndtimeo so' = (if sndtimeo_ret c < 0 then so_sndtimeo so else so_rcvtimeo so')"
      by (simp_all add: tcp_setSocketTimeout_def Let_def)
    with False timeval_value [of timeout] show ?thesis
      by presburger
  qed
  show "snd (tcp_deviceSendMessage mem c timeout (Some t) msg so es) =
      snd (tcp_deviceSendMessage mem c' timeout' (Some t) msg so'' es)"
    by (simp add: tcp_deviceSendMessage_def frame_simps tcp_write_def split_beta
        split: option.split sum.split cpp_exception.split)
  show "snd (tcp_deviceReceiveMessage mem c timeout (Some t) ok so rs) =
      snd (tcp_deviceReceiveMessage mem c' timeout' (Some t) ok so'' rs)"
    by (rule tcp_receive_result_only) 
qed

lemma tcp_callbacks_set_timeouts_witness:
  "let so' = fst (tcp_deviceReceiveMessage plenty ok_calls 2000000 (Some example_tcp) True example_state []) in
     unat (tv_sec (so_rcvtimeo so')) * 1000000 + unat (tv_usec (so_rcvtimeo so')) = 5000000 \<and>
     so_sndtimeo so' = so_rcvtimeo so'"
  using tcp_callbacks_set_timeouts [OF example_tcp_open disjI2 [OF refl],
      where mem = plenty and c = ok_calls and timeout = 2000000 and ok = True and so = example_state
        and rs = "[]"]
  by (simp add: ok_calls_def timeoutUsInfinite_def Let_def)

text \<open>
  C34. The MCTP callbacks drop the message type when sending and put it back when receiving: a
  message that begins with the SPDM type comes back as it was sent, in a new block. The first byte is
  dropped whatever it is, and sending the empty message reads beyond the buffer.
\<close>

theorem mctp_send_then_receive:
  assumes "mctp_isSocketOpen (mctpIo t)" and "length msg < 2 ^ 64 - 2"
    and "mctp_isSocketOpen (mctpIo u)" and "eid u = dev"
  shows "(mctp_device_send_message plenty r timeout (Some t) msg = Inl OutOfBounds \<longleftrightarrow> msg = []) \<and>
    (0 \<le> r \<and> msg \<noteq> [] \<longrightarrow>
      (\<exists>dg. mctp_device_send_message plenty r timeout (Some t) msg = Inr (LIBSPDM_STATUS_SUCCESS, Some dg) \<and>
        dg_eid dg = eid t \<and>
        mctp_device_receive_message plenty timeout' True (Some u)
          (\<lparr>peek_ret = int (length (dg_payload dg)), recvfrom_ret = int (length (dg_payload dg)),
            recvfrom_data = dg_payload dg, recvfrom_addr = dev\<rparr> # rs) h =
          Some ((LIBSPDM_STATUS_SUCCESS, Some (MCTP_TYPE_SPDM # tl msg)), rs, snd (malloc True h)) \<and>
        (MCTP_TYPE_SPDM # tl msg = msg \<longleftrightarrow> hd msg = MCTP_TYPE_SPDM)))"
proof -
  have "mctp_device_receive_message plenty timeout' True (Some u)
        (\<lparr>peek_ret = int (length d), recvfrom_ret = int (length d), recvfrom_data = d,
          recvfrom_addr = dev\<rparr> # rs) h =
      Some ((LIBSPDM_STATUS_SUCCESS, Some (MCTP_TYPE_SPDM # d)), rs, snd (malloc True h))" for d
    using assms(4) by (subst mctp_receive_result [OF assms(3)]) (simp_all add: mctp_recv_ok_def)
  moreover have "MCTP_TYPE_SPDM # tl msg = msg \<longleftrightarrow> hd msg = MCTP_TYPE_SPDM" if "msg \<noteq> []"
    using that by (cases msg) auto
  ultimately show ?thesis
    using mctp_send_result [OF assms(1,2), of r timeout] by (simp del: length_tl)
qed

definition example_mctp :: mctp_transport where
  "example_mctp = (mctp_transport_init dsp0274 8)\<lparr>mctpIo := \<lparr>mctpSocketFd = 3\<rparr>\<rparr>"

lemma example_mctp_open: "mctp_isSocketOpen (mctpIo example_mctp)" "eid example_mctp = 8"
  by (simp_all add: example_mctp_def mctp_isSocketOpen_def mctp_transport_init_def
      spdm_transport.defs)

lemma mctp_send_then_receive_witness:
  "mctp_device_send_message plenty 0 7 (Some example_mctp) [] = Inl OutOfBounds \<and>
   (\<exists>dg. mctp_device_send_message plenty 0 7 (Some example_mctp) [5, 16, 132] =
      Inr (LIBSPDM_STATUS_SUCCESS, Some dg) \<and> dg_eid dg = 8)"
  using mctp_send_then_receive [OF example_mctp_open(1) _ example_mctp_open,
      where msg = "[]" and r = 0 and timeout = 7]
    mctp_send_then_receive [OF example_mctp_open(1) _ example_mctp_open,
      where msg = "[5, 16, 132]" and r = 0 and timeout = 7 and timeout' = 0 and rs = "[]" and h = empty_heap]
    example_mctp_open
  by auto

lemma mctp_receive_many_result:
  assumes "mctp_isSocketOpen (mctpIo t)" and "list_all mctp_recv_ok rs"
  shows "map_option (\<lambda>(results, rs', h'). (results, rs')) (mctp_receive_many calls t rs h) =
    (if length rs < length calls then None
     else Some
       (map (\<lambda>((timeout, malloc_ok), r).
          if recvfrom_addr r = eid t \<and> malloc_ok
          then (LIBSPDM_STATUS_SUCCESS, Some (MCTP_TYPE_SPDM # recvfrom_data r))
          else (LIBSPDM_STATUS_RECEIVE_FAIL, None)) (zip calls rs),
        drop (length calls) rs))"
  using assms(2)
proof (induction calls arbitrary: rs h)
  case Nil
  then show ?case
    by simp
next
  case (Cons call calls)
  obtain timeout ok where call: "call = (timeout, ok)"
    by fastforce
  show ?case
  proof (cases rs)
    case Nil
    then show ?thesis
      by (simp add: call mctp_receive_waits [OF assms(1)])
  next
    case (Cons r rs')
    let ?h = "if recvfrom_addr r = eid t \<and> ok then snd (malloc True h) else h"
    from Cons.IH [of rs' ?h] Cons.prems show ?thesis
      by (cases "mctp_receive_many calls t rs' ?h")
        (auto simp: Cons call mctp_receive_result [OF assms(1)] split: if_splits)
  qed
qed

text \<open>
  C32. Over MCTP the reception waits for ever. The \<open>k\<close>-th of any number of receptions takes exactly the
  \<open>k\<close>-th datagram, however long that takes: a datagram of the transport's own endpoint is delivered,
  with the message type in front, unless its block cannot be allocated, and a datagram of any other
  endpoint is lost and fails the reception. When fewer datagrams arrive than receptions are made, the
  last one does not return, whatever timeout libspdm asked for. Where there is no memory for the
  datagram itself the reception fails and leaves it to the next one, and where there is none for the
  bytes in front of it the datagram is lost.
\<close>

theorem mctp_receive_sequence:
  assumes "mctp_isSocketOpen (mctpIo t)" and "list_all mctp_recv_ok rs"
  shows "map_option (\<lambda>(results, rs', h'). (results, rs')) (mctp_receive_many calls t rs h) =
    (if length rs < length calls then None
     else Some
       (map (\<lambda>((timeout, malloc_ok), r).
          if recvfrom_addr r = eid t \<and> malloc_ok
          then (LIBSPDM_STATUS_SUCCESS, Some (MCTP_TYPE_SPDM # recvfrom_data r))
          else (LIBSPDM_STATUS_RECEIVE_FAIL, None)) (zip calls rs),
        drop (length calls) rs)) \<and>
    (\<not> (vec_fits mem [] n \<and> mem 12 \<and> mem (n + 3)) \<and> rs \<noteq> [] \<and> n = length (recvfrom_data (hd rs)) \<longrightarrow>
     mctp_device_receive_message mem timeout malloc_ok (Some t) rs h =
       Some ((LIBSPDM_STATUS_RECEIVE_FAIL, None), if vec_fits mem [] n then tl rs else rs, h))"
  using mctp_receive_many_result [OF assms, of calls h] mctp_receive_result [OF assms(1)] assms(2)
  by (cases rs) auto

lemma mctp_receive_sequence_witness:
  "let r = (\<lambda>a d. \<lparr>peek_ret = int (length d), recvfrom_ret = int (length d), recvfrom_data = d,
                  recvfrom_addr = a\<rparr>) in
   map_option fst (mctp_receive_many [(1, True), (1, True)] example_mctp [r 9 [1], r 8 [16]] empty_heap) =
     Some [(LIBSPDM_STATUS_RECEIVE_FAIL, None), (LIBSPDM_STATUS_SUCCESS, Some [5, 16])] \<and>
   mctp_receive_many [(1, True), (1, True)] example_mctp [r 8 [16]] empty_heap = None \<and>
   mctp_device_receive_message (\<lambda>n. False) 1 True (Some example_mctp) [r 8 [16]] empty_heap =
     Some ((LIBSPDM_STATUS_RECEIVE_FAIL, None), [r 8 [16]], empty_heap)"
proof -
  let ?r = "\<lambda>a d. \<lparr>peek_ret = int (length d), recvfrom_ret = int (length d), recvfrom_data = d,
                  recvfrom_addr = a\<rparr>"
  let ?run = "\<lambda>rs. mctp_receive_many [(1, True), (1, True)] example_mctp rs empty_heap"
  have "list_all mctp_recv_ok [?r 9 [1], ?r 8 [16]]" "list_all mctp_recv_ok [?r 8 [16]]"
    by (simp_all add: mctp_recv_ok_def)
  note 1 = mctp_receive_sequence [OF example_mctp_open(1) this(1), of "[(1, True), (1, True)]" empty_heap,
      THEN conjunct1]
    and 2 = mctp_receive_sequence [OF example_mctp_open(1) this(2), of "[(1, True), (1, True)]" empty_heap
      "\<lambda>n. False" 1 1 True]
  with 1 2 show ?thesis
    by (auto simp: example_mctp_open MCTP_TYPE_SPDM_def vec_fits_def Let_def
        simp del: mctp_receive_many.simps)
qed

text \<open>The four buffer callbacks, called in any order.\<close>

datatype buffer_call = AcquireSender | ReleaseSender | AcquireReceiver | ReleaseReceiver

fun mctp_buffer_calls :: "buffer_call list \<Rightarrow> mctp_transport \<Rightarrow> status list" where
  "mctp_buffer_calls [] t = []"
| "mctp_buffer_calls (AcquireSender # cs) t =
     (let (st, t) = mctp_acquire_sender_buffer t in st # mctp_buffer_calls cs t)"
| "mctp_buffer_calls (ReleaseSender # cs) t = mctp_buffer_calls cs (mctp_release_sender_buffer t)"
| "mctp_buffer_calls (AcquireReceiver # cs) t =
     (let (st, t) = mctp_acquire_receiver_buffer t in st # mctp_buffer_calls cs t)"
| "mctp_buffer_calls (ReleaseReceiver # cs) t = mctp_buffer_calls cs (mctp_release_receiver_buffer t)"

fun tcp_buffer_calls :: "buffer_call list \<Rightarrow> tcp_transport \<Rightarrow> status list" where
  "tcp_buffer_calls [] t = []"
| "tcp_buffer_calls (AcquireSender # cs) t =
     (let (st, t) = tcp_acquireSenderBuffer t in st # tcp_buffer_calls cs t)"
| "tcp_buffer_calls (ReleaseSender # cs) t = tcp_buffer_calls cs (tcp_releaseSenderBuffer t)"
| "tcp_buffer_calls (AcquireReceiver # cs) t =
     (let (st, t) = tcp_acquireReceiverBuffer t in st # tcp_buffer_calls cs t)"
| "tcp_buffer_calls (ReleaseReceiver # cs) t = tcp_buffer_calls cs (tcp_releaseReceiverBuffer t)"

fun lock_op_of :: "buffer_call \<Rightarrow> lock_op" where
  "lock_op_of AcquireSender = Acquire"
| "lock_op_of AcquireReceiver = Acquire"
| "lock_op_of ReleaseSender = Release"
| "lock_op_of ReleaseReceiver = Release"

lemma mctp_buffer_calls_lock_run:
  "mctp_buffer_calls cs t = fst (lock_run transport_acquire transport_release (map lock_op_of cs) t)"
proof (induction cs arbitrary: t)
  case (Cons c cs)
  then show ?case
    by (cases c)
      (simp_all add: mctp_acquire_sender_buffer_def mctp_acquire_receiver_buffer_def
        mctp_release_sender_buffer_def mctp_release_receiver_buffer_def split_beta Let_def)
qed simp

lemma tcp_buffer_calls_lock_run:
  "tcp_buffer_calls cs t = fst (lock_run transport_acquire transport_release (map lock_op_of cs) t)"
proof (induction cs arbitrary: t)
  case (Cons c cs)
  then show ?case
    by (cases c)
      (simp_all add: tcp_acquireSenderBuffer_def tcp_acquireReceiverBuffer_def
        tcp_releaseSenderBuffer_def tcp_releaseReceiverBuffer_def split_beta Let_def)
qed simp

lemma count_releases:
  "count_list (map lock_op_of cs) Release = count_list cs ReleaseSender + count_list cs ReleaseReceiver"
proof (induction cs)
  case (Cons c cs)
  then show ?case
    by (cases c) simp_all
qed simp

text \<open>
  C35. Each transport has one buffer for sending and receiving, and it has one holder at a time: in
  any sequence of the four callbacks there is at most one more grant than there are releases, and
  none more when the buffer was taken at the start. Sender and receiver exclude each other.
\<close>

theorem one_buffer_holder:
  "grants (mctp_buffer_calls cs t)
     \<le> count_list cs ReleaseSender + count_list cs ReleaseReceiver
         + (if sendReceiveBufferAcquired t then 0 else 1) \<and>
   grants (tcp_buffer_calls cs u)
     \<le> count_list cs ReleaseSender + count_list cs ReleaseReceiver
         + (if sendReceiveBufferAcquired u then 0 else 1)"
  using transport_buffer.one_holder [of "map lock_op_of cs" t]
    transport_buffer.one_holder [of "map lock_op_of cs" u]
  by (simp only: mctp_buffer_calls_lock_run tcp_buffer_calls_lock_run count_releases)

end
