(* ===== verification/Message_Blocks.thy ===== *)
theory Message_Blocks
  imports Transport_Callbacks
begin

text \<open>
  The heap blocks of received messages. \<open>decode\<close> (\<^verbatim>\<open>requester/mctp_helper.hpp\<close>, \<^verbatim>\<open>requester/tcp_helper.hpp\<close>)
  puts each message in a block of its own, which its caller has to free; the callers are the receive
  callbacks, which hand the block to libspdm in place of the receive buffer. The interface
  \<open>message_source\<close> is one callback after another with the blocks this takes; both transports provide
  it, and so does the test client.
\<close>

section \<open>The contract\<close>

text \<open>
  \<open>call\<close> is one callback with its arguments: the message it delivered, if any, and the state after
  it. \<open>None\<close> is a callback that has not returned, or reads out of bounds.
\<close>

fun device_run ::
    "('c \<Rightarrow> 's \<Rightarrow> (bytes option \<times> 's) option) \<Rightarrow> 'c list \<Rightarrow> 's \<Rightarrow> (bytes list \<times> 's) option" where
  "device_run call [] s = Some ([], s)"
| "device_run call (c # cs) s =
     (case call c s of
        None \<Rightarrow> None
      | Some (message, s) \<Rightarrow>
          (case device_run call cs s of
             None \<Rightarrow> None
           | Some (messages, s) \<Rightarrow>
               Some (case message of None \<Rightarrow> messages | Some m \<Rightarrow> m # messages, s)))"

definition took_block :: "bool \<Rightarrow> heap \<Rightarrow> heap \<Rightarrow> bool" where
  "took_block one h h' \<longleftrightarrow>
     heap_ok h' \<and> (if one then \<exists>p. p \<notin> live h \<and> live h' = insert p (live h) else live h' = live h)"

lemma took_block_malloc: "heap_ok h \<Longrightarrow> took_block True h (snd (malloc True h))"
  by (auto simp: took_block_def heap_ok_malloc live_malloc intro: exI [of _ "brk h"])

lemma took_block_same: "heap_ok h \<Longrightarrow> took_block False h h"
  by (simp add: took_block_def)

lemma took_block_given_back: "heap_ok h \<Longrightarrow> took_block False h (free (brk h) (snd (malloc True h)))"
  by (simp add: took_block_def heap_ok_free_malloc live_free_malloc)

locale message_source =
  fixes call :: "'c \<Rightarrow> 's \<Rightarrow> (bytes option \<times> 's) option"
    and heap_of :: "'s \<Rightarrow> heap"
  assumes call_block: "heap_ok (heap_of s) \<Longrightarrow> call c s = Some (message, s') \<Longrightarrow>
      took_block (message \<noteq> None) (heap_of s) (heap_of s')"
begin

lemma run_blocks:
  "device_run call cs s = Some (messages, s') \<Longrightarrow> heap_ok (heap_of s) \<Longrightarrow>
   heap_ok (heap_of s') \<and> live (heap_of s) \<subseteq> live (heap_of s') \<and>
   finite (live (heap_of s') - live (heap_of s)) \<and>
   card (live (heap_of s') - live (heap_of s)) = length messages"
proof (induction cs arbitrary: s messages)
  case (Cons c cs)
  from Cons.prems(1) obtain m s1 ms where call: "call c s = Some (m, s1)"
    and run: "device_run call cs s1 = Some (ms, s')"
    and messages: "messages = (case m of None \<Rightarrow> ms | Some x \<Rightarrow> x # ms)"
    by (auto split: option.splits)
  note block = call_block [OF Cons.prems(2) call]
  then have ok: "heap_ok (heap_of s1)"
    by (simp add: took_block_def)
  note ih = Cons.IH [OF run ok]
  show ?case
  proof (cases m)
    case None
    with block ih messages show ?thesis
      by (simp add: took_block_def)
  next
    case (Some x)
    with block obtain p where p: "p \<notin> live (heap_of s)" "live (heap_of s1) = insert p (live (heap_of s))"
      by (auto simp: took_block_def)
    from ih p(2) have sub: "live (heap_of s) \<subseteq> live (heap_of s')" "p \<in> live (heap_of s')"
      by blast+
    have diff: "live (heap_of s') - live (heap_of s) = insert p (live (heap_of s') - live (heap_of s1))"
      using p sub by blast
    have "p \<notin> live (heap_of s') - live (heap_of s1)"
      using p(2) by simp
    with ih sub messages Some show ?thesis
      unfolding diff by simp
  qed
qed simp

end

section \<open>The callbacks of the transports\<close>

definition tcp_buffer_call :: "buffer_call \<Rightarrow> tcp_transport \<Rightarrow> tcp_transport" where
  "tcp_buffer_call b t =
     (case b of
        AcquireSender \<Rightarrow> snd (tcp_acquireSenderBuffer t)
      | ReleaseSender \<Rightarrow> tcp_releaseSenderBuffer t
      | AcquireReceiver \<Rightarrow> snd (tcp_acquireReceiverBuffer t)
      | ReleaseReceiver \<Rightarrow> tcp_releaseReceiverBuffer t)"

definition mctp_buffer_call :: "buffer_call \<Rightarrow> mctp_transport \<Rightarrow> mctp_transport" where
  "mctp_buffer_call b t =
     (case b of
        AcquireSender \<Rightarrow> snd (mctp_acquire_sender_buffer t)
      | ReleaseSender \<Rightarrow> mctp_release_sender_buffer t
      | AcquireReceiver \<Rightarrow> snd (mctp_acquire_receiver_buffer t)
      | ReleaseReceiver \<Rightarrow> mctp_release_receiver_buffer t)"

datatype tcp_call =
    Tcp_buffer buffer_call
  | Tcp_send memory timeout_calls u64 bytes "send_event list"
  | Tcp_receive memory timeout_calls u64 bool

fun tcp_callback ::
    "tcp_call \<Rightarrow> tcp_transport \<times> callback_state \<times> recv_event list
     \<Rightarrow> (bytes option \<times> tcp_transport \<times> callback_state \<times> recv_event list) option"
where
  "tcp_callback (Tcp_buffer b) (t, so, es) = Some (None, tcp_buffer_call b t, so, es)"
| "tcp_callback (Tcp_send mem c timeout msg sends) (t, so, es) =
     (case tcp_deviceSendMessage mem c timeout (Some t) msg so sends of
        (so, None) \<Rightarrow> None
      | (so, Some _) \<Rightarrow> Some (None, t, so, es))"
| "tcp_callback (Tcp_receive mem c timeout malloc_ok) (t, so, es) =
     (case tcp_deviceReceiveMessage mem c timeout (Some t) malloc_ok so es of
        (so, None) \<Rightarrow> None
      | (so, Some (st, message, es)) \<Rightarrow> Some (message, t, so, es))"

datatype mctp_call =
    Mctp_buffer buffer_call
  | Mctp_send memory int u64 bytes
  | Mctp_receive memory u64 bool

fun mctp_callback ::
    "mctp_call \<Rightarrow> mctp_transport \<times> mctp_recv list \<times> heap
     \<Rightarrow> (bytes option \<times> mctp_transport \<times> mctp_recv list \<times> heap) option"
where
  "mctp_callback (Mctp_buffer b) (t, rs, h) = Some (None, mctp_buffer_call b t, rs, h)"
| "mctp_callback (Mctp_send mem sendto_ret timeout msg) (t, rs, h) =
     (case mctp_device_send_message mem sendto_ret timeout (Some t) msg of
        Inl OutOfBounds \<Rightarrow> None
      | Inr _ \<Rightarrow> Some (None, t, rs, h))"
| "mctp_callback (Mctp_receive mem timeout malloc_ok) (t, rs, h) =
     (case mctp_device_receive_message mem timeout malloc_ok (Some t) rs h of
        None \<Rightarrow> None
      | Some ((st, message), rs, h) \<Rightarrow> Some (message, t, rs, h))"

section \<open>What they do to the heap\<close>

lemma setSocketTimeout_heap [simp]:
  "callback_heap (snd (tcp_setSocketTimeout c io timeout so)) = callback_heap so"
  by (simp add: tcp_setSocketTimeout_def Let_def)

lemma tcp_send_heap:
  "tcp_deviceSendMessage mem c timeout (Some t) msg so es = (so', r) \<Longrightarrow> callback_heap so' = callback_heap so"
  using tcp_callback_timeouts(1) [of mem c timeout t msg so es] by simp

text \<open>\<open>decode\<close> takes a block for a message and for nothing else.\<close>

lemma tcp_decode_heap:
  "tcp_decode buf ok h = ((st, message), h') \<Longrightarrow>
   (message = None \<longrightarrow> h' = h \<and> st \<noteq> LIBSPDM_STATUS_SUCCESS) \<and>
   (message \<noteq> None \<longrightarrow> h' = snd (malloc True h) \<and> st = LIBSPDM_STATUS_SUCCESS)"
  by (cases ok) (auto simp: tcp_decode_def Let_def malloc_works split: if_splits)

lemma mctp_decode_heap:
  "mctp_decode e buf ok h = ((st, message), h') \<Longrightarrow>
   (message = None \<longrightarrow> h' = h \<and> st \<noteq> LIBSPDM_STATUS_SUCCESS) \<and>
   (message \<noteq> None \<longrightarrow> h' = snd (malloc True h) \<and> st = LIBSPDM_STATUS_SUCCESS)"
  by (cases ok) (auto simp: mctp_decode_def malloc_works split: if_splits)

lemma tcp_receive_heap:
  assumes "tcp_deviceReceiveMessage mem c timeout (Some t) ok so es = (so', Some (st, message, es'))"
  shows "callback_heap so' =
    (if message = None then callback_heap so else snd (malloc True (callback_heap so)))"
proof -
  obtain so1 r where read: "tcp_read mem c timeout (tcpIo t) [] so es = (so1, r)"
    by fastforce
  have so1: "callback_heap so1 = callback_heap so"
    using arg_cong [OF read, of "callback_heap \<circ> fst"] by (simp add: tcp_read_def split_beta split: if_splits)
  show ?thesis
  proof (cases r)
    case None
    with assms read show ?thesis
      by (simp add: tcp_deviceReceiveMessage_def)
  next
    case (Some a)
    obtain st1 buf es1 where a: "a = (st1, buf, es1)"
      by (metis prod_cases3)
    obtain st2 m h where decode: "tcp_decode buf ok (callback_heap so1) = ((st2, m), h)"
      by (metis prod.collapse)
    show ?thesis
      using assms read Some a decode so1 tcp_decode_heap [OF decode]
      by (auto simp: tcp_deviceReceiveMessage_def Let_def split: if_splits sum.splits cpp_exception.splits)
  qed
qed

lemma mctp_receive_heap:
  assumes "mctp_device_receive_message mem timeout ok (Some t) rs h = Some ((st, message), rs', h')"
  shows "h' = (if message = None then h else snd (malloc True h))"
proof -
  from assms obtain st1 response where "mctp_read mem timeout (mctpIo t) [] rs = Some (st1, response, rs')"
    by (auto simp: mctp_device_receive_message_def Let_def
        split: option.splits if_splits prod.splits sum.splits cpp_exception.splits)
  with assms show ?thesis
    using mctp_decode_heap [of "eid t" response ok h]
    by (auto simp: mctp_device_receive_message_def Let_def
        split: if_splits prod.splits sum.splits cpp_exception.splits)
qed

interpretation tcp_source: message_source tcp_callback "\<lambda>(t, so, es). callback_heap so"
proof unfold_locales
  fix c s message s'
  assume "heap_ok (case s of (t, so, es) \<Rightarrow> callback_heap so)" "tcp_callback c s = Some (message, s')"
  then show "took_block (message \<noteq> None) (case s of (t, so, es) \<Rightarrow> callback_heap so)
      (case s' of (t, so, es) \<Rightarrow> callback_heap so)"
    by (cases "(c, s)" rule: tcp_callback.cases)
      (auto split: prod.splits option.splits
        dest!: tcp_send_heap tcp_receive_heap simp: took_block_malloc took_block_same)
qed

interpretation mctp_source: message_source mctp_callback "\<lambda>(t, rs, h). h"
proof unfold_locales
  fix c s message s'
  assume "heap_ok (case s of (t, rs, h) \<Rightarrow> h)" "mctp_callback c s = Some (message, s')"
  then show "took_block (message \<noteq> None) (case s of (t, rs, h) \<Rightarrow> h) (case s' of (t, rs, h) \<Rightarrow> h)"
    by (cases "(c, s)" rule: mctp_callback.cases)
      (auto split: prod.splits option.splits sum.splits mem_error.splits
        dest!: mctp_receive_heap simp: took_block_malloc took_block_same)
qed

section \<open>Properties\<close>

text \<open>
  C30. Every received message leaks. In any sequence of callbacks of a transport, sends, receptions and
  the four for the buffer, there is one new live block for each message that was delivered, and for
  nothing else; no callback ever gives a block back, so that after \<open>n\<close> messages there are \<open>n\<close> more
  live blocks than before. Both transports behave so.
\<close>

theorem received_blocks_leak:
  assumes "device_run tcp_callback cs (t, so, es) = Some (messages, t', so', es')"
    and "device_run mctp_callback ds (u, rs, h) = Some (messages', u', rs', h')"
    and "heap_ok (callback_heap so)" and "heap_ok h"
  shows "live (callback_heap so) \<subseteq> live (callback_heap so') \<and>
    card (live (callback_heap so') - live (callback_heap so)) = length messages \<and>
    live h \<subseteq> live h' \<and> card (live h' - live h) = length messages'"
  using tcp_source.run_blocks [OF assms(1)] mctp_source.run_blocks [OF assms(2)] assms(3,4)
  by simp

lemma received_blocks_leak_witness:
  "\<exists>t' so' es' u' rs' h'.
     device_run tcp_callback
       [Tcp_buffer AcquireReceiver, Tcp_receive plenty ok_calls 0 True, Tcp_buffer ReleaseReceiver]
       (example_tcp, example_state, [RecvData (tcp_frame_of [16])]) = Some ([[16]], t', so', es') \<and>
     device_run mctp_callback [Mctp_send plenty 0 7 [5, 1], Mctp_receive plenty 7 True, Mctp_receive plenty 7 True]
       (example_mctp,
        [\<lparr>peek_ret = 0, recvfrom_ret = 0, recvfrom_data = [], recvfrom_addr = 9\<rparr>,
         \<lparr>peek_ret = 0, recvfrom_ret = 0, recvfrom_data = [], recvfrom_addr = 8\<rparr>], empty_heap) =
       Some ([[5]], u', rs', h') \<and>
     card (live (callback_heap so') - live (callback_heap example_state)) = 1 \<and>
     card (live h' - live empty_heap) = 1"
proof -
  let ?t = "tcp_buffer_call AcquireReceiver example_tcp"
  have "tcpIo ?t = tcpIo example_tcp"
    by (simp add: tcp_buffer_call_def tcp_acquireReceiverBuffer_def transport_acquire_def)
  then have open_t: "tcp_isSocketOpen (tcpIo ?t)"
    by (simp add: example_tcp_open)
  obtain so' es' where r: "tcp_deviceReceiveMessage plenty ok_calls 0 (Some ?t) True example_state
      [RecvData (tcp_frame_of [16])] = (so', Some (LIBSPDM_STATUS_SUCCESS, Some [16], es'))"
    using tcp_receive_frame [OF open_t, of "[RecvData (tcp_frame_of [16])]" "[16]" "[]" ok_calls 0 example_state]
    by (auto simp: tcpMaxMessageSize_def tcp_frame_nonempty) (metis prod.collapse)
  have 1: "device_run tcp_callback
      [Tcp_buffer AcquireReceiver, Tcp_receive plenty ok_calls 0 True, Tcp_buffer ReleaseReceiver]
      (example_tcp, example_state, [RecvData (tcp_frame_of [16])]) =
      Some ([[16]], tcp_buffer_call ReleaseReceiver ?t, so', es')"
    by (simp add: r)
  have 2: "device_run mctp_callback [Mctp_send plenty 0 7 [5, 1], Mctp_receive plenty 7 True, Mctp_receive plenty 7 True]
      (example_mctp,
       [\<lparr>peek_ret = 0, recvfrom_ret = 0, recvfrom_data = [], recvfrom_addr = 9\<rparr>,
        \<lparr>peek_ret = 0, recvfrom_ret = 0, recvfrom_data = [], recvfrom_addr = 8\<rparr>], empty_heap) =
      Some ([[5]], example_mctp, [], snd (malloc True empty_heap))"
    by (simp add: mctp_send_result [OF example_mctp_open(1)] mctp_receive_result [OF example_mctp_open(1)]
        example_mctp_open mctp_recv_ok_def MCTP_TYPE_SPDM_def)
  have "heap_ok (callback_heap example_state)"
    by (simp add: example_state_def)
  from 1 2 received_blocks_leak [OF 1 2 this heap_ok_empty] show ?thesis
    by simp
qed

end
