(* ===== verification/Simple_Client.thy ===== *)
theory Simple_Client
  imports Session Message_Blocks
begin

text \<open>
  \<^verbatim>\<open>requester/spdm_simple_client.cpp\<close>: the standalone test client. It has its own connection, its own
  framing (the platform header in the byte order of the host, taken to be little-endian), its own
  buffer callbacks, context set-up and protocol run. Its global \<open>gClientCtx\<close> is the record
  \<open>client\<close>; output to the terminal is left out.
\<close>

section \<open>The state\<close>

definition SPDM_MAX_BUFFER_SIZE :: nat where
  "SPDM_MAX_BUFFER_SIZE = 0x1200 + (64 + 64)"

definition PLATFORM_CMD_NORMAL :: u32 where
  "PLATFORM_CMD_NORMAL = 1"

definition PLATFORM_TRANSPORT_TCP :: u32 where
  "PLATFORM_TRANSPORT_TCP = 3"

definition PLATFORM_HEADER_SIZE :: nat where
  "PLATFORM_HEADER_SIZE = 12"

record client =
  socketFd :: int
  c_ipAddr :: string
  c_port :: u16
  sendRecvBuffer :: bytes
  bufferAcquired :: bool

section \<open>The connection\<close>

text \<open>The answers of \<open>socket\<close>, \<open>inet_pton\<close> and \<open>connect\<close>.\<close>

definition tcpConnect :: "int \<Rightarrow> int \<Rightarrow> int \<Rightarrow> client \<Rightarrow> kernel \<Rightarrow> bool \<times> client \<times> kernel" where
  "tcpConnect socket_result pton_result connect_result cl k =
     (let cl = cl\<lparr>socketFd := socket_result\<rparr> in
      if socketFd cl < 0 then (False, cl, k)
      else
        (let k = fd_open (socketFd cl) k in
         if pton_result \<le> 0 then (False, cl\<lparr>socketFd := -1\<rparr>, fd_close (socketFd cl) k)
         else if connect_result < 0 then (False, cl\<lparr>socketFd := -1\<rparr>, fd_close (socketFd cl) k)
         else (True, cl, k)))"

definition tcpDisconnect :: "client \<Rightarrow> kernel \<Rightarrow> client \<times> kernel" where
  "tcpDisconnect cl k =
     (if 0 \<le> socketFd cl then (cl\<lparr>socketFd := -1\<rparr>, fd_close (socketFd cl) k) else (cl, k))"

section \<open>Sending and receiving\<close>

text \<open>Unlike \<open>TcpIoClass\<close>, the loops give up when a signal interrupts the call.\<close>

fun client_send_loop ::
    "bytes \<Rightarrow> nat \<Rightarrow> bytes \<Rightarrow> send_event list \<Rightarrow> (status \<times> bytes \<times> send_event list) option" where
  "client_send_loop buf totalSent wire [] =
     (if totalSent < length buf then None else Some (LIBSPDM_STATUS_SUCCESS, wire, []))"
| "client_send_loop buf totalSent wire (e # es) =
     (if totalSent < length buf then
        (case e of
           SendErr err \<Rightarrow> Some (LIBSPDM_STATUS_SEND_FAIL, wire, es)
         | Sent n \<Rightarrow>
             if n = 0 then Some (LIBSPDM_STATUS_SEND_FAIL, wire, es)
             else client_send_loop buf (totalSent + n) (wire @ take n (drop totalSent buf)) es)
      else Some (LIBSPDM_STATUS_SUCCESS, wire, e # es))"

definition client_message :: "bytes \<Rightarrow> bytes" where
  "client_message msg =
     (let tcpMsg = replicate (PLATFORM_HEADER_SIZE + length msg) 0;
          tcpMsg = vec_write 0 (le32_bytes PLATFORM_CMD_NORMAL) tcpMsg;
          tcpMsg = vec_write 4 (le32_bytes PLATFORM_TRANSPORT_TCP) tcpMsg;
          tcpMsg = vec_write 8 (le32_bytes (word_of_nat (length msg))) tcpMsg
      in vec_write PLATFORM_HEADER_SIZE msg tcpMsg)"

definition spdmDeviceSendMessage ::
    "client \<Rightarrow> bytes \<Rightarrow> send_event list \<Rightarrow> (status \<times> bytes \<times> send_event list) option" where
  "spdmDeviceSendMessage cl msg es =
     (if socketFd cl < 0 then Some (LIBSPDM_STATUS_SEND_FAIL, [], es)
      else client_send_loop (client_message msg) 0 [] es)"

fun client_recv_loop ::
    "nat \<Rightarrow> bytes \<Rightarrow> recv_event list \<Rightarrow> (bool \<times> bytes \<times> recv_event list) option" where
  "client_recv_loop want got [] =
     (if length got < want then None else Some (True, got, []))"
| "client_recv_loop want got (e # es) =
     (if length got < want then
        (case e of
           RecvErr err \<Rightarrow> Some (False, got, es)
         | RecvClosed \<Rightarrow> Some (False, got, es)
         | RecvData bs \<Rightarrow>
             if bs = [] then Some (False, got, es)
             else if length bs \<le> want - length got then client_recv_loop want (got @ bs) es
             else Some (True, got @ take (want - length got) bs,
                        RecvData (drop (want - length got) bs) # es))
      else Some (True, got, e # es))"

text \<open>The message is a new block of the heap, given back if its payload does not arrive.\<close>

definition spdmDeviceReceiveMessage ::
    "client \<Rightarrow> bool \<Rightarrow> recv_event list \<Rightarrow> heap
     \<Rightarrow> ((status \<times> bytes option) \<times> recv_event list \<times> heap) option"
where
  "spdmDeviceReceiveMessage cl malloc_ok es h =
     (if socketFd cl < 0 then Some ((LIBSPDM_STATUS_RECEIVE_FAIL, None), es, h)
      else
        (case client_recv_loop PLATFORM_HEADER_SIZE [] es of
           None \<Rightarrow> None
         | Some (False, header, es) \<Rightarrow> Some ((LIBSPDM_STATUS_RECEIVE_FAIL, None), es, h)
         | Some (True, header, es) \<Rightarrow>
             (let size = le32_at 8 header in
              if le32_at 4 header \<noteq> PLATFORM_TRANSPORT_TCP
              then Some ((LIBSPDM_STATUS_RECEIVE_FAIL, None), es, h)
              else if size = 0 \<or> size > 65536
              then Some ((LIBSPDM_STATUS_RECEIVE_FAIL, None), es, h)
              else
                (case malloc malloc_ok h of
                   (None, h) \<Rightarrow> Some ((LIBSPDM_STATUS_BUFFER_FULL, None), es, h)
                 | (Some p, h) \<Rightarrow>
                     (case client_recv_loop (unat size) [] es of
                        None \<Rightarrow> None
                      | Some (False, payload, es) \<Rightarrow>
                          Some ((LIBSPDM_STATUS_RECEIVE_FAIL, None), es, free p h)
                      | Some (True, payload, es) \<Rightarrow>
                          Some ((LIBSPDM_STATUS_SUCCESS, Some payload), es, h))))))"

section \<open>The buffer\<close>

definition spdmAcquireSenderBuffer :: "client \<Rightarrow> status \<times> client" where
  "spdmAcquireSenderBuffer cl =
     (if bufferAcquired cl then (LIBSPDM_STATUS_ACQUIRE_FAIL, cl)
      else (LIBSPDM_STATUS_SUCCESS,
            cl\<lparr>sendRecvBuffer := replicate (length (sendRecvBuffer cl)) 0, bufferAcquired := True\<rparr>))"

definition spdmReleaseSenderBuffer :: "client \<Rightarrow> client" where
  "spdmReleaseSenderBuffer cl = cl\<lparr>bufferAcquired := False\<rparr>"

definition spdmAcquireReceiverBuffer :: "client \<Rightarrow> status \<times> client" where
  "spdmAcquireReceiverBuffer cl =
     (if bufferAcquired cl then (LIBSPDM_STATUS_ACQUIRE_FAIL, cl)
      else (LIBSPDM_STATUS_SUCCESS,
            cl\<lparr>sendRecvBuffer := replicate (length (sendRecvBuffer cl)) 0, bufferAcquired := True\<rparr>))"

definition spdmReleaseReceiverBuffer :: "client \<Rightarrow> client" where
  "spdmReleaseReceiverBuffer cl = cl\<lparr>bufferAcquired := False\<rparr>"

interpretation client_sender: buffer_lock
  spdmAcquireSenderBuffer spdmReleaseSenderBuffer bufferAcquired sendRecvBuffer
  "\<lambda>cl. replicate (length (sendRecvBuffer cl)) 0"
  by unfold_locales (auto simp: spdmAcquireSenderBuffer_def spdmReleaseSenderBuffer_def)

interpretation client_receiver: buffer_lock
  spdmAcquireReceiverBuffer spdmReleaseReceiverBuffer bufferAcquired sendRecvBuffer
  "\<lambda>cl. replicate (length (sendRecvBuffer cl)) 0"
  by unfold_locales (auto simp: spdmAcquireReceiverBuffer_def spdmReleaseReceiverBuffer_def)

section \<open>The context\<close>

text \<open>
  \<open>createSpdmContext\<close>: the context and the scratch buffer libspdm was given, which
  \<open>destroySpdmContext\<close> finds in the context.
\<close>

definition createSpdmContext ::
    "'w libspdm \<Rightarrow> 'w os \<Rightarrow> spdm_consts \<Rightarrow> 'w machine \<Rightarrow> (ptr \<times> ptr) option \<times> 'w machine" where
  "createSpdmContext L OS C m =
     (case machine_malloc OS (lib_get_context_size L) m of
        (None, m) \<Rightarrow> (None, m)
      | (Some c, m) \<Rightarrow>
          (let (st, w) = lib_init_context L c (world m); m = m\<lparr>world := w\<rparr> in
           if st \<noteq> LIBSPDM_STATUS_SUCCESS then (None, m\<lparr>mheap := free c (mheap m)\<rparr>)
           else
             (let w = lib_register_device_io L c (world m);
                  w = lib_register_transport_layer L c 0x1200 64 64 Libspdm_transport_mctp w;
                  w = lib_register_device_buffer L c SPDM_MAX_BUFFER_SIZE SPDM_MAX_BUFFER_SIZE w;
                  m = m\<lparr>world := w\<rparr>;
                  scratchSize = lib_scratch_size L c (world m) in
              case machine_malloc OS scratchSize m of
                (None, m) \<Rightarrow> (None, m\<lparr>mheap := free c (mheap m)\<rparr>)
              | (Some p, m) \<Rightarrow>
                  (let w = lib_set_scratch_buffer L c p scratchSize (world m);
                       w = snd (set_local L c LIBSPDM_DATA_CAPABILITY_CT_EXPONENT (Data8 0) w);
                       w = snd (set_local L c LIBSPDM_DATA_MEASUREMENT_SPEC
                                  (Data8 (MEASUREMENT_SPECIFICATION_DMTF C)) w);
                       w = snd (set_local L c LIBSPDM_DATA_BASE_ASYM_ALGO
                                  (Data32 (BASE_ASYM_ECDSA_P256 C OR BASE_ASYM_ECDSA_P384 C)) w);
                       w = snd (set_local L c LIBSPDM_DATA_BASE_HASH_ALGO
                                  (Data32 (BASE_HASH_SHA_256 C OR BASE_HASH_SHA_384 C)) w);
                       m = m\<lparr>world := w\<rparr> in
                   if \<not> lib_check_context L c w
                   then (None, m\<lparr>mheap := free c (free p (mheap m))\<rparr>)
                   else (Some (c, p), m)))))"

definition destroySpdmContext :: "'w libspdm \<Rightarrow> ptr \<times> ptr \<Rightarrow> 'w machine \<Rightarrow> 'w machine" where
  "destroySpdmContext L cp m =
     (let (c, p) = cp;
          m = m\<lparr>mheap := free p (mheap m)\<rparr>;
          m = m\<lparr>world := lib_deinit_context L c (world m)\<rparr>
      in m\<lparr>mheap := free c (mheap m)\<rparr>)"

section \<open>The protocol\<close>

text \<open>The first slot of the mask that is set, else slot 0.\<close>

fun find_slot :: "byte \<Rightarrow> nat list \<Rightarrow> nat" where
  "find_slot slotMask [] = 0"
| "find_slot slotMask (i # is) =
     (if (ucast slotMask :: u32) AND push_bit i 1 \<noteq> 0 then i else find_slot slotMask is)"

definition runSpdmProtocol :: "'w libspdm \<Rightarrow> spdm_consts \<Rightarrow> ptr \<Rightarrow> 'w \<Rightarrow> bool \<times> 'w" where
  "runSpdmProtocol L C c w =
     (let (st, w) = lib_init_connection L c False w in
      if IS_ERROR st then (False, w)
      else
        (let ((st, slotMask, digests), w) = lib_get_digest L c w in
         if IS_ERROR st then (False, w)
         else
           (let slot = find_slot slotMask [0..<8];
                ((st, certChain), w) =
                  lib_get_certificate L c (word_of_nat slot) LIBSPDM_MAX_CERT_CHAIN_SIZE w in
            if IS_ERROR st then (False, w)
            else
              (let (_, w) = lib_get_measurement L c 0 (OPERATION_TOTAL_NUMBER_OF_MEASUREMENTS C)
                              (word_of_nat slot) 0 w;
                   (_, w) = lib_get_measurement L c 0 (OPERATION_ALL_MEASUREMENTS C)
                              (word_of_nat slot) 4096 w
               in (True, w)))))"

section \<open>main\<close>

text \<open>\<^verbatim>\<open>atoi\<close>: blanks, a sign, digits up to the first other character.\<close>

fun digits_value :: "string \<Rightarrow> int \<Rightarrow> int" where
  "digits_value [] acc = acc"
| "digits_value (c # cs) acc =
     (if 48 \<le> (of_char c :: int) \<and> (of_char c :: int) \<le> 57
      then digits_value cs (10 * acc + (of_char c - 48)) else acc)"

definition atoi :: "string \<Rightarrow> int" where
  "atoi s =
     (case dropWhile (\<lambda>c. (of_char c :: int) = 32 \<or> 9 \<le> (of_char c :: int) \<and> (of_char c :: int) \<le> 13) s of
        [] \<Rightarrow> 0
      | c # cs \<Rightarrow>
          if c = CHR ''-'' then - digits_value cs 0
          else if c = CHR ''+'' then digits_value cs 0
          else digits_value (c # cs) 0)"

text \<open>The arguments after the program's name.\<close>

definition client_args :: "string list \<Rightarrow> client \<Rightarrow> client" where
  "client_args args cl =
     (let cl = cl\<lparr>c_ipAddr := ''127.0.0.1'', c_port := 2323\<rparr>;
          cl = (if 1 \<le> length args then cl\<lparr>c_ipAddr := args ! 0\<rparr> else cl)
      in if 2 \<le> length args then cl\<lparr>c_port := word_of_int (atoi (args ! 1))\<rparr> else cl)"

text \<open>The result is whether the exit code is success.\<close>

definition client_main ::
    "'w libspdm \<Rightarrow> 'w os \<Rightarrow> spdm_consts \<Rightarrow> string list \<Rightarrow> int \<Rightarrow> int \<Rightarrow> int \<Rightarrow> client \<Rightarrow> 'w machine
     \<Rightarrow> bool \<times> client \<times> 'w machine"
where
  "client_main L OS C args socket_result pton_result connect_result cl m =
     (let cl = client_args args cl;
          (ok, cl, k) = tcpConnect socket_result pton_result connect_result cl (mkernel m);
          m = m\<lparr>mkernel := k\<rparr> in
      if \<not> ok then (False, cl, m)
      else
        (case createSpdmContext L OS C m of
           (None, m) \<Rightarrow>
             (let (cl, k) = tcpDisconnect cl (mkernel m) in (False, cl, m\<lparr>mkernel := k\<rparr>))
         | (Some (c, p), m) \<Rightarrow>
             (let (success, w) = runSpdmProtocol L C c (world m);
                  m = destroySpdmContext L (c, p) (m\<lparr>world := w\<rparr>);
                  (cl, k) = tcpDisconnect cl (mkernel m)
              in (success, cl, m\<lparr>mkernel := k\<rparr>))))"

section \<open>Lemmas\<close>

lemma client_message_bytes:
  "client_message msg =
     le32_bytes PLATFORM_CMD_NORMAL @ le32_bytes PLATFORM_TRANSPORT_TCP @
     le32_bytes (word_of_nat (length msg)) @ msg"
proof -
  let ?n = "length msg"
  let ?c = "le32_bytes PLATFORM_CMD_NORMAL" and ?t = "le32_bytes PLATFORM_TRANSPORT_TCP"
    and ?s = "le32_bytes (word_of_nat ?n)"
  have 1: "vec_write 0 ?c (replicate (12 + ?n) 0) = ?c @ replicate (8 + ?n) 0"
    by (simp add: vec_write_def)
  have 2: "vec_write 4 ?t (?c @ replicate (8 + ?n) 0) = (?c @ ?t) @ replicate (4 + ?n) 0"
    by (subst vec_write_next) simp_all
  have 3: "vec_write 8 ?s ((?c @ ?t) @ replicate (4 + ?n) 0) = ((?c @ ?t) @ ?s) @ replicate ?n 0"
    by (subst vec_write_next) simp_all
  have 4: "vec_write 12 msg (((?c @ ?t) @ ?s) @ replicate ?n 0) = (((?c @ ?t) @ ?s) @ msg) @ []"
    by (subst vec_write_next) simp_all
  show ?thesis
    unfolding client_message_def Let_def PLATFORM_HEADER_SIZE_def 1 2 3 4 by simp
qed

lemma le32_at_skip: "length pre \<le> k \<Longrightarrow> le32_at k (pre @ rest) = le32_at (k - length pre) rest"
  by (simp add: le32_at_def nth_append Suc_diff_le)

lemma le32_at_0 [simp]: "le32_at 0 (le32_bytes v @ post) = v"
  by (simp add: le32_at_def le32_bytes_def be32_bytes_def be32_value_of_bytes)

lemma client_frame_fields:
  "length (client_message msg) = 12 + length msg"
  "le32_at 4 (client_message msg) = PLATFORM_TRANSPORT_TCP"
  "le32_at 8 (client_message msg) = word_of_nat (length msg)"
  by (simp_all add: client_message_bytes le32_at_skip)

text \<open>The transport type 3, written in one byte order and read in the other.\<close>

lemma transport_type_swapped:
  "be32_at 4 (client_message msg @ rest) = 0x03000000"
  "le32_at 4 (tcp_frame_of msg @ rest) = 0x03000000"
proof -
  have "be32_bytes (3 :: u32) = [0, 0, 0, 3]"
    by (simp add: be32_bytes_def)
  then have le: "le32_bytes (3 :: u32) = [3, 0, 0, 0]" and be: "be32_bytes (3 :: u32) = [0, 0, 0, 3]"
    by (simp_all add: le32_bytes_def)
  show "be32_at 4 (client_message msg @ rest) = 0x03000000"
    by (simp add: client_message_bytes be32_at_skip PLATFORM_TRANSPORT_TCP_def le)
      (simp add: be32_at_def be32_value_def)
  show "le32_at 4 (tcp_frame_of msg @ rest) = 0x03000000"
    by (simp add: tcp_frame_of_def le32_at_skip be) (simp add: le32_at_def be32_value_def)
qed

fun data_only :: "recv_event \<Rightarrow> bool" where
  "data_only (RecvData bs) = (bs \<noteq> [])"
| "data_only _ = False"

lemma client_recv_loop_data:
  "list_all data_only es \<Longrightarrow> client_recv_loop want got es = tcp_recv_loop want got es"
proof (induction es arbitrary: got)
  case (Cons e es)
  then show ?case
    by (cases e) auto
qed simp

lemma data_only_undisturbed: "list_all data_only es \<Longrightarrow> list_all undisturbed es"
proof (induction es)
  case (Cons e es)
  then show ?case
    by (cases e) auto
qed simp

lemma client_recv_loop_rest:
  "client_recv_loop want got es = Some (ok, got', es') \<Longrightarrow> length got \<le> want \<Longrightarrow>
   list_all data_only es \<Longrightarrow> list_all data_only es'"
proof (induction es arbitrary: got)
  case (Cons e es)
  then show ?case
    by (cases e) (auto split: if_splits)
qed (auto split: if_splits)

lemma client_recv_loop_stream:
  assumes "list_all data_only es" "length got \<le> want" "want \<le> length got + length (stream_of es)"
  shows "\<exists>es'. client_recv_loop want got es =
      Some (True, got @ take (want - length got) (stream_of es), es') \<and>
    list_all data_only es' \<and> stream_of es' = drop (want - length got) (stream_of es)"
proof -
  from tcp_recv_loop_stream [OF data_only_undisturbed [OF assms(1)] assms(2,3)] obtain es' where
    "tcp_recv_loop want got es = Some (True, got @ take (want - length got) (stream_of es), es')"
    "stream_of es' = drop (want - length got) (stream_of es)"
    by blast
  with client_recv_loop_data [OF assms(1), of want got] client_recv_loop_rest assms
  show ?thesis
    by metis
qed

lemma free_pair:
  assumes "heap_ok h"
  defines "h2 \<equiv> snd (malloc True (snd (malloc True h)))"
  shows "live (free (brk h) (free (Suc (brk h)) h2)) = live h \<and>
    \<not> bad_free (free (brk h) (free (Suc (brk h)) h2))"
proof -
  have "Suc (brk h) \<notin> live h" "brk h \<notin> live h" "\<not> bad_free h"
    using assms(1) by (auto simp: heap_ok_def)
  then show ?thesis
    by (auto simp: h2_def malloc_works free_def)
qed

lemma createSpdmContext_result:
  assumes heap: "heap_ok (mheap m)" and create: "createSpdmContext L OS C m = (r, m')"
  shows "mkernel m' = mkernel m \<and>
    (case r of
       None \<Rightarrow> live (mheap m') = live (mheap m) \<and> \<not> bad_free (mheap m')
     | Some (c, p) \<Rightarrow> c = brk (mheap m) \<and> p = Suc (brk (mheap m)) \<and>
         mheap m' = snd (malloc True (snd (malloc True (mheap m)))))"
proof -
  let ?h = "mheap m"
  have fresh: "\<not> bad_free ?h" "live (free (brk ?h) (snd (malloc True ?h))) = live ?h"
    "\<not> bad_free (free (brk ?h) (snd (malloc True ?h)))"
    using heap heap_ok_free_malloc [OF heap] by (auto simp: heap_ok_def live_free_malloc)
  show ?thesis
  proof (cases "machine_malloc OS (lib_get_context_size L) m")
    case m1: (Pair q1 m1)
    from m1 show ?thesis
    proof (cases rule: machine_malloc_cases)
      case (fails w)
      then have "createSpdmContext L OS C m = (None, m1)"
        using m1 by (simp add: createSpdmContext_def)
      with create have "r = None" "m' = m1"
        by simp_all
      with fails(2) fresh(1) show ?thesis
        by simp
    next
      case (works w)
      obtain st w1 where init: "lib_init_context L (brk ?h) (world m1) = (st, w1)"
        by fastforce
      show ?thesis
      proof (cases "st = LIBSPDM_STATUS_SUCCESS")
        case False
        then have "createSpdmContext L OS C m =
            (None, m1\<lparr>world := w1, mheap := free (brk ?h) (mheap m1)\<rparr>)"
          by (simp add: createSpdmContext_def m1 works(1) init)
        with create have "r = None" "m' = m1\<lparr>world := w1, mheap := free (brk ?h) (mheap m1)\<rparr>"
          by simp_all
        with works(2) fresh show ?thesis
          by simp
      next
        case True
        define w2 where "w2 = lib_register_device_buffer L (brk ?h) SPDM_MAX_BUFFER_SIZE SPDM_MAX_BUFFER_SIZE
          (lib_register_transport_layer L (brk ?h) 0x1200 64 64 Libspdm_transport_mctp
            (lib_register_device_io L (brk ?h) w1))"
        define m2 where "m2 = m1\<lparr>world := w2\<rparr>"
        have h2: "mheap m2 = snd (malloc True ?h)" "mkernel m2 = mkernel m"
          using works by (simp_all add: m2_def)
        obtain q3 m3 where m3: "machine_malloc OS (lib_scratch_size L (brk ?h) w2) m2 = (q3, m3)"
          by fastforce
        from m3 show ?thesis
        proof (cases rule: machine_malloc_cases)
          case (fails w)
          then have "createSpdmContext L OS C m = (None, m3\<lparr>mheap := free (brk ?h) (mheap m3)\<rparr>)"
            using m3 by (simp add: createSpdmContext_def m1 works(1) init True Let_def m2_def w2_def)
          with create have "r = None" "m' = m3\<lparr>mheap := free (brk ?h) (mheap m3)\<rparr>"
            by simp_all
          with fails h2 fresh show ?thesis
            by simp
        next
          case w3: (works w)
          have q3: "q3 = Some (Suc (brk ?h))" and h3: "mheap m3 = snd (malloc True (snd (malloc True ?h)))"
            "mkernel m3 = mkernel m"
            using w3 h2 by (simp_all add: malloc_works)
          have "(r = None \<and> mheap m' = free (brk ?h) (free (Suc (brk ?h)) (mheap m3)) \<or>
              r = Some (brk ?h, Suc (brk ?h)) \<and> mheap m' = mheap m3) \<and> mkernel m' = mkernel m3"
            using create m3
            by (simp add: createSpdmContext_def m1 works(1) init True q3 Let_def m2_def w2_def
                split: if_splits) auto
          with h3 free_pair [OF heap] show ?thesis
            by auto
        qed
      qed
    qed
  qed
qed

lemma tcpConnect_result:
  assumes "tcpConnect s p c cl k = (ok, cl', k')" and "s \<notin> open_fds k"
  shows "if ok then 0 \<le> socketFd cl' \<and> open_fds k' - {socketFd cl'} = open_fds k
         else open_fds k' = open_fds k"
  using assms by (auto simp: tcpConnect_def Let_def split: if_splits)

text \<open>The client's receive callback is a source of messages like those of the transports.\<close>

definition client_callback ::
    "bool \<Rightarrow> client \<times> recv_event list \<times> heap
     \<Rightarrow> (bytes option \<times> client \<times> recv_event list \<times> heap) option"
where
  "client_callback malloc_ok s =
     (case s of (cl, es, h) \<Rightarrow>
        (case spdmDeviceReceiveMessage cl malloc_ok es h of
           None \<Rightarrow> None
         | Some ((st, message), es, h) \<Rightarrow> Some (message, cl, es, h)))"

interpretation client_source: message_source client_callback "\<lambda>(cl, es, h). h"
proof unfold_locales
  fix malloc_ok s message s'
  assume ok: "heap_ok (case s of (cl, es, h) \<Rightarrow> h)" and run: "client_callback malloc_ok s = Some (message, s')"
  obtain cl es h where s: "s = (cl, es, h)"
    by (metis prod_cases3)
  show "took_block (message \<noteq> None) (case s of (cl, es, h) \<Rightarrow> h) (case s' of (cl, es, h) \<Rightarrow> h)"
    using ok run unfolding s
    by (cases malloc_ok)
      (auto simp: client_callback_def spdmDeviceReceiveMessage_def Let_def malloc_works
        took_block_same took_block_malloc [unfolded malloc_works snd_conv]
        took_block_given_back [unfolded malloc_works snd_conv]
        split: option.splits prod.splits bool.splits if_splits)
qed

section \<open>Properties\<close>

text \<open>
  C38. The test client and the daemon do not understand each other, although both name the
  spdm-emu platform format: the daemon's decoder rejects every message of the client, because the
  transport type arrives in the other byte order, and the client rejects every frame of the daemon's
  encoder it receives.
\<close>

theorem client_and_daemon_incompatible:
  assumes "list_all data_only es" and "stream_of es = tcp_frame_of msg @ rest" and "0 \<le> socketFd cl"
  shows "fst (tcp_decode (client_message msg' @ rest') malloc_ok h) = (LIBSPDM_STATUS_INVALID_MSG_FIELD, None) \<and>
    (\<exists>es'. spdmDeviceReceiveMessage cl malloc_ok es h = Some ((LIBSPDM_STATUS_RECEIVE_FAIL, None), es', h))"
proof
  show "fst (tcp_decode (client_message msg' @ rest') malloc_ok h) = (LIBSPDM_STATUS_INVALID_MSG_FIELD, None)"
    by (simp add: tcp_decode_def Let_def transport_type_swapped client_frame_fields platformHeaderSize_def)
  let ?h = "take 12 (tcp_frame_of msg)"
  have "length (tcp_frame_of msg) = 12 + length msg"
    by (rule tcp_frame_fields)
  with assms obtain es1 where h: "client_recv_loop 12 [] es = Some (True, ?h, es1)"
    using client_recv_loop_stream [OF assms(1), of "[]" 12] by auto
  have "le32_at 4 ?h = 0x03000000"
    using transport_type_swapped(2) [of msg "[]"] by (simp add: le32_at_def tcp_frame_fields)
  then show "\<exists>es'. spdmDeviceReceiveMessage cl malloc_ok es h = Some ((LIBSPDM_STATUS_RECEIVE_FAIL, None), es', h)"
    using h assms(3)
    by (simp add: spdmDeviceReceiveMessage_def PLATFORM_HEADER_SIZE_def PLATFORM_TRANSPORT_TCP_def Let_def)
qed

definition example_client :: client where
  "example_client =
     \<lparr>socketFd = 3, c_ipAddr = ''127.0.0.1'', c_port = 2323, sendRecvBuffer = [], bufferAcquired = False\<rparr>"

lemma client_and_daemon_incompatible_witness:
  "fst (tcp_decode (client_message [5]) True empty_heap) = (LIBSPDM_STATUS_INVALID_MSG_FIELD, None) \<and>
   (\<exists>es'. spdmDeviceReceiveMessage example_client True [RecvData (tcp_frame_of [5])] empty_heap =
      Some ((LIBSPDM_STATUS_RECEIVE_FAIL, None), es', empty_heap))"
  using client_and_daemon_incompatible
    [of "[RecvData (tcp_frame_of [5])]" "[5]" "[]" example_client "[5]" "[]" True empty_heap]
  by (simp add: example_client_def tcp_frame_of_def be32_bytes_def)

text \<open>
  C39. Between two test clients the framing is right: a message of 1 to 65536 bytes, framed by the
  sender and received in runs cut anywhere, is delivered as it was, in a new block, and nothing after
  it is touched.
\<close>

theorem client_roundtrip:
  assumes "list_all data_only es" and stream: "stream_of es = client_message msg @ rest"
    and msg: "msg \<noteq> []" "length msg \<le> 65536" and "0 \<le> socketFd cl"
  shows "\<exists>es'. spdmDeviceReceiveMessage cl True es h =
      Some ((LIBSPDM_STATUS_SUCCESS, Some msg), es', snd (malloc True h)) \<and>
    stream_of es' = rest"
proof -
  have frame: "client_message msg = take 12 (client_message msg) @ msg"
    using append_take_drop_id [of 12 "client_message msg"] by (simp add: client_message_bytes)
  let ?h = "take 12 (client_message msg)"
  obtain es1 where h: "client_recv_loop 12 [] es = Some (True, ?h, es1)"
    and d1: "list_all data_only es1" and s1: "stream_of es1 = msg @ rest"
    using client_recv_loop_stream [OF assms(1), of "[]" 12] stream
    by (auto simp: client_frame_fields client_message_bytes)
  obtain es' where p: "client_recv_loop (length msg) [] es1 = Some (True, msg, es')"
    and s': "stream_of es' = rest"
    using client_recv_loop_stream [OF d1, of "[]" "length msg"] s1 by auto
  have fields: "le32_at 4 ?h = PLATFORM_TRANSPORT_TCP" "le32_at 8 ?h = word_of_nat (length msg)"
    using client_frame_fields [of msg] by (simp_all add: le32_at_def)
  have unat: "unat (word_of_nat (length msg) :: u32) = length msg"
    using msg by (simp add: unat_of_nat)
  have size: "(word_of_nat (length msg) :: u32) \<noteq> 0" "\<not> (word_of_nat (length msg) :: u32) > 65536"
    using msg unat by (auto simp: word_less_nat_alt not_less word_unat_eq_iff)
  show ?thesis
    using h p s' fields size unat assms(5)
    by (simp add: spdmDeviceReceiveMessage_def PLATFORM_HEADER_SIZE_def malloc_works Let_def)
qed

lemma client_roundtrip_witness:
  "\<exists>es'. spdmDeviceReceiveMessage example_client True
       [RecvData (take 5 (client_message [1, 2])), RecvData (drop 5 (client_message [1, 2]) @ [9])] empty_heap =
     Some ((LIBSPDM_STATUS_SUCCESS, Some [1, 2]), es', snd (malloc True empty_heap)) \<and> stream_of es' = [9]"
  by (rule client_roundtrip)
    (simp_all add: example_client_def client_message_bytes le32_bytes_def be32_bytes_def)

text \<open>
  C40. The functions of the test client give back what they take: whatever the system and libspdm
  answer, when \<open>main\<close> returns the blocks it allocated, the context and the scratch buffer, are freed
  once, those that were live before are live, and no descriptor is open that was not. (The blocks of
  messages, which the receive callback allocates while libspdm runs, are not among them: they are on
  the callback's heap, where \<open>client_source\<close> says that they stay.)
\<close>

theorem client_main_releases:
  assumes heap: "heap_ok (mheap m)" and fd: "socket_result \<notin> open_fds (mkernel m)"
    and run: "client_main L OS C args socket_result pton_result connect_result cl m = (ok, cl', m')"
  shows "live (mheap m') = live (mheap m) \<and> \<not> bad_free (mheap m') \<and>
    open_fds (mkernel m') = open_fds (mkernel m)"
proof -
  obtain ok1 cl1 k1 where conn: "tcpConnect socket_result pton_result connect_result (client_args args cl) (mkernel m) = (ok1, cl1, k1)"
    by (metis prod_cases3)
  obtain r m2 where create: "createSpdmContext L OS C (m\<lparr>mkernel := k1\<rparr>) = (r, m2)"
    by fastforce
  note c = createSpdmContext_result [OF _ create] and k = tcpConnect_result [OF conn fd]
  show ?thesis
  proof (cases ok1)
    case False
    with run conn k heap show ?thesis
      by (auto simp: client_main_def heap_ok_def)
  next
    case True
    show ?thesis
    proof (cases r)
      case None
      with True run conn k c heap create show ?thesis
        by (auto simp: client_main_def Let_def tcpDisconnect_def split: prod.splits)
    next
      case (Some cp)
      with True run conn k c heap create free_pair [OF heap] show ?thesis
        by (cases cp) (auto simp: client_main_def Let_def destroySpdmContext_def tcpDisconnect_def split: prod.splits)
    qed
  qed
qed

lemma client_main_releases_witness:
  "\<exists>m'. client_main example_libspdm
       \<lparr>os_malloc = (\<lambda>n w. (True, w)), os_mctp_socket = (\<lambda>w. ((3, 0), w)), os_read_file = (\<lambda>path w. None),
        os_tcp_connect = (\<lambda>ip p w. (undefined, w))\<rparr>
       dsp0274 [''10.0.0.1'', ''99''] 4 1 0 example_client
       \<lparr>mheap = empty_heap, mkernel = \<lparr>open_fds = {0}, nonblocking = {}\<rparr>, world = ()\<rparr> =
     (True, example_client\<lparr>socketFd := -1, c_ipAddr := ''10.0.0.1'', c_port := 99\<rparr>, m') \<and>
     live (mheap m') = {} \<and> open_fds (mkernel m') = {0}"
proof -
  let ?OS = "\<lparr>os_malloc = (\<lambda>n w. (True, w)), os_mctp_socket = (\<lambda>w. ((3, 0), w)), os_read_file = (\<lambda>path w. None),
    os_tcp_connect = (\<lambda>ip p w. (undefined, w))\<rparr> :: unit os"
  let ?m = "\<lparr>mheap = empty_heap, mkernel = \<lparr>open_fds = {0}, nonblocking = {}\<rparr>, world = ()\<rparr>"
  obtain ok cl' m' where run: "client_main example_libspdm ?OS dsp0274 [''10.0.0.1'', ''99''] 4 1 0
      example_client ?m = (ok, cl', m')"
    by (metis prod_cases3)
  then have "ok" "cl' = example_client\<lparr>socketFd := -1, c_ipAddr := ''10.0.0.1'', c_port := 99\<rparr>"
    by (simp_all add: client_main_def client_args_def tcpConnect_def createSpdmContext_def machine_malloc_def
        malloc_works example_libspdm_def runSpdmProtocol_def tcpDisconnect_def example_client_def
        set_local_def atoi_def destroySpdmContext_def split_beta Let_def split: if_splits)
  with run client_main_releases [OF _ _ run] show ?thesis
    by (simp add: empty_heap_def heap_ok_def)
qed

end
