(* ===== verification/Device_Secret_Stub.thy ===== *)
theory Device_Secret_Stub
  imports Prelude
begin

text \<open>
  \<^verbatim>\<open>requester/spdm_device_secret_lib_stub.cpp\<close>: the functions libspdm links against for the secrets
  of a device. The daemon only requests, so each is a stub that refuses. All parameters that a stub
  does not look at are one argument \<open>inp\<close>; \<open>out\<close> is what its output pointers point to, and a
  stub returns it as it was.
\<close>

section \<open>Measurements and challenges\<close>

definition libspdm_measurement_collection :: "'inp \<Rightarrow> 'out \<Rightarrow> u32 \<times> 'out" where
  "libspdm_measurement_collection inp out = (0x80000000, out)"

definition libspdm_measurement_opaque_data :: "'inp \<Rightarrow> 'out \<Rightarrow> bool \<times> 'out" where
  "libspdm_measurement_opaque_data inp out = (False, out)"

definition libspdm_generate_measurement_summary_hash :: "'inp \<Rightarrow> 'out \<Rightarrow> bool \<times> 'out" where
  "libspdm_generate_measurement_summary_hash inp out = (False, out)"

definition libspdm_challenge_opaque_data :: "'inp \<Rightarrow> 'out \<Rightarrow> bool \<times> 'out" where
  "libspdm_challenge_opaque_data inp out = (False, out)"

definition libspdm_encap_challenge_opaque_data :: "'inp \<Rightarrow> 'out \<Rightarrow> bool \<times> 'out" where
  "libspdm_encap_challenge_opaque_data inp out = (False, out)"

definition libspdm_measurement_extension_log_collection :: "'inp \<Rightarrow> 'out \<Rightarrow> bool \<times> 'out" where
  "libspdm_measurement_extension_log_collection inp out = (False, out)"

section \<open>Signing and pre-shared keys\<close>

definition libspdm_requester_data_sign :: "'inp \<Rightarrow> 'out \<Rightarrow> bool \<times> 'out" where
  "libspdm_requester_data_sign inp out = (False, out)"

definition libspdm_responder_data_sign :: "'inp \<Rightarrow> 'out \<Rightarrow> bool \<times> 'out" where
  "libspdm_responder_data_sign inp out = (False, out)"

definition libspdm_psk_handshake_secret_hkdf_expand :: "'inp \<Rightarrow> 'out \<Rightarrow> bool \<times> 'out" where
  "libspdm_psk_handshake_secret_hkdf_expand inp out = (False, out)"

definition libspdm_psk_master_secret_hkdf_expand :: "'inp \<Rightarrow> 'out \<Rightarrow> bool \<times> 'out" where
  "libspdm_psk_master_secret_hkdf_expand inp out = (False, out)"

section \<open>Certificates and signing requests\<close>

definition libspdm_is_in_trusted_environment :: "'inp \<Rightarrow> bool" where
  "libspdm_is_in_trusted_environment inp = False"

definition libspdm_write_certificate_to_nvm :: "'inp \<Rightarrow> 'out \<Rightarrow> bool \<times> 'out" where
  "libspdm_write_certificate_to_nvm inp out = (False, out)"

definition libspdm_get_cert_chain_slot_storage_size :: "'inp \<Rightarrow> u32" where
  "libspdm_get_cert_chain_slot_storage_size inp = 0"

definition libspdm_gen_csr :: "'inp \<Rightarrow> 'out \<Rightarrow> bool \<times> 'out" where
  "libspdm_gen_csr inp out = (False, out)"

definition libspdm_gen_csr_ex :: "'inp \<Rightarrow> 'out \<Rightarrow> bool \<times> 'out" where
  "libspdm_gen_csr_ex inp out = (False, out)"

section \<open>Events, key pairs and endpoint information\<close>

definition libspdm_event_get_types :: "'inp \<Rightarrow> 'out \<Rightarrow> bool \<times> 'out" where
  "libspdm_event_get_types inp out = (False, out)"

definition libspdm_event_subscribe :: "'inp \<Rightarrow> bool" where
  "libspdm_event_subscribe inp = False"

definition libspdm_read_key_pair_info :: "'inp \<Rightarrow> 'out \<Rightarrow> bool \<times> 'out" where
  "libspdm_read_key_pair_info inp out = (False, out)"

definition libspdm_write_key_pair_info :: "'inp \<Rightarrow> 'out \<Rightarrow> bool \<times> 'out" where
  "libspdm_write_key_pair_info inp out = (False, out)"

definition libspdm_generate_device_endpoint_info :: "'inp \<Rightarrow> 'out \<Rightarrow> u32 \<times> 'out" where
  "libspdm_generate_device_endpoint_info inp out = (0x80000000, out)"

section \<open>Mutual authentication\<close>

definition libspdm_challenge_start_mut_auth :: "'inp \<Rightarrow> bool" where
  "libspdm_challenge_start_mut_auth inp = False"

text \<open>
  The one hook that writes: \<open>None\<close> stands for a null pointer, which it leaves alone. The status
  \<^verbatim>\<open>LIBSPDM_STATUS_SUCCESS\<close> is 0, and cut to the \<^verbatim>\<open>uint8_t\<close> of the result it asks for no mutual
  authentication.
\<close>

definition libspdm_key_exchange_start_mut_auth ::
    "'inp \<Rightarrow> byte option \<Rightarrow> bool option \<Rightarrow> byte \<times> byte option \<times> bool option" where
  "libspdm_key_exchange_start_mut_auth inp req_slot_id mandatory_mut_auth =
     (let req_slot_id = (case req_slot_id of None \<Rightarrow> None | Some _ \<Rightarrow> Some 0);
          mandatory_mut_auth = (case mandatory_mut_auth of None \<Rightarrow> None | Some _ \<Rightarrow> Some False)
      in (0, req_slot_id, mandatory_mut_auth))"

section \<open>Opaque data of responses\<close>

definition libspdm_key_exchange_rsp_opaque_data :: "'inp \<Rightarrow> 'out \<Rightarrow> bool \<times> 'out" where
  "libspdm_key_exchange_rsp_opaque_data inp out = (False, out)"

definition libspdm_finish_rsp_opaque_data :: "'inp \<Rightarrow> 'out \<Rightarrow> bool \<times> 'out" where
  "libspdm_finish_rsp_opaque_data inp out = (False, out)"

definition libspdm_psk_finish_rsp_opaque_data :: "'inp \<Rightarrow> 'out \<Rightarrow> bool \<times> 'out" where
  "libspdm_psk_finish_rsp_opaque_data inp out = (False, out)"

definition libspdm_psk_exchange_rsp_opaque_data :: "'inp \<Rightarrow> 'out \<Rightarrow> bool \<times> 'out" where
  "libspdm_psk_exchange_rsp_opaque_data inp out = (False, out)"

end
