(* ===== verification/Spec2Isabelle.thy ===== *)
theory Spec2Isabelle
  imports Daemon_Isolation Simple_Client Transport_Callbacks Device_Secret_Stub
begin

text \<open>
  A model of the SPDM requester daemon of OpenBMC: the C++ sources under \<^verbatim>\<open>src/requester\<close>.

  The program. The daemon (\<^verbatim>\<open>spdmd.cpp\<close>) finds devices that can answer SPDM requests, over D-Bus: MCTP
  endpoints or TCP endpoints, one kind per build. Every device gets a transport object, which owns a
  libspdm context, a socket and a scratch buffer and registers callbacks with which libspdm sends and
  receives messages. While the policy object's \<open>enabled\<close> flag is set there is a responder for each
  device: it publishes D-Bus objects, answers the method that reads signed measurements, and keeps a
  secure session while \<open>secure_session_enabled\<close> is set. A change of either flag calls back into the
  daemon, which makes or drops the responders or opens or closes the sessions. A second program, the
  test client (\<^verbatim>\<open>spdm_simple_client.cpp\<close>), has its own copy of the TCP transport.

  What is not in the repository is a parameter: libspdm is the record \<open>libspdm\<close> of its functions over a
  world \<open>'w\<close> that they thread (the context, the network and the device behind it), the constants of its
  headers are \<open>spdm_consts\<close>, the operating system's answers are the record \<open>os\<close> or the lists of events of
  a socket, OpenSSL is \<open>openssl\<close>, the JSON library \<open>json_api\<close>, the allocator of the C++ library is
  \<open>memory\<close>, what the D-Bus library answers to the registration of an object is a function of the path and
  the paths in use, and the events it delivers are a list. Theorems hold for all of them; the
  instances \<open>example_libspdm\<close>, \<open>dsp0274\<close>, \<open>rich_os\<close>, \<open>example_json\<close> and \<open>counting_libspdm\<close> show that
  hypotheses can hold.

  The theories, in the order in which the program is layered:

  \<^item> \<open>Prelude\<close>: bytes, vectors and the memory for them, big- and little-endian fields, the heap of \<^verbatim>\<open>malloc\<close>, open
    descriptors.
  \<^item> \<open>Libspdm_Api\<close>: the part of libspdm the program calls, as a parameter.
  \<^item> \<open>Mctp_Helper\<close> (\<^verbatim>\<open>mctp_helper.hpp\<close>), \<open>Tcp_Helper\<close> and \<open>Tcp_Io\<close> (\<^verbatim>\<open>tcp_helper.hpp\<close>): framing and sockets. The
    locale \<open>message_framing\<close> is the contract of a framing; both transports interpret it. The loops of
    \<open>write\<close> and \<open>read\<close> consume a list with one event per return of the system call; \<open>None\<close> is a call that
    has not returned when the list ends. \<open>tcp_write_prefix_and_returns\<close> says how many events are enough.
    The socket of MCTP reads from a queue of datagrams, and waits when it is empty. \<open>decode\<close> takes the
    block for the message from the heap.
  \<^item> \<open>Transport\<close> (\<^verbatim>\<open>libspdm_transport.hpp\<close>): the base class, the shared text of both \<open>initialize\<close>, and the
    contract \<open>buffer_lock\<close> of the one send-and-receive buffer.
  \<^item> \<open>Transport_Lifecycle\<close> (\<^verbatim>\<open>libspdm_mctp_transport\<close>, \<^verbatim>\<open>libspdm_tcp_transport\<close>): \<open>initialize\<close>, its steps and its
    error paths, and the destructors, over a machine with a heap. The contract \<open>transport_lifecycle\<close> has
    three interpretations: the two classes and the base-class pointer. The leak theorems are here.
  \<^item> \<open>Transport_Callbacks\<close> (the same files): the callbacks that send and receive. End-to-end theorems:
    what one side sends the other receives, in order, however the kernel cuts the stream, what an error
    in the middle of a frame, or a vector there is no memory for, does to the receptions after it, and
    the timeouts a callback leaves on the socket. Over MCTP each reception takes one datagram, and
    waits for it without a timeout.
  \<^item> \<open>Message_Blocks\<close> (the same files and \<open>decode\<close> of the framings): the heap blocks of received messages. The
    contract \<open>message_source\<close> is any sequence of callbacks; both transports and the test client
    interpret it: one new block for each message delivered, none of them ever freed.
  \<^item> \<open>Session_Config\<close> (\<^verbatim>\<open>spdm_session_config\<close>), \<open>Session\<close> (\<^verbatim>\<open>spdm_session\<close>): configuration as a list of settings
    that it refines, the choice of the root certificate, and the secure session with its contract
    \<open>session_endpoint\<close>.
  \<^item> \<open>Base64\<close> (\<^verbatim>\<open>utils.cpp\<close>), \<open>Pem\<close> (\<open>derCertsToPem\<close>): the encoders, with decoders written for them, the
    round trips, and how the loop over a certificate chain ends: with an empty certificate for every
    index it goes on until memory for the text runs out, which is why \<open>derCertsToPem\<close> takes \<open>memory\<close>.
  \<^item> \<open>Certificate_Dbus\<close> (\<^verbatim>\<open>certificate_dbus\<close>, \<^verbatim>\<open>trusted_component_dbus\<close>), \<open>Component_Integrity\<close>
    (\<^verbatim>\<open>component_integrity_dbus\<close>): the published objects and the method for signed measurements, with
    its exceptions as values. \<open>measured\<close> is the abstract relation of what the device answered.
  \<^item> \<open>Policy_Manager\<close> (\<^verbatim>\<open>policy_manager\<close>): the two flags, their callbacks (contract \<open>observed_property\<close>),
    sequences of changes of both, and the cache file.
  \<^item> \<open>Responder\<close> (\<^verbatim>\<open>spdm_dbus_responder\<close>), \<open>Discovery\<close> (\<^verbatim>\<open>spdm_discovery\<close>, \<^verbatim>\<open>mctp_transport_discovery\<close>,
    \<^verbatim>\<open>tcp_transport_discovery\<close>, the asynchronous helpers of \<^verbatim>\<open>utils.cpp\<close>): responders, the store of shared
    transports, and which bus objects become devices (contract \<open>discovery_protocol\<close>).
  \<^item> \<open>Daemon\<close> (\<^verbatim>\<open>spdmd.cpp\<close>): \<open>main\<close>, the policy callbacks, and the transition relation \<open>step\<close> with its reachable
    states: discovery answers at most once, the flags are set, methods are called, and the world
    changes by itself, in any order. \<open>daemon_ok\<close> is the invariant behind the daemon's theorems.
    \<open>cooperative\<close> and \<open>secure_device\<close> say that libspdm, the system and the devices answer, \<open>sd_bus\<close>
    that the bus registers a valid path unless it is taken; \<open>published\<close> are the devices that then
    get a responder.
  \<^item> \<open>Transport_Resources\<close>: what a transport owns, a descriptor and a scratch buffer. The contract
    \<open>transport_resources\<close> extends \<open>transport_lifecycle\<close> with the destructor and the address; its
    lemmas say that a store of transports keeps owning what was opened and gives it all back. The
    contract \<open>transport_contexts\<close> extends it with the context: no two transports of a store share one.
  \<^item> \<open>Daemon_Main\<close> (\<^verbatim>\<open>spdmd.cpp\<close>): the signal handlers, the callbacks that run for a list of events, and
    \<open>main\<close> as one function up to the last destructor. The event loop itself is the D-Bus library's: the
    events and how \<^verbatim>\<open>run\<close> ends are arguments. What runs is a sequence of steps of \<open>Daemon\<close>; every
    callback \<open>keeps\<close> the identity of the transports and the ownership of resources. What \<open>main\<close> leaves
    behind, the types of devices, what enabling again leaks.
  \<^item> \<open>Daemon_Objects\<close> (\<^verbatim>\<open>spdmd.cpp\<close>, \<^verbatim>\<open>spdm_dbus_responder.cpp\<close>): the paths of the responders on the bus,
    which are made from the devices' names, and which devices go without a responder for want of one.
  \<^item> \<open>Daemon_Spec\<close>: the contract of the daemon as an abstract machine over the policy and the discovered
    devices, and the simulation: with devices that answer, every step is a step of the machine and the
    responders and sessions are a function of its state.
  \<^item> \<open>Context_Views\<close>: what stays within one libspdm context. \<open>independent_contexts\<close> is the hypothesis on
    libspdm (a call on a context reads and changes only what belongs to it, given by a view of the
    world), \<open>confined\<close> what the method and the session operations make of it.
  \<^item> \<open>Daemon_Isolation\<close>: the responders do not disturb each other, since in every reachable state each has
    a live context of its own.
  \<^item> \<open>Simple_Client\<close> (\<^verbatim>\<open>spdm_simple_client.cpp\<close>): the test client.
  \<^item> \<open>Device_Secret_Stub\<close> (\<^verbatim>\<open>spdm_device_secret_lib_stub.cpp\<close>): the hooks that libspdm wants at link time,
    for secrets that a requester does not have.

  Representation. \<^verbatim>\<open>std::vector\<close> of bytes is a list of \<open>8 word\<close>; fixed-width integers are words, \<^verbatim>\<open>size_t\<close> of a
  wrap-around computation is a \<open>64 word\<close> and elsewhere a natural number; a pointer is an address of the
  heap model, \<open>nullptr\<close> is \<open>None\<close>; a \<^verbatim>\<open>shared_ptr\<close> to a transport is a reference into the store, since the
  list of devices and the responders share it; an exception is a value of \<open>exn\<close>. Loops over data are
  structural or have a termination proof; that of \<open>derCertsToPem_loop\<close> is that every turn that takes no
  byte of the chain adds to a string of bounded length.

  Not modelled: log and printed output (\<open>hexDump\<close> of the client among it); the D-Bus library and its
  scheduling; exceptions of the standard library when memory for a string or a vector runs out, other
  than in the callbacks of the transports and in \<open>derCertsToPem\<close>; members of the classes that no
  code reads; and the build-time constants of libspdm. The functions of libspdm are taken to return;
  what they send and receive through the callbacks is part of their world, so that the heap of the
  transports' own blocks and the heap on which the callbacks put messages are two: they meet in no
  block. A signal is delivered between two callbacks: its handler only sets what the event loop looks
  at when a callback has returned.
\<close>

end
